(* ===== verification/LFS_Prelude.thy ===== *)
theory LFS_Prelude
  imports Main "HOL-Library.Word"
begin

text \<open>
  Shared vocabulary of the development: the machine types of the C code, the outcome of a C
  call (a value, a negative error code, or a fault), the state-passing command type with its
  combinators and weakest-precondition rules, bounds-checked buffer access, and the facts on
  32-bit words and list slices that every component uses.
\<close>

unbundle bit_operations_syntax

section \<open>Machine types\<close>

type_synonym u8 = "8 word"
type_synonym u16 = "16 word"
type_synonym u32 = "32 word"

named_theorems u32_simps \<comment> \<open>from 32-bit words to natural numbers\<close>
named_theorems cmd_simps \<comment> \<open>unfolding the command combinators\<close>
named_theorems wp_simps \<comment> \<open>weakest preconditions of the command combinators\<close>

section \<open>Errors, faults and outcomes\<close>

text \<open>
  \<open>lfs_error\<close> is the C enumeration of negative codes; \<open>LFS_ERR_OTHER\<close> stands for any other
  negative value that a call may propagate.  A fault is what the C standard or the code itself
  rules out: a failing \<^verbatim>\<open>LFS_ASSERT\<close>, an access outside a buffer, a signed addition that
  overflows, or a loop that spends the fuel given to its model.
\<close>

datatype lfs_error =
    LFS_ERR_IO | LFS_ERR_CORRUPT | LFS_ERR_NOENT | LFS_ERR_EXIST | LFS_ERR_NOTDIR
  | LFS_ERR_ISDIR | LFS_ERR_NOTEMPTY | LFS_ERR_BADF | LFS_ERR_FBIG | LFS_ERR_INVAL
  | LFS_ERR_NOSPC | LFS_ERR_NOMEM | LFS_ERR_NOATTR | LFS_ERR_NAMETOOLONG
  | LFS_ERR_OTHER int

fun lfs_error_code :: "lfs_error \<Rightarrow> int" where
  "lfs_error_code LFS_ERR_IO = -5"
| "lfs_error_code LFS_ERR_CORRUPT = -84"
| "lfs_error_code LFS_ERR_NOENT = -2"
| "lfs_error_code LFS_ERR_EXIST = -17"
| "lfs_error_code LFS_ERR_NOTDIR = -20"
| "lfs_error_code LFS_ERR_ISDIR = -21"
| "lfs_error_code LFS_ERR_NOTEMPTY = -39"
| "lfs_error_code LFS_ERR_BADF = -9"
| "lfs_error_code LFS_ERR_FBIG = -27"
| "lfs_error_code LFS_ERR_INVAL = -22"
| "lfs_error_code LFS_ERR_NOSPC = -28"
| "lfs_error_code LFS_ERR_NOMEM = -12"
| "lfs_error_code LFS_ERR_NOATTR = -61"
| "lfs_error_code LFS_ERR_NAMETOOLONG = -36"
| "lfs_error_code (LFS_ERR_OTHER n) = n"

definition lfs_error_of_code :: "int \<Rightarrow> lfs_error" where
  "lfs_error_of_code n =
     (if n = -5 then LFS_ERR_IO else if n = -84 then LFS_ERR_CORRUPT
      else if n = -2 then LFS_ERR_NOENT else if n = -17 then LFS_ERR_EXIST
      else if n = -20 then LFS_ERR_NOTDIR else if n = -21 then LFS_ERR_ISDIR
      else if n = -39 then LFS_ERR_NOTEMPTY else if n = -9 then LFS_ERR_BADF
      else if n = -27 then LFS_ERR_FBIG else if n = -22 then LFS_ERR_INVAL
      else if n = -28 then LFS_ERR_NOSPC else if n = -12 then LFS_ERR_NOMEM
      else if n = -61 then LFS_ERR_NOATTR else if n = -36 then LFS_ERR_NAMETOOLONG
      else LFS_ERR_OTHER n)"

datatype fault = Assert_Failed | Out_Of_Bounds | Signed_Overflow | Out_Of_Fuel

datatype 'a outcome = Ok 'a | Err lfs_error | Fault fault

section \<open>Commands\<close>

text \<open>
  A C function that works on the state \<open>'s\<close> and returns \<open>'a\<close> is a command.  The state
  survives an error return, as the memory of the C program does.
\<close>

type_synonym ('s, 'a) cmd = "'s \<Rightarrow> 'a outcome \<times> 's"

definition ret :: "'a \<Rightarrow> ('s, 'a) cmd" where
  "ret a s = (Ok a, s)"

definition throw :: "lfs_error \<Rightarrow> ('s, 'a) cmd" where
  "throw e s = (Err e, s)"

definition stuck :: "fault \<Rightarrow> ('s, 'a) cmd" where
  "stuck x s = (Fault x, s)"

definition bnd :: "('s, 'a) cmd \<Rightarrow> ('a \<Rightarrow> ('s, 'b) cmd) \<Rightarrow> ('s, 'b) cmd" where
  "bnd m f s = (case m s of
      (Ok a, s') \<Rightarrow> f a s'
    | (Err e, s') \<Rightarrow> (Err e, s')
    | (Fault x, s') \<Rightarrow> (Fault x, s'))"

definition handle :: "('s, 'a) cmd \<Rightarrow> (lfs_error \<Rightarrow> ('s, 'a) cmd) \<Rightarrow> ('s, 'a) cmd" where
  "handle m h s = (case m s of
      (Ok a, s') \<Rightarrow> (Ok a, s')
    | (Err e, s') \<Rightarrow> h e s'
    | (Fault x, s') \<Rightarrow> (Fault x, s'))"

text \<open>\<open>attempt m\<close> hands the caller the return code, as \<^verbatim>\<open>int err = m();\<close> does.\<close>

definition attempt :: "('s, 'a) cmd \<Rightarrow> ('s, lfs_error + 'a) cmd" where
  "attempt m s = (case m s of
      (Ok a, s') \<Rightarrow> (Ok (Inr a), s')
    | (Err e, s') \<Rightarrow> (Ok (Inl e), s')
    | (Fault x, s') \<Rightarrow> (Fault x, s'))"

definition gets :: "('s \<Rightarrow> 'a) \<Rightarrow> ('s, 'a) cmd" where
  "gets f s = (Ok (f s), s)"

definition modify :: "('s \<Rightarrow> 's) \<Rightarrow> ('s, unit) cmd" where
  "modify f s = (Ok (), f s)"

definition assertion :: "bool \<Rightarrow> ('s, unit) cmd" where
  "assertion b = (if b then ret () else stuck Assert_Failed)"

text \<open>\<open>zoom\<close> runs a command on a part of the state (the objects a callee gets pointers to).\<close>

definition zoom :: "('s \<Rightarrow> 't) \<Rightarrow> ('t \<Rightarrow> 's \<Rightarrow> 's) \<Rightarrow> ('t, 'a) cmd \<Rightarrow> ('s, 'a) cmd" where
  "zoom get put m s = (case m (get s) of (r, t) \<Rightarrow> (r, put t s))"

definition on_snd :: "('t, 'a) cmd \<Rightarrow> ('p \<times> 't, 'a) cmd" where
  "on_snd m = zoom snd (\<lambda>t (p, _). (p, t)) m"

definition on_fst :: "('t, 'a) cmd \<Rightarrow> ('t \<times> 'p, 'a) cmd" where
  "on_fst m = zoom fst (\<lambda>t (_, p). (t, p)) m"

text \<open>\<open>memcpy\<close> from and to a buffer, refused outside its bounds.\<close>

definition mem_read :: "u8 list \<Rightarrow> nat \<Rightarrow> nat \<Rightarrow> ('s, u8 list) cmd" where
  "mem_read buf i n =
     (if i + n \<le> length buf then ret (take n (drop i buf)) else stuck Out_Of_Bounds)"

definition patch :: "'a list \<Rightarrow> nat \<Rightarrow> 'a list \<Rightarrow> 'a list" where
  "patch buf i xs = take i buf @ xs @ drop (i + length xs) buf"

definition mem_write :: "u8 list \<Rightarrow> nat \<Rightarrow> u8 list \<Rightarrow> ('s, u8 list) cmd" where
  "mem_write buf i xs =
     (if i + length xs \<le> length buf then ret (patch buf i xs) else stuck Out_Of_Bounds)"

text \<open>A loop over the elements of a list, ended by the first error.\<close>

fun for_each :: "('a \<Rightarrow> ('s, unit) cmd) \<Rightarrow> 'a list \<Rightarrow> ('s, unit) cmd" where
  "for_each f [] = ret ()"
| "for_each f (x # xs) = bnd (f x) (\<lambda>_. for_each f xs)"

lemmas cmd_defs [cmd_simps] =
  ret_def throw_def stuck_def bnd_def handle_def attempt_def gets_def modify_def
  assertion_def zoom_def on_snd_def on_fst_def mem_read_def mem_write_def

section \<open>Weakest preconditions\<close>

definition wp :: "('s, 'a) cmd \<Rightarrow> ('a outcome \<Rightarrow> 's \<Rightarrow> bool) \<Rightarrow> 's \<Rightarrow> bool" where
  "wp m Q s = (case m s of (r, s') \<Rightarrow> Q r s')"

text \<open>Total correctness: the command returns a value (no error, no fault) that satisfies \<open>P\<close>.\<close>

definition okp :: "('a \<Rightarrow> 's \<Rightarrow> bool) \<Rightarrow> 'a outcome \<Rightarrow> 's \<Rightarrow> bool" where
  "okp P r s = (case r of Ok a \<Rightarrow> P a s | Err _ \<Rightarrow> False | Fault _ \<Rightarrow> False)"

lemma okp_simps [simp]:
  "okp P (Ok a) s = P a s" "okp P (Err e) s = False" "okp P (Fault x) s = False"
  by (simp_all add: okp_def)

lemma wp_ret [wp_simps]: "wp (ret a) Q s = Q (Ok a) s"
  by (simp add: wp_def ret_def)

lemma wp_throw [wp_simps]: "wp (throw e) Q s = Q (Err e) s"
  by (simp add: wp_def throw_def)

lemma wp_stuck [wp_simps]: "wp (stuck x) Q s = Q (Fault x) s"
  by (simp add: wp_def stuck_def)

lemma wp_gets [wp_simps]: "wp (gets f) Q s = Q (Ok (f s)) s"
  by (simp add: wp_def gets_def)

lemma wp_modify [wp_simps]: "wp (modify f) Q s = Q (Ok ()) (f s)"
  by (simp add: wp_def modify_def)

lemma wp_assertion [wp_simps]:
  "wp (assertion b) Q s = (if b then Q (Ok ()) s else Q (Fault Assert_Failed) s)"
  by (simp add: assertion_def wp_simps)

lemma wp_bnd [wp_simps]:
  "wp (bnd m f) Q s =
     wp m (\<lambda>r s'. case r of Ok a \<Rightarrow> wp (f a) Q s' | Err e \<Rightarrow> Q (Err e) s' | Fault x \<Rightarrow> Q (Fault x) s') s"
  by (auto simp: wp_def bnd_def split: prod.splits outcome.splits)

lemma wp_handle [wp_simps]:
  "wp (handle m h) Q s =
     wp m (\<lambda>r s'. case r of Ok a \<Rightarrow> Q (Ok a) s' | Err e \<Rightarrow> wp (h e) Q s' | Fault x \<Rightarrow> Q (Fault x) s') s"
  by (auto simp: wp_def handle_def split: prod.splits outcome.splits)

lemma wp_attempt [wp_simps]:
  "wp (attempt m) Q s =
     wp m (\<lambda>r s'. case r of Ok a \<Rightarrow> Q (Ok (Inr a)) s' | Err e \<Rightarrow> Q (Ok (Inl e)) s'
                   | Fault x \<Rightarrow> Q (Fault x) s') s"
  by (auto simp: wp_def attempt_def split: prod.splits outcome.splits)

lemma wp_zoom [wp_simps]: "wp (zoom get put m) Q s = wp m (\<lambda>r t. Q r (put t s)) (get s)"
  by (auto simp: wp_def zoom_def split: prod.splits)

lemma wp_on_snd [wp_simps]: "wp (on_snd m) Q (p, t) = wp m (\<lambda>r t'. Q r (p, t')) t"
  by (simp add: on_snd_def wp_zoom)

lemma wp_on_fst [wp_simps]: "wp (on_fst m) Q (t, p) = wp m (\<lambda>r t'. Q r (t', p)) t"
  by (simp add: on_fst_def wp_zoom)

lemma wp_mem_read [wp_simps]:
  "wp (mem_read buf i n) Q s =
     (if i + n \<le> length buf then Q (Ok (take n (drop i buf))) s else Q (Fault Out_Of_Bounds) s)"
  by (simp add: mem_read_def wp_simps)

lemma wp_mem_write [wp_simps]:
  "wp (mem_write buf i xs) Q s =
     (if i + length xs \<le> length buf then Q (Ok (patch buf i xs)) s else Q (Fault Out_Of_Bounds) s)"
  by (simp add: mem_write_def wp_simps)

lemma wp_mono: "wp m P s \<Longrightarrow> (\<And>r s'. P r s' \<Longrightarrow> Q r s') \<Longrightarrow> wp m Q s"
  by (simp add: wp_def split: prod.splits)

lemma wp_okp_mono: "wp m (okp P) s \<Longrightarrow> (\<And>a s'. P a s' \<Longrightarrow> Q (Ok a) s') \<Longrightarrow> wp m Q s"
  by (auto simp: wp_def okp_def split: prod.splits outcome.splits)

lemma wp_conj: "wp m P s \<Longrightarrow> wp m Q s \<Longrightarrow> wp m (\<lambda>r s'. P r s' \<and> Q r s') s"
  by (simp add: wp_def split: prod.splits)

lemma wp_okpD: "wp m (okp P) s \<Longrightarrow> \<exists>a s'. m s = (Ok a, s') \<and> P a s'"
  by (cases "m s"; cases "fst (m s)") (auto simp: wp_def)

lemma wp_okpI: "m s = (Ok a, s') \<Longrightarrow> P a s' \<Longrightarrow> wp m (okp P) s"
  by (simp add: wp_def)

lemma wp_trivial: "(\<And>r s'. Q r s') \<Longrightarrow> wp m Q s"
  by (simp add: wp_def split: prod.splits)

text \<open>Running the first command of a sequence when its result is known.\<close>

lemma wp_bnd_run: "m s = (Ok a, s') \<Longrightarrow> wp (bnd m f) Q s = wp (f a) Q s'"
  by (simp add: wp_def bnd_def)

lemma wp_bnd_gets: "wp (bnd (gets g) f) Q s = wp (f (g s)) Q s"
  by (rule wp_bnd_run) (simp add: gets_def)

lemma on_snd_run: "m t = (Ok a, t') \<Longrightarrow> on_snd m (p, t) = (Ok a, (p, t'))"
  by (simp add: on_snd_def zoom_def)

lemma wp_bnd_modify: "wp (bnd (modify h) f) Q s = wp (f ()) Q (h s)"
  by (rule wp_bnd_run) (simp add: modify_def)

lemma wp_bnd_on_snd: "m t = (Ok a, t') \<Longrightarrow> wp (bnd (on_snd m) f) Q (p, t) = wp (f a) Q (p, t')"
  by (rule wp_bnd_run) (rule on_snd_run)

lemma wp_bnd_on_snd2:
  "m t = (Ok a, t') \<Longrightarrow>
     wp (bnd (on_snd (on_snd m)) f) Q (p, q, t) = wp (f a) Q (p, q, t')"
  by (rule wp_bnd_on_snd) (rule on_snd_run)

lemma wp_if [wp_simps]: "wp (if b then m else m') Q s = (if b then wp m Q s else wp m' Q s)"
  by simp

lemma bnd_ret [simp]: "bnd (ret a) f = f a"
  by (rule ext) (simp add: bnd_def ret_def)

lemma bnd_throw [simp]: "bnd (throw e) f = throw e"
  by (rule ext) (simp add: bnd_def throw_def)

lemma bnd_assoc: "bnd (bnd m f) g = bnd m (\<lambda>a. bnd (f a) g)"
  by (rule ext) (simp add: bnd_def split: prod.splits outcome.splits)

section \<open>Thirty-two bit words as natural numbers\<close>

lemma unat_less_u32 [simp]: "unat (a :: u32) < 4294967296"
  by (rule order.strict_trans2 [OF unsigned_less]) simp

lemma unat_less_u8 [simp]: "unat (a :: u8) < 256"
  by (rule order.strict_trans2 [OF unsigned_less]) simp

lemma u32_less [u32_simps]: "(a :: u32) < b \<longleftrightarrow> unat a < unat b"
  by (rule word_less_nat_alt)

lemma u32_le [u32_simps]: "(a :: u32) \<le> b \<longleftrightarrow> unat a \<le> unat b"
  by (rule word_le_nat_alt)

lemma u32_eq: "(a :: u32) = b \<longleftrightarrow> unat a = unat b"
  by (rule word_unat_eq_iff)

lemma unat_add_u32: "unat (a :: u32) + unat b < 4294967296 \<Longrightarrow> unat (a + b) = unat a + unat b"
  using unat_add_lem [of a b] by simp

lemma unat_add_u32_mod: "unat ((a :: u32) + b) = (unat a + unat b) mod 4294967296"
  by (simp add: unat_word_ariths)

lemma unat_sub_u32: "unat (b :: u32) \<le> unat a \<Longrightarrow> unat (a - b) = unat a - unat b"
  using unat_sub [of b a] by (simp add: word_le_nat_alt)

lemma unat_mult_u32: "unat (a :: u32) * unat b < 4294967296 \<Longrightarrow> unat (a * b) = unat a * unat b"
  by (simp add: unat_word_ariths)

lemma unat_div_u32 [u32_simps]: "unat ((a :: u32) div b) = unat a div unat b"
  by (rule unat_div)

lemma unat_mod_u32 [u32_simps]: "unat ((a :: u32) mod b) = unat a mod unat b"
  by (rule unat_mod)

lemma unat_of_nat_u32: "n < 4294967296 \<Longrightarrow> unat (of_nat n :: u32) = n"
  by (simp add: unat_of_nat take_bit_eq_mod)

lemma u32_gt_0 [u32_simps]: "(0 :: u32) < a \<longleftrightarrow> 0 < unat a"
  by (simp add: word_less_nat_alt)

lemma u32_mod_0: "(a :: u32) mod b = 0 \<longleftrightarrow> unat b dvd unat a"
proof -
  have "a mod b = 0 \<longleftrightarrow> unat (a mod b) = 0" by (simp add: unat_eq_0)
  then show ?thesis by (simp add: unat_mod_u32 mod_eq_0_iff_dvd)
qed

lemma u32_of_nat_unat [simp]: "(of_nat (unat a) :: u32) = a"
  by simp

lemmas u32_arith = unat_add_u32 unat_sub_u32 unat_mult_u32

section \<open>List slices\<close>

definition seg :: "'a list \<Rightarrow> nat \<Rightarrow> nat \<Rightarrow> 'a list" where
  "seg xs i n = take n (drop i xs)"

lemma length_seg [simp]: "length (seg xs i n) = min n (length xs - i)"
  by (simp add: seg_def)

lemma seg_0 [simp]: "seg xs i 0 = []"
  by (simp add: seg_def)

lemma seg_append: "seg xs i (m + n) = seg xs i m @ seg xs (i + m) n"
  by (simp add: seg_def take_add add.commute)

lemma seg_split: "m \<le> n \<Longrightarrow> seg xs i n = seg xs i m @ seg xs (i + m) (n - m)"
  using seg_append [of xs i m "n - m"] by simp

lemma seg_seg: "i + n \<le> m \<Longrightarrow> seg (seg xs j m) i n = seg xs (j + i) n"
  by (simp add: seg_def take_drop min_def add.commute add.left_commute)

lemma seg_take: "i + n \<le> m \<Longrightarrow> seg (take m xs) i n = seg xs i n"
  by (simp add: seg_def take_drop min_def add.commute)

lemma nth_seg: "k < n \<Longrightarrow> i + n \<le> length xs \<Longrightarrow> seg xs i n ! k = xs ! (i + k)"
  by (simp add: seg_def)

lemma length_patch [simp]: "i + length xs \<le> length buf \<Longrightarrow> length (patch buf i xs) = length buf"
  by (simp add: patch_def)

lemma nth_patch:
  "i + length xs \<le> length buf \<Longrightarrow> k < length buf \<Longrightarrow>
     patch buf i xs ! k = (if i \<le> k \<and> k < i + length xs then xs ! (k - i) else buf ! k)"
  by (auto simp: patch_def nth_append)

lemma patch_Nil [simp]: "patch buf i [] = buf"
  by (simp add: patch_def)

lemma seg_patch_same:
  "i + length xs \<le> length buf \<Longrightarrow> seg (patch buf i xs) i (length xs) = xs"
  by (simp add: seg_def patch_def)

lemma seg_patch_before:
  "j + n \<le> i \<Longrightarrow> i \<le> length buf \<Longrightarrow> seg (patch buf i xs) j n = seg buf j n"
  by (simp add: seg_def patch_def take_drop min_def add.commute)

lemma seg_patch_after:
  "i + length xs \<le> j \<Longrightarrow> i + length xs \<le> length buf \<Longrightarrow> seg (patch buf i xs) j n = seg buf j n"
  by (simp add: seg_def patch_def)

lemma seg_patch_inside:
  "i \<le> j \<Longrightarrow> j + n \<le> i + length xs \<Longrightarrow> i + length xs \<le> length buf \<Longrightarrow>
     seg (patch buf i xs) j n = seg xs (j - i) n"
  by (rule nth_equalityI) (auto simp: nth_seg nth_patch)

lemma patch_patch:
  "i + length xs \<le> length buf \<Longrightarrow>
     patch (patch buf i xs) (i + length xs) ys = patch buf i (xs @ ys)"
  by (simp add: patch_def add.commute add.left_commute)

lemma take_patch: "i \<le> length buf \<Longrightarrow> n \<le> i \<Longrightarrow> take n (patch buf i xs) = take n buf"
  by (simp add: patch_def min_def)

lemma mem_read_seg: "i + n \<le> length buf \<Longrightarrow> mem_read buf i n = ret (seg buf i n)"
  by (simp add: mem_read_def seg_def)

lemma mem_write_patch: "i + length xs \<le> length buf \<Longrightarrow> mem_write buf i xs = ret (patch buf i xs)"
  by (simp add: mem_write_def)

lemma list_eq_segs: "length xs = length ys \<Longrightarrow> (\<And>k. k < length xs \<Longrightarrow> xs ! k = ys ! k) \<Longrightarrow> xs = ys"
  by (rule nth_equalityI) auto

end
