(* ===== verification/LFS_Util.thy ===== *)
theory LFS_Util
  imports LFS_Prelude
begin

text \<open>
  The utilities of \<^verbatim>\<open>src/src/lfs/lfs_util.h\<close> and \<^verbatim>\<open>src/src/lfs/lfs_util.c\<close>: minimum, maximum and
  alignment, the next power of two, trailing zeros and population count (the branch that uses the
  compiler builtins, which the shipped build takes, and the portable branch where it differs),
  the sequence comparison, the byte order conversions, and the CRC with its lookup table.
\<close>

section \<open>Minimum, maximum, alignment\<close>

definition lfs_max :: "u32 \<Rightarrow> u32 \<Rightarrow> u32" where
  "lfs_max a b = (if a > b then a else b)"

definition lfs_min :: "u32 \<Rightarrow> u32 \<Rightarrow> u32" where
  "lfs_min a b = (if a < b then a else b)"

definition lfs_aligndown :: "u32 \<Rightarrow> u32 \<Rightarrow> u32" where
  "lfs_aligndown a alignment = a - (a mod alignment)"

definition lfs_alignup :: "u32 \<Rightarrow> u32 \<Rightarrow> u32" where
  "lfs_alignup a alignment = lfs_aligndown (a + alignment - 1) alignment"

lemma unat_lfs_max [u32_simps]: "unat (lfs_max a b) = max (unat a) (unat b)"
  by (auto simp: lfs_max_def u32_simps)

lemma unat_lfs_min [u32_simps]: "unat (lfs_min a b) = min (unat a) (unat b)"
  by (auto simp: lfs_min_def u32_simps)

lemma unat_lfs_aligndown [u32_simps]:
  "unat (lfs_aligndown a b) = unat a - unat a mod unat b"
  by (simp add: lfs_aligndown_def unat_sub_u32 u32_simps)

lemma unat_lfs_aligndown_div: "unat (lfs_aligndown a b) = unat b * (unat a div unat b)"
  by (simp add: unat_lfs_aligndown minus_mod_eq_mult_div)

lemma unat_lfs_alignup:
  assumes "0 < unat b" and "unat a + unat b \<le> 4294967296"
  shows "unat (lfs_alignup a b) = unat b * ((unat a + unat b - 1) div unat b)"
proof -
  have eq: "a + b - 1 = a + (b - 1)" by simp
  have "unat (b - 1) = unat b - 1"
    using assms(1) by (simp add: unat_sub_u32)
  then have "unat (a + b - 1) = unat a + unat b - 1"
    unfolding eq using assms by (simp add: unat_add_u32)
  then show ?thesis by (simp add: lfs_alignup_def unat_lfs_aligndown_div)
qed

lemma align_nat_bounds:
  fixes a b :: nat
  assumes "0 < b"
  shows "a \<le> b * ((a + b - 1) div b)" and "b * ((a + b - 1) div b) < a + b"
proof -
  have eq: "b * ((a + b - 1) div b) + (a + b - 1) mod b = a + b - 1" by simp
  have lt: "(a + b - 1) mod b < b" using assms by simp
  show "a \<le> b * ((a + b - 1) div b)" using eq lt by linarith
  show "b * ((a + b - 1) div b) < a + b" using eq assms by linarith
qed

section \<open>Powers of two, trailing zeros, population count\<close>

text \<open>
  The compiler builtins, as the compiler documents them; the count of leading or trailing zeros of
  \<open>0\<close> is undefined in C and 32 here.
\<close>

definition builtin_clz :: "u32 \<Rightarrow> nat" where
  "builtin_clz a = length (takeWhile (\<lambda>i. \<not> bit a i) (rev [0..<32]))"

definition builtin_ctz :: "u32 \<Rightarrow> nat" where
  "builtin_ctz a = length (takeWhile (\<lambda>i. \<not> bit a i) [0..<32])"

definition builtin_popcount :: "u32 \<Rightarrow> nat" where
  "builtin_popcount a = length (filter (bit a) [0..<32])"

definition lfs_npw2 :: "u32 \<Rightarrow> u32" where
  "lfs_npw2 a = 32 - of_nat (builtin_clz (a - 1))"

definition lfs_npw2_portable :: "u32 \<Rightarrow> u32" where
  "lfs_npw2_portable a0 =
     (let r0 = 0; a1 = a0 - 1;
          s1 = push_bit 4 (of_bool (a1 > 0xffff)); a2 = drop_bit (unat s1) a1; r1 = r0 OR s1;
          s2 = push_bit 3 (of_bool (a2 > 0xff)); a3 = drop_bit (unat s2) a2; r2 = r1 OR s2;
          s3 = push_bit 2 (of_bool (a3 > 0xf)); a4 = drop_bit (unat s3) a3; r3 = r2 OR s3;
          s4 = push_bit 1 (of_bool (a4 > 0x3)); a5 = drop_bit (unat s4) a4; r4 = r3 OR s4
      in (r4 OR drop_bit 1 a5) + 1)"

definition lfs_ctz :: "u32 \<Rightarrow> u32" where
  "lfs_ctz a = of_nat (builtin_ctz a)"

definition lfs_ctz_portable :: "u32 \<Rightarrow> u32" where
  "lfs_ctz_portable a = lfs_npw2_portable ((a AND - a) + 1) - 1"

definition lfs_popc :: "u32 \<Rightarrow> u32" where
  "lfs_popc a = of_nat (builtin_popcount a)"

text \<open>The distance between two sequence numbers, read as a signed 32-bit value.\<close>

definition lfs_scmp :: "u32 \<Rightarrow> u32 \<Rightarrow> int" where
  "lfs_scmp a b = sint (a - b)"

text \<open>The number of bits of a natural number, the reference for the functions above.\<close>

fun bitlen :: "nat \<Rightarrow> nat" where
  "bitlen n = (if n = 0 then 0 else Suc (bitlen (n div 2)))"

declare bitlen.simps [simp del]

lemma bitlen_0 [simp]: "bitlen 0 = 0"
  by (simp add: bitlen.simps)

lemma bitlen_pos: "0 < n \<Longrightarrow> bitlen n = Suc (bitlen (n div 2))"
  by (subst bitlen.simps) simp

lemma bitlen_upper: "n < 2 ^ bitlen n"
proof (induction n rule: bitlen.induct)
  case (1 n)
  show ?case
  proof (cases "n = 0")
    case False
    with 1 have "n div 2 < 2 ^ bitlen (n div 2)" by simp
    with False show ?thesis by (simp add: bitlen_pos)
  qed simp
qed

lemma bitlen_lower: "0 < n \<Longrightarrow> 2 ^ (bitlen n - 1) \<le> n"
proof (induction n rule: bitlen.induct)
  case (1 n)
  show ?case
  proof (cases "n div 2 = 0")
    case True
    with 1 show ?thesis by (simp add: bitlen_pos)
  next
    case False
    with 1 have "2 ^ (bitlen (n div 2) - 1) \<le> n div 2" by simp
    moreover have "bitlen (n div 2) = Suc (bitlen (n div 2) - 1)"
      using False by (simp add: bitlen_pos)
    ultimately have "2 ^ bitlen (n div 2) \<le> 2 * (n div 2)"
      by (metis mult_le_mono2 power_Suc)
    then have "2 ^ bitlen (n div 2) \<le> n" by linarith
    with 1 show ?thesis by (simp add: bitlen_pos)
  qed
qed

lemma bitlen_eqI:
  assumes "2 ^ k \<le> n" and "n < 2 ^ Suc k"
  shows "bitlen n = Suc k"
proof -
  have pos: "0 < n" using assms(1) by (rule order.strict_trans2 [rotated]) simp
  have "2 ^ (bitlen n - 1) < (2 :: nat) ^ Suc k"
    using bitlen_lower [OF pos] assms(2) by linarith
  then have "bitlen n - 1 < Suc k" using power_less_imp_less_exp one_less_numeral_iff semiring_norm(76) by blast
  moreover have "2 ^ k < (2 :: nat) ^ bitlen n"
    using bitlen_upper [of n] assms(1) by linarith
  then have "k < bitlen n" using power_less_imp_less_exp one_less_numeral_iff semiring_norm(76) by blast
  ultimately show ?thesis by linarith
qed

lemma bitlen_div: "2 ^ k \<le> n \<Longrightarrow> bitlen n = bitlen (n div 2 ^ k) + k"
proof (induction k arbitrary: n)
  case 0
  then show ?case by simp
next
  case (Suc k)
  then have "0 < n" by (metis gr0I le_zero_eq power_eq_0_iff zero_neq_numeral)
  moreover have "2 ^ k \<le> n div 2" using Suc.prems by simp
  ultimately show ?case using Suc.IH [of "n div 2"]
    by (simp add: bitlen_pos [of n] div_mult2_eq [symmetric])
qed

lemma bitlen_less: "n < 2 ^ k \<Longrightarrow> bitlen n \<le> k"
proof (rule ccontr)
  assume "n < 2 ^ k" "\<not> bitlen n \<le> k"
  then have "0 < n" by (cases n) auto
  then have "2 ^ (bitlen n - 1) \<le> n" by (rule bitlen_lower)
  moreover have "2 ^ k \<le> (2 :: nat) ^ (bitlen n - 1)"
    using \<open>\<not> bitlen n \<le> k\<close> by (intro power_increasing) auto
  ultimately show False using \<open>n < 2 ^ k\<close> by linarith
qed

text \<open>Trailing zeros and the number of one bits of a natural number.\<close>

fun tz :: "nat \<Rightarrow> nat" where
  "tz n = (if n = 0 \<or> odd n then 0 else Suc (tz (n div 2)))"

fun pc :: "nat \<Rightarrow> nat" where
  "pc n = (if n = 0 then 0 else n mod 2 + pc (n div 2))"

declare tz.simps [simp del] pc.simps [simp del]

lemma tz_odd [simp]: "odd n \<Longrightarrow> tz n = 0"
  by (simp add: tz.simps)

lemma tz_even: "even n \<Longrightarrow> 0 < n \<Longrightarrow> tz n = Suc (tz (n div 2))"
  by (subst tz.simps) simp

lemma pc_0 [simp]: "pc 0 = 0"
  by (simp add: pc.simps)

lemma pc_odd: "odd n \<Longrightarrow> pc n = Suc (pc (n div 2))"
  by (subst pc.simps) (auto simp: odd_iff_mod_2_eq_one)

lemma pc_even: "even n \<Longrightarrow> pc n = pc (n div 2)"
  by (cases "n = 0") (auto simp: pc.simps [of n] even_iff_mod_2_eq_zero)

lemma pc_Suc: "pc (Suc n) + tz (Suc n) = Suc (pc n)"
proof (induction n rule: less_induct)
  case (less n)
  show ?case
  proof (cases "even n")
    case True
    then show ?thesis by (simp add: pc_odd pc_even)
  next
    case False
    then have "Suc n div 2 = Suc (n div 2)" by presburger
    moreover have "n div 2 < n" using False by presburger
    ultimately show ?thesis
      using False less [of "n div 2"] by (simp add: pc_odd [of n] pc_even [of "Suc n"] tz_even)
  qed
qed

lemma tz_dvd: "2 ^ tz n dvd n"
proof (induction n rule: tz.induct)
  case (1 n)
  show ?case
  proof (cases "n = 0 \<or> odd n")
    case False
    with 1 have "2 ^ tz (n div 2) dvd n div 2" by simp
    then have "2 * 2 ^ tz (n div 2) dvd 2 * (n div 2)" by (rule mult_dvd_mono [OF dvd_refl])
    with False show ?thesis by (simp add: tz_even)
  qed (auto simp: tz.simps)
qed

lemma tz_le: "0 < n \<Longrightarrow> 2 ^ tz n \<le> n"
  by (rule dvd_imp_le [OF tz_dvd])

lemma tz_pow2: "tz (2 ^ k) = k"
  by (induction k) (simp_all add: tz_even)

lemma dvd_tz: "2 ^ k dvd n \<Longrightarrow> 0 < n \<Longrightarrow> k \<le> tz n"
proof (induction k arbitrary: n)
  case (Suc k)
  then obtain m where m: "n = 2 * m" "2 ^ k dvd m" by (auto simp: mult.assoc dvd_def)
  with Suc.IH [of m] Suc.prems show ?case by (simp add: tz_even)
qed simp

lemma pc_le_bitlen: "pc n \<le> bitlen n"
proof (induction n rule: pc.induct)
  case (1 n)
  then show ?case
    by (cases "n = 0") (auto simp: pc.simps [of n] bitlen_pos [of n] intro: order.trans [of _ "1 + pc (n div 2)"])
qed

lemma bit_unat_u32: "bit (unat (a :: u32)) i = bit a i"
  by (simp add: bit_unsigned_iff possible_bit_def)

lemma takeWhile_bits_up:
  fixes n :: nat
  shows "0 < n \<Longrightarrow> n < 2 ^ k \<Longrightarrow> length (takeWhile (\<lambda>i. \<not> bit n i) [0..<k]) = tz n"
proof (induction k arbitrary: n)
  case (Suc k)
  have upt: "[0..<Suc k] = 0 # map Suc [0..<k]" by (simp add: upt_conv_Cons map_Suc_upt)
  show ?case
  proof (cases "odd n")
    case False
    with Suc.prems have "0 < n div 2" by presburger
    moreover have "n div 2 < 2 ^ k" using Suc.prems by simp
    ultimately have "length (takeWhile (\<lambda>i. \<not> bit (n div 2) i) [0..<k]) = tz (n div 2)" by (rule Suc.IH)
    with False Suc.prems show ?thesis
      unfolding upt by (simp add: takeWhile_map bit_0 bit_Suc o_def tz_even)
  qed (simp add: upt_conv_Cons bit_0 del: upt_Suc)
qed simp

lemma filter_bits_up:
  fixes n :: nat
  shows "n < 2 ^ k \<Longrightarrow> length (filter (bit n) [0..<k]) = pc n"
proof (induction k arbitrary: n)
  case (Suc k)
  have upt: "[0..<Suc k] = 0 # map Suc [0..<k]" by (simp add: upt_conv_Cons map_Suc_upt)
  have "length (filter (bit (n div 2)) [0..<k]) = pc (n div 2)"
    using Suc.prems by (intro Suc.IH) simp
  moreover have "bit n \<circ> Suc = bit (n div 2)" by (rule ext) (simp add: bit_Suc)
  ultimately show ?case
    unfolding upt by (cases "odd n") (simp_all add: filter_map bit_0 pc_odd pc_even)
qed simp

lemma takeWhile_bits_down:
  fixes n :: nat
  shows "length (takeWhile (\<lambda>i. \<not> bit n i) (rev [0..<k])) = k - bitlen (take_bit k n)"
proof (induction k)
  case (Suc k)
  show ?case
  proof (cases "bit n k")
    case True
    then have "take_bit (Suc k) n = 2 ^ k + take_bit k n" by (simp add: take_bit_Suc_from_most)
    then have "bitlen (take_bit (Suc k) n) = Suc k"
      using take_bit_nat_less_exp [of k n] by (intro bitlen_eqI) auto
    with True show ?thesis by simp
  next
    case False
    then have "take_bit (Suc k) n = take_bit k n" by (simp add: take_bit_Suc_from_most)
    moreover have "bitlen (take_bit k n) \<le> k" by (rule bitlen_less) simp
    ultimately show ?thesis using False Suc by simp
  qed
qed simp

lemma builtin_clz_eq: "builtin_clz a = 32 - bitlen (unat a)"
proof -
  have "take_bit 32 (unat a) = unat a" by (simp add: take_bit_nat_eq_self)
  with takeWhile_bits_down [of "unat a" 32] show ?thesis
    by (simp add: builtin_clz_def bit_unat_u32)
qed

lemma builtin_ctz_eq: "a \<noteq> 0 \<Longrightarrow> builtin_ctz a = tz (unat a)"
  using takeWhile_bits_up [of "unat a" 32]
  by (simp add: builtin_ctz_def bit_unat_u32 unat_gt_0)

lemma builtin_popcount_eq: "builtin_popcount a = pc (unat a)"
proof -
  have "bit a = bit (unat a)" by (rule ext) (simp add: bit_unat_u32)
  then show ?thesis
    using filter_bits_up [of "unat a" 32] by (simp add: builtin_popcount_def)
qed

lemma bitlen_u32: "bitlen (unat (a :: u32)) \<le> 32"
  by (rule bitlen_less) simp

lemma unat_lfs_npw2: "unat (lfs_npw2 a) = bitlen (unat (a - 1))"
proof -
  let ?k = "bitlen (unat (a - 1))"
  have k: "?k \<le> 32" by (rule bitlen_u32)
  have "unat (of_nat ?k :: u32) = ?k" using k by (intro unat_of_nat_u32) simp
  then show ?thesis
    using k by (simp add: lfs_npw2_def builtin_clz_eq)
qed

lemma unat_lfs_ctz: "a \<noteq> 0 \<Longrightarrow> unat (lfs_ctz a) = tz (unat a)"
proof -
  assume a: "a \<noteq> 0"
  have "2 ^ tz (unat a) \<le> unat a" using a by (intro tz_le) (simp add: unat_gt_0)
  also have "\<dots> < 2 ^ 32" by simp
  finally have "tz (unat a) < 32" using power_less_imp_less_exp [of 2 "tz (unat a)" 32] by simp
  then show ?thesis using a by (simp add: lfs_ctz_def builtin_ctz_eq unat_of_nat_u32)
qed

lemma unat_lfs_popc: "unat (lfs_popc a) = pc (unat a)"
proof -
  have "pc (unat a) \<le> 32" using pc_le_bitlen [of "unat a"] bitlen_u32 [of a] by linarith
  then show ?thesis by (simp add: lfs_popc_def builtin_popcount_eq unat_of_nat_u32)
qed

section \<open>The portable branches agree with the builtins\<close>

lemma bitlen_small:
  assumes "0 < n" and "n < 4"
  shows "bitlen n = n div 2 + 1"
proof (cases "n = 1")
  case True
  then show ?thesis by (simp add: bitlen_pos)
next
  case False
  with assms have "bitlen n = Suc 1" by (intro bitlen_eqI) simp_all
  moreover have "n div 2 = 1" using assms False by linarith
  ultimately show ?thesis by simp
qed

lemma bitlen_halve:
  fixes x :: u32
  assumes "0 < unat x" and "y = (if m < x then drop_bit k x else x)" and "unat m = 2 ^ k - 1"
  shows "bitlen (unat x) = bitlen (unat y) + (if m < x then k else 0)"
    and "0 < unat y" and "unat x < 2 ^ (k + k) \<Longrightarrow> unat y < 2 ^ k"
proof -
  have pos: "0 < (2 :: nat) ^ k" by simp
  have m: "m < x \<longleftrightarrow> 2 ^ k \<le> unat x"
    unfolding u32_less assms(3) using pos by linarith
  have y: "unat y = (if 2 ^ k \<le> unat x then unat x div 2 ^ k else unat x)"
    using assms(2) m by (simp add: unat_drop_bit_eq drop_bit_eq_div [of k "unat x"])
  show "bitlen (unat x) = bitlen (unat y) + (if m < x then k else 0)"
    using y m by (simp add: bitlen_div)
  show "0 < unat y"
    using y assms(1) by (simp add: div_greater_zero_iff)
  show "unat y < 2 ^ k" if "unat x < 2 ^ (k + k)"
    using y that by (simp add: less_mult_imp_div_less power_add)
qed

lemma npw2_shift:
  "push_bit 4 (of_bool c) = (if c then 16 else 0 :: u32)"
  "push_bit 3 (of_bool c) = (if c then 8 else 0 :: u32)"
  "push_bit 2 (of_bool c) = (if c then 4 else 0 :: u32)"
  "push_bit 1 (of_bool c) = (if c then 2 else 0 :: u32)"
  "drop_bit (unat (if c then 16 else 0 :: u32)) (x :: u32) = (if c then drop_bit 16 x else x)"
  "drop_bit (unat (if c then 8 else 0 :: u32)) (x :: u32) = (if c then drop_bit 8 x else x)"
  "drop_bit (unat (if c then 4 else 0 :: u32)) (x :: u32) = (if c then drop_bit 4 x else x)"
  "drop_bit (unat (if c then 2 else 0 :: u32)) (x :: u32) = (if c then drop_bit 2 x else x)"
  by (cases c; simp)+

lemma lfs_npw2_portable_eq:
  assumes "a \<noteq> 1"
  shows "lfs_npw2_portable a = lfs_npw2 a"
proof -
  define x1 where "x1 = a - 1"
  define x2 where "x2 = (if 0xffff < x1 then drop_bit 16 x1 else x1)"
  define x3 where "x3 = (if 0xff < x2 then drop_bit 8 x2 else x2)"
  define x4 where "x4 = (if 0xf < x3 then drop_bit 4 x3 else x3)"
  define x5 where "x5 = (if 0x3 < x4 then drop_bit 2 x4 else x4)"
  have "x1 \<noteq> 0" using assms by (auto simp: x1_def)
  then have p1: "0 < unat x1" by (simp add: unat_gt_0)
  note s1 = bitlen_halve [OF p1 x2_def, simplified]
  note s2 = bitlen_halve [OF s1(2) x3_def, simplified]
  note s3 = bitlen_halve [OF s2(2) x4_def, simplified]
  note s4 = bitlen_halve [OF s3(2) x5_def, simplified]
  have "unat x5 < 4" using s1(3) s2(3) s3(3) s4(3) by simp
  with s4(2) have "bitlen (unat x5) = unat x5 div 2 + 1" by (rule bitlen_small)
  with s1(1) s2(1) s3(1) s4(1)
  have len: "bitlen (unat x1) = unat x5 div 2 + 1 + (if 3 < x4 then 2 else 0) + (if 15 < x3 then 4 else 0)
       + (if 255 < x2 then 8 else 0) + (if 65535 < x1 then 16 else 0)" by simp
  have "unat x5 \<in> {1, 2, 3}" using s4(2) \<open>unat x5 < 4\<close> by auto
  then have x5: "x5 = 1 \<or> x5 = 2 \<or> x5 = 3" by (auto simp: u32_eq)
  have "lfs_npw2_portable a =
      (((((if 65535 < x1 then 16 else 0) OR (if 255 < x2 then 8 else 0)) OR (if 15 < x3 then 4 else 0))
        OR (if 3 < x4 then 2 else 0)) OR drop_bit 1 x5) + 1"
    by (simp only: lfs_npw2_portable_def Let_def npw2_shift or.left_neutral x1_def [symmetric]
        x2_def [symmetric] x3_def [symmetric] x4_def [symmetric] x5_def [symmetric])
  then have "unat (lfs_npw2_portable a) = bitlen (unat x1)"
    unfolding len using x5
    by (cases "65535 < x1"; cases "255 < x2"; cases "15 < x3"; cases "3 < x4") auto
  then show ?thesis
    by (simp add: u32_eq unat_lfs_npw2 x1_def)
qed

lemma u32_pow2: "k < 32 \<Longrightarrow> unat (2 ^ k :: u32) = 2 ^ k"
proof -
  assume "k < 32"
  then have "(2 :: nat) ^ k < 2 ^ 32" by (rule power_strict_increasing) simp
  then have "unat (of_nat (2 ^ k) :: u32) = 2 ^ k" by (intro unat_of_nat_u32) simp
  then show ?thesis by simp
qed

lemma tz_less_32: "(a :: u32) \<noteq> 0 \<Longrightarrow> tz (unat a) < 32"
proof -
  assume a: "a \<noteq> 0"
  have "2 ^ tz (unat a) \<le> unat a" using a by (intro tz_le) (simp add: unat_gt_0)
  also have "\<dots> < 2 ^ 32" by simp
  finally show ?thesis using power_less_imp_less_exp [of 2 "tz (unat a)" 32] by simp
qed

lemma and_minus_lowest_bit:
  assumes "(a :: u32) \<noteq> 0"
  shows "a AND - a = 2 ^ tz (unat a)"
proof -
  let ?k = "tz (unat a)"
  define q where "q = unat a div 2 ^ ?k"
  have nq: "unat a = q * 2 ^ ?k" unfolding q_def using tz_dvd [of "unat a"] by simp
  have "odd q"
  proof
    assume "even q"
    then obtain r where "q = 2 * r" by (rule evenE)
    have "unat a = q * 2 ^ ?k" by (rule nq)
    also have "\<dots> = 2 ^ Suc ?k * r" using \<open>q = 2 * r\<close> by simp
    finally have "unat a = 2 ^ Suc ?k * r" .
    then have "2 ^ Suc ?k dvd unat a" by (rule dvdI)
    then have "Suc ?k \<le> ?k" using assms by (intro dvd_tz) (simp_all add: unat_gt_0)
    then show False by simp
  qed
  define y :: u32 where "y = of_nat q - 1"
  have ev: "even y" using \<open>odd q\<close> by (auto simp: y_def elim!: oddE)
  have a: "a = push_bit ?k (y + 1)"
    by (metis (no_types, lifting) nq y_def diff_add_cancel of_nat_mult of_nat_numeral of_nat_power
        push_bit_eq_mult u32_of_nat_unat)
  then have "- a = - (push_bit ?k (y + 1))" by (rule arg_cong)
  also have "\<dots> = push_bit ?k (NOT y)"
    by (simp add: push_bit_eq_mult not_eq_complement algebra_simps)
  finally have "- a = push_bit ?k (NOT y)" .
  then have "a AND - a = push_bit ?k (y + 1) AND push_bit ?k (NOT y)"
    using a by metis
  then have "a AND - a = push_bit ?k ((y + 1) AND NOT y)"
    by (simp only: push_bit_and)
  moreover have "y + 1 = y OR 1" using ev by (simp add: or_one_eq)
  then have "(y + 1) AND NOT y = 1"
    using ev by (auto intro!: bit_eqI simp: bit_simps bit_0 even_and_iff even_or_iff even_not_iff)
  ultimately show ?thesis by (simp add: push_bit_eq_mult)
qed

lemma lfs_ctz_portable_eq:
  assumes "a \<noteq> 0"
  shows "lfs_ctz_portable a = lfs_ctz a"
proof -
  let ?k = "tz (unat a)"
  have k: "?k < 32" using assms by (rule tz_less_32)
  have "(2 :: u32) ^ ?k \<noteq> 0" using u32_pow2 [OF k] by (metis power_not_zero unat_0 zero_neq_numeral)
  then have "lfs_npw2_portable (2 ^ ?k + 1) = lfs_npw2 (2 ^ ?k + 1)"
    by (intro lfs_npw2_portable_eq) simp
  moreover have "bitlen (2 ^ ?k) = Suc ?k" by (rule bitlen_eqI) simp_all
  ultimately have "unat (lfs_npw2_portable (2 ^ ?k + 1)) = Suc ?k"
    using u32_pow2 [OF k] by (simp add: unat_lfs_npw2)
  then show ?thesis
    using assms by (simp add: lfs_ctz_portable_def and_minus_lowest_bit u32_eq unat_sub_u32 unat_lfs_ctz)
qed

end
