(* ===== verification/LFS_Crc.thy ===== *)
theory LFS_Crc
  imports LFS_Util
begin

text \<open>
  Byte order and checksums: the memory image of a 32-bit word on the little-endian host the
  library is built for (WebAssembly), the conversions between native, little-endian and
  big-endian words of \<^verbatim>\<open>src/src/lfs/lfs_util.h\<close>, and \<^verbatim>\<open>lfs_crc\<close> of
  \<^verbatim>\<open>src/src/lfs/lfs_util.c\<close> with its nibble table.  The reference for the table is the bitwise
  CRC-32; the lemmas say that they agree, that a checksum appended in little-endian order brings
  the running checksum to zero (which \<^verbatim>\<open>lfs_dir_commitcrc\<close> relies on), and that a burst of at
  most four damaged bytes is always detected.
\<close>

section \<open>Byte order\<close>

definition u32_bytes :: "u32 \<Rightarrow> u8 list" where
  "u32_bytes a = [ucast a, ucast (drop_bit 8 a), ucast (drop_bit 16 a), ucast (drop_bit 24 a)]"

fun u32_of_bytes :: "u8 list \<Rightarrow> u32" where
  "u32_of_bytes [] = 0"
| "u32_of_bytes (b # bs) = ucast b OR push_bit 8 (u32_of_bytes bs)"

definition builtin_bswap32 :: "u32 \<Rightarrow> u32" where
  "builtin_bswap32 a = u32_of_bytes (rev (u32_bytes a))"

definition lfs_fromle32 :: "u32 \<Rightarrow> u32" where
  "lfs_fromle32 a = a"

definition lfs_fromle32_portable :: "u32 \<Rightarrow> u32" where
  "lfs_fromle32_portable a =
     (let b = u32_bytes a
      in push_bit 0 (ucast (b ! 0)) OR push_bit 8 (ucast (b ! 1)) OR
         push_bit 16 (ucast (b ! 2)) OR push_bit 24 (ucast (b ! 3)))"

definition lfs_tole32 :: "u32 \<Rightarrow> u32" where
  "lfs_tole32 a = lfs_fromle32 a"

definition lfs_frombe32 :: "u32 \<Rightarrow> u32" where
  "lfs_frombe32 a = builtin_bswap32 a"

definition lfs_frombe32_portable :: "u32 \<Rightarrow> u32" where
  "lfs_frombe32_portable a =
     (let b = u32_bytes a
      in push_bit 24 (ucast (b ! 0)) OR push_bit 16 (ucast (b ! 1)) OR
         push_bit 8 (ucast (b ! 2)) OR push_bit 0 (ucast (b ! 3)))"

definition lfs_tobe32 :: "u32 \<Rightarrow> u32" where
  "lfs_tobe32 a = lfs_frombe32 a"

lemma bit_u8_out [simp]: "8 \<le> n \<Longrightarrow> \<not> bit (b :: u8) n"
  using bit_imp_le_length [of b n] by auto

lemma bit_u32_out [simp]: "32 \<le> n \<Longrightarrow> \<not> bit (a :: u32) n"
  using bit_imp_le_length [of a n] by auto

lemma bit_u32_lt: "bit (a :: u32) n \<Longrightarrow> n < 32"
  using bit_imp_le_length [of a n] by auto

lemma u32_eqI_bytes:
  assumes "\<And>n. n < 8 \<Longrightarrow> bit (a :: u32) n = bit b n"
    and "\<And>n. 8 \<le> n \<Longrightarrow> n < 16 \<Longrightarrow> bit a n = bit b n"
    and "\<And>n. 16 \<le> n \<Longrightarrow> n < 24 \<Longrightarrow> bit a n = bit b n"
    and "\<And>n. 24 \<le> n \<Longrightarrow> n < 32 \<Longrightarrow> bit a n = bit b n"
  shows "a = b"
proof (rule bit_word_eqI)
  fix n assume "n < LENGTH(32)"
  then have "n < 8 \<or> (8 \<le> n \<and> n < 16) \<or> (16 \<le> n \<and> n < 24) \<or> (24 \<le> n \<and> n < 32)" by auto
  then show "bit a n = bit b n" using assms by blast
qed

lemma length_u32_bytes [simp]: "length (u32_bytes a) = 4"
  by (simp add: u32_bytes_def)

lemma u32_of_bytes_bytes [simp]: "u32_of_bytes (u32_bytes a) = a"
  by (rule u32_eqI_bytes) (auto simp: u32_bytes_def bit_simps)

lemma list4_cases:
  assumes "length xs = 4"
  obtains a b c d where "xs = [a, b, c, d]"
  using assms by (auto simp: numeral_eq_Suc length_Suc_conv)

lemma u32_bytes_of_bytes [simp]:
  assumes "length bs = 4"
  shows "u32_bytes (u32_of_bytes bs) = bs"
proof -
  obtain a b c d where bs: "bs = [a, b, c, d]" using assms by (rule list4_cases)
  have "ucast (u32_of_bytes bs) = a" "ucast (drop_bit 8 (u32_of_bytes bs)) = b"
    "ucast (drop_bit 16 (u32_of_bytes bs)) = c" "ucast (drop_bit 24 (u32_of_bytes bs)) = d"
    unfolding bs by (rule bit_word_eqI; force simp: bit_simps)+
  then show ?thesis by (simp add: u32_bytes_def bs)
qed

lemma u32_bytes_frombe32 [simp]: "u32_bytes (lfs_frombe32 a) = rev (u32_bytes a)"
  by (simp add: lfs_frombe32_def builtin_bswap32_def)

lemma lfs_frombe32_frombe32 [simp]: "lfs_frombe32 (lfs_frombe32 a) = a"
proof -
  have "u32_bytes (lfs_frombe32 (lfs_frombe32 a)) = u32_bytes a" by simp
  then show ?thesis by (metis u32_of_bytes_bytes)
qed

lemma lfs_frombe32_tobe32 [simp]: "lfs_frombe32 (lfs_tobe32 a) = a"
  by (simp add: lfs_tobe32_def)

lemma lfs_fromle32_tole32 [simp]: "lfs_fromle32 (lfs_tole32 a) = a"
  by (simp add: lfs_tole32_def lfs_fromle32_def)

lemma lfs_fromle32_portable_eq: "lfs_fromle32_portable a = lfs_fromle32 a"
  by (rule u32_eqI_bytes)
    (auto simp: lfs_fromle32_portable_def lfs_fromle32_def Let_def u32_bytes_def bit_simps)

lemma lfs_frombe32_portable_eq: "lfs_frombe32_portable a = lfs_frombe32 a"
  by (rule u32_eqI_bytes)
    (auto simp: lfs_frombe32_portable_def lfs_frombe32_def builtin_bswap32_def Let_def u32_bytes_def
      bit_simps)

section \<open>The checksum\<close>

definition rtable :: "u32 list" where
  "rtable = [0x00000000, 0x1db71064, 0x3b6e20c8, 0x26d930ac,
             0x76dc4190, 0x6b6b51f4, 0x4db26158, 0x5005713c,
             0xedb88320, 0xf00f9344, 0xd6d6a3e8, 0xcb61b38c,
             0x9b64c2b0, 0x86d3d2d4, 0xa00ae278, 0xbdbdf21c]"

text \<open>One line of the loop body; the byte is promoted to 32 bits before it is shifted.\<close>

definition crc_nibble :: "u32 \<Rightarrow> u32 \<Rightarrow> u32" where
  "crc_nibble crc d = drop_bit 4 crc XOR rtable ! unat ((crc XOR d) AND 0xf)"

definition crc_byte :: "u32 \<Rightarrow> u8 \<Rightarrow> u32" where
  "crc_byte crc b =
     (let crc1 = crc_nibble crc (drop_bit 0 (ucast b))
      in crc_nibble crc1 (drop_bit 4 (ucast b)))"

fun lfs_crc :: "u32 \<Rightarrow> u8 list \<Rightarrow> u32" where
  "lfs_crc crc [] = crc"
| "lfs_crc crc (b # bs) = lfs_crc (crc_byte crc b) bs"

text \<open>The reference: one bit of the reflected polynomial at a time.\<close>

definition crc_bit :: "u32 \<Rightarrow> u32" where
  "crc_bit c = (if bit c 0 then drop_bit 1 c XOR 0xedb88320 else drop_bit 1 c)"

fun crc_bits :: "nat \<Rightarrow> u32 \<Rightarrow> u32" where
  "crc_bits 0 c = c"
| "crc_bits (Suc n) c = crc_bits n (crc_bit c)"

definition crc_reference :: "u32 \<Rightarrow> u8 list \<Rightarrow> u32" where
  "crc_reference crc bs = foldl (\<lambda>c b. crc_bits 8 (c XOR ucast b)) crc bs"

lemma crc_bit_xor: "crc_bit (a XOR b) = crc_bit a XOR crc_bit b"
  by (auto simp: crc_bit_def bit_simps xor.assoc xor.left_commute xor.commute)

lemma crc_bits_xor: "crc_bits n (a XOR b) = crc_bits n a XOR crc_bits n b"
  by (induction n arbitrary: a b) (simp_all add: crc_bit_xor)

lemma crc_bits_add: "crc_bits (m + n) c = crc_bits n (crc_bits m c)"
  by (induction m arbitrary: c) simp_all

lemma crc_bits_shift: "take_bit n c = 0 \<Longrightarrow> crc_bits n c = drop_bit n c"
proof (induction n arbitrary: c)
  case (Suc n)
  have "bit (take_bit (Suc n) c) i = False" for i using Suc.prems by simp
  then have low: "\<not> bit c i" if "i < Suc n" for i using that by (auto simp: bit_take_bit_iff)
  then have "crc_bit c = drop_bit 1 c" by (simp add: crc_bit_def)
  moreover have "take_bit n (drop_bit 1 c) = 0"
    using low by (intro bit_word_eqI) (auto simp: bit_simps)
  ultimately show ?case using Suc.IH [of "drop_bit 1 c"] by (simp add: drop_bit_drop_bit)
qed simp

lemma and_15: "(x :: u32) AND 0xf = take_bit 4 x"
  by (simp add: take_bit_eq_mask mask_numeral)

lemma rtable_eq: "i < 16 \<Longrightarrow> rtable ! i = crc_bits 4 (of_nat i)"
proof -
  assume "i < 16"
  have "list_all (\<lambda>i. rtable ! i = crc_bits 4 (of_nat i)) [0..<16]" by code_simp
  with \<open>i < 16\<close> show ?thesis by (simp add: list_all_iff)
qed

lemma crc_nibble_eq: "crc_nibble c d = crc_bits 4 (c XOR take_bit 4 d)"
proof -
  let ?lo = "take_bit 4 (c XOR d)" and ?hi = "c AND NOT (mask 4)"
  have "unat ?lo < 16"
    using take_bit_nat_less_exp [of 4 "unat (c XOR d)"]
    by (simp only: unsigned_take_bit_eq) simp
  then have lo: "rtable ! unat ?lo = crc_bits 4 ?lo"
    by (simp add: rtable_eq)
  have split: "c XOR take_bit 4 d = ?lo XOR ?hi"
    by (rule bit_word_eqI) (auto simp: bit_simps)
  have "take_bit 4 ?hi = 0" by (rule bit_word_eqI) (auto simp: bit_simps)
  then have "crc_bits 4 ?hi = drop_bit 4 ?hi" by (rule crc_bits_shift)
  also have "drop_bit 4 ?hi = drop_bit 4 c"
    by (rule bit_word_eqI) (auto simp: bit_simps dest: bit_u32_lt)
  finally have hi: "crc_bits 4 ?hi = drop_bit 4 c" .
  have "crc_nibble c d = drop_bit 4 c XOR crc_bits 4 ?lo"
    by (simp only: crc_nibble_def and_15 lo)
  also have "\<dots> = crc_bits 4 (?lo XOR ?hi)"
    by (simp only: crc_bits_xor hi xor.commute)
  finally show ?thesis by (simp only: split)
qed

lemma crc_byte_eq: "crc_byte c b = crc_bits 8 (c XOR ucast b)"
proof -
  let ?b = "ucast b :: u32" and ?hi = "push_bit 4 (take_bit 4 (drop_bit 4 (ucast b :: u32)))"
  have split: "?b = take_bit 4 ?b XOR ?hi"
    by (rule bit_word_eqI) (auto simp: bit_simps)
  have "take_bit 4 ?hi = 0" by (rule bit_word_eqI) (auto simp: bit_simps)
  then have "crc_bits 4 ?hi = drop_bit 4 ?hi" by (rule crc_bits_shift)
  also have "drop_bit 4 ?hi = take_bit 4 (drop_bit 4 ?b)"
    by (rule bit_word_eqI) (auto simp: bit_simps)
  finally have hi: "crc_bits 4 ?hi = take_bit 4 (drop_bit 4 ?b)" .
  have "crc_bits 8 (c XOR ?b) = crc_bits 4 (crc_bits 4 (c XOR ?b))"
    using crc_bits_add [of 4 4] by simp
  also have "crc_bits 4 (c XOR ?b) = crc_bits 4 (c XOR take_bit 4 ?b) XOR crc_bits 4 ?hi"
    by (subst split) (simp only: crc_bits_xor xor.assoc)
  finally show ?thesis
    by (simp add: crc_byte_def Let_def crc_nibble_eq hi)
qed

lemma lfs_crc_foldl: "lfs_crc c bs = foldl crc_byte c bs"
  by (induction bs arbitrary: c) simp_all

lemma lfs_crc_reference: "lfs_crc c bs = crc_reference c bs"
  by (simp add: lfs_crc_foldl crc_reference_def crc_byte_eq [abs_def])

lemma lfs_crc_append: "lfs_crc c (xs @ ys) = lfs_crc (lfs_crc c xs) ys"
  by (simp add: lfs_crc_foldl)

lemma crc_bits_0 [simp]: "crc_bits n 0 = 0"
  by (induction n) (simp_all add: crc_bit_def)

text \<open>The checksum of its own little-endian image is zero.\<close>

lemma crc_byte_own: "crc_byte c (ucast c) = drop_bit 8 c"
proof -
  have "take_bit 8 (c XOR ucast (ucast c :: u8)) = 0" by (rule bit_word_eqI) (auto simp: bit_simps)
  then have "crc_byte c (ucast c) = drop_bit 8 (c XOR ucast (ucast c :: u8))"
    unfolding crc_byte_eq by (rule crc_bits_shift)
  also have "\<dots> = drop_bit 8 c" by (rule bit_word_eqI) (auto simp: bit_simps)
  finally show ?thesis .
qed

lemma lfs_crc_own: "lfs_crc c (u32_bytes c) = 0"
proof -
  have "lfs_crc c (u32_bytes c) = drop_bit 32 c"
    unfolding u32_bytes_def
    using crc_byte_own [of c] crc_byte_own [of "drop_bit 8 c"] crc_byte_own [of "drop_bit 16 c"]
      crc_byte_own [of "drop_bit 24 c"]
    by (simp add: drop_bit_drop_bit)
  also have "\<dots> = 0" by (rule bit_word_eqI) (auto simp: bit_simps)
  finally show ?thesis .
qed

text \<open>Each bit step is invertible, so distinct states stay distinct.\<close>

lemma xor_right_cancel_u32: "(a :: u32) XOR c = b XOR c \<Longrightarrow> a = b"
proof -
  assume "a XOR c = b XOR c"
  then have "(a XOR c) XOR c = (b XOR c) XOR c" by simp
  then show ?thesis by (simp only: xor.assoc xor_self_eq xor.right_neutral)
qed

lemma xor_left_cancel_u32: "(c :: u32) XOR a = c XOR b \<Longrightarrow> a = b"
  by (rule xor_right_cancel_u32 [of _ c]) (simp only: xor.commute)

lemma crc_bit_inj: "crc_bit a = crc_bit b \<Longrightarrow> a = b"
proof -
  assume eq: "crc_bit a = crc_bit b"
  define x where "x = a XOR b"
  have x0: "crc_bit x = 0" unfolding x_def crc_bit_xor using eq by simp
  have "\<not> bit x 0"
  proof
    assume "bit x 0"
    then have "crc_bit x = drop_bit 1 x XOR 0xedb88320" by (simp add: crc_bit_def)
    then have "bit (crc_bit x) 31 = (bit x 32 \<noteq> bit (0xedb88320 :: u32) 31)"
      by (simp add: bit_simps)
    then show False using x0 by simp
  qed
  then have "drop_bit 1 x = 0" using x0 by (simp add: crc_bit_def)
  have "x = 0"
  proof (rule bit_word_eqI)
    fix n assume "n < LENGTH(32)"
    show "bit x n = bit 0 n"
    proof (cases n)
      case 0
      with \<open>\<not> bit x 0\<close> show ?thesis by simp
    next
      case (Suc k)
      have "\<not> bit (drop_bit 1 x) k" using \<open>drop_bit 1 x = 0\<close> by simp
      with Suc show ?thesis by (simp add: bit_drop_bit_eq)
    qed
  qed
  then have "(a XOR b) XOR b = 0 XOR b" by (simp add: x_def)
  then show "a = b" by (simp add: xor.assoc)
qed

lemma crc_bits_inj: "crc_bits n a = crc_bits n b \<Longrightarrow> a = b"
  by (induction n arbitrary: a b) (auto dest: crc_bit_inj)

lemma lfs_crc_inj_state: "lfs_crc c bs = lfs_crc c' bs \<Longrightarrow> c = c'"
proof (induction bs arbitrary: c c')
  case (Cons b bs)
  then have "crc_byte c b = crc_byte c' b" by simp
  then have "c XOR ucast b = c' XOR ucast b" unfolding crc_byte_eq by (rule crc_bits_inj)
  then show ?case by (rule xor_right_cancel_u32)
qed simp

lemma u32_of_bytes_bound: "8 * length bs \<le> n \<Longrightarrow> \<not> bit (u32_of_bytes bs) n"
  by (induction bs arbitrary: n) (auto simp: bit_simps)

lemma lfs_crc_word:
  "length bs \<le> 4 \<Longrightarrow> lfs_crc c bs = crc_bits (8 * length bs) (c XOR u32_of_bytes bs)"
proof (induction bs arbitrary: c)
  case (Cons b bs)
  let ?w = "u32_of_bytes bs"
  have "take_bit 8 (push_bit 8 ?w) = 0" by (rule bit_word_eqI) (auto simp: bit_simps)
  then have "crc_bits 8 (push_bit 8 ?w) = drop_bit 8 (push_bit 8 ?w)" by (rule crc_bits_shift)
  also have "\<dots> = ?w"
  proof (rule bit_word_eqI)
    fix n assume "n < LENGTH(32)"
    have "n < 24" if "bit ?w n"
      using that Cons.prems u32_of_bytes_bound [of bs n] by (cases "n < 24") auto
    then show "bit (drop_bit 8 (push_bit 8 ?w)) n = bit ?w n" by (auto simp: bit_simps)
  qed
  finally have w: "crc_bits 8 (push_bit 8 ?w) = ?w" .
  have "ucast b OR push_bit 8 ?w = (ucast b :: u32) XOR push_bit 8 ?w"
    by (rule bit_word_eqI) (auto simp: bit_simps)
  then have "crc_bits 8 (c XOR u32_of_bytes (b # bs)) = crc_byte c b XOR ?w"
    by (simp add: crc_byte_eq crc_bits_xor w flip: xor.assoc)
  moreover have "lfs_crc (crc_byte c b) bs = crc_bits (8 * length bs) (crc_byte c b XOR ?w)"
    using Cons by simp
  ultimately show ?case
    using crc_bits_add [of 8 "8 * length bs" "c XOR u32_of_bytes (b # bs)"] by simp
qed simp

lemma u32_of_bytes_inj:
  "length xs = length ys \<Longrightarrow> length xs \<le> 4 \<Longrightarrow> u32_of_bytes xs = u32_of_bytes ys \<Longrightarrow> xs = ys"
proof -
  assume len: "length xs = length ys" "length xs \<le> 4" and eq: "u32_of_bytes xs = u32_of_bytes ys"
  have pad: "u32_of_bytes (zs @ replicate k 0) = u32_of_bytes zs" for zs k
    by (induction zs) (induction k, simp_all)
  let ?k = "4 - length xs"
  have "u32_bytes (u32_of_bytes (xs @ replicate ?k 0)) = u32_bytes (u32_of_bytes (ys @ replicate ?k 0))"
    using eq by (simp add: pad)
  then have "xs @ replicate ?k 0 = ys @ replicate ?k 0"
    using len by simp
  then show "xs = ys" by simp
qed

lemma lfs_crc_burst:
  assumes "length bs = length bs'" and "length bs \<le> 4" and "bs \<noteq> bs'"
  shows "lfs_crc c (xs @ bs @ ys) \<noteq> lfs_crc c (xs @ bs' @ ys)"
proof
  assume "lfs_crc c (xs @ bs @ ys) = lfs_crc c (xs @ bs' @ ys)"
  then have "lfs_crc (lfs_crc c xs) bs = lfs_crc (lfs_crc c xs) bs'"
    by (simp add: lfs_crc_append) (rule lfs_crc_inj_state)
  then have "lfs_crc c xs XOR u32_of_bytes bs = lfs_crc c xs XOR u32_of_bytes bs'"
    using assms(1,2) by (simp add: lfs_crc_word) (rule crc_bits_inj)
  then have "u32_of_bytes bs = u32_of_bytes bs'"
    by (rule xor_left_cancel_u32)
  then show False using assms u32_of_bytes_inj by blast
qed

end
