(* ===== verification/LFS_Types.thy ===== *)
theory LFS_Types
  imports LFS_Util
begin

text \<open>
  The data of \<^verbatim>\<open>src/src/lfs/lfs.h\<close> that the block-device layer works on: the configuration
  with its geometry and its device callbacks, and the block cache.  The callbacks are functions of
  the configuration record, as they are function pointers in C; the type variable \<open>'d\<close> is the
  memory behind \<^verbatim>\<open>cfg->context\<close>.  The locale \<open>block_device\<close> states what the library relies
  on from the callbacks.
\<close>

section \<open>Configuration and caches\<close>

text \<open>
  The sizes of \<^verbatim>\<open>struct lfs_config\<close>.  The optional static buffers are left out: the model always
  has one buffer of the configured size per cache.
\<close>

record lfs_geometry =
  cfg_read_size :: u32
  cfg_prog_size :: u32
  cfg_block_size :: u32
  cfg_block_count :: u32
  cfg_block_cycles :: u32 \<comment> \<open>int32, read with \<open>sint\<close>\<close>
  cfg_cache_size :: u32
  cfg_lookahead_size :: u32
  cfg_name_max :: u32
  cfg_file_max :: u32
  cfg_attr_max :: u32
  cfg_metadata_max :: u32

text \<open>
  The device callbacks: read a region of a block, program a region (the bytes of the buffer),
  erase a block, synchronise.  They return 0 or a negative code.
\<close>

record 'd lfs_config = lfs_geometry +
  cfg_read :: "u32 \<Rightarrow> u32 \<Rightarrow> u32 \<Rightarrow> ('d, u8 list) cmd"
  cfg_prog :: "u32 \<Rightarrow> u32 \<Rightarrow> u8 list \<Rightarrow> ('d, unit) cmd"
  cfg_erase :: "u32 \<Rightarrow> ('d, unit) cmd"
  cfg_sync :: "('d, unit) cmd"

record lfs_cache =
  cache_block :: u32
  cache_off :: u32
  cache_size :: u32
  cache_buffer :: "u8 list"

definition LFS_BLOCK_NULL :: u32 where
  "LFS_BLOCK_NULL = - 1"

definition LFS_BLOCK_INLINE :: u32 where
  "LFS_BLOCK_INLINE = - 2"

text \<open>
  The geometry the library can be used with: what \<^verbatim>\<open>lfs_init\<close> asserts about the sizes, and
  bounds that keep block addresses apart from the two reserved ones and offsets inside a block
  from wrapping around.
\<close>

definition wf_geometry :: "'z lfs_geometry_scheme \<Rightarrow> bool" where
  "wf_geometry g \<longleftrightarrow>
     cfg_read_size g \<noteq> 0 \<and> cfg_prog_size g \<noteq> 0 \<and> cfg_cache_size g \<noteq> 0 \<and>
     cfg_cache_size g mod cfg_read_size g = 0 \<and> cfg_cache_size g mod cfg_prog_size g = 0 \<and>
     cfg_block_size g mod cfg_cache_size g = 0 \<and>
     unat (cfg_block_size g) < 2 ^ 30 \<and> cfg_block_size g \<noteq> 0 \<and>
     unat (cfg_block_size g) * unat (cfg_block_count g) < 2 ^ 32 \<and>
     cfg_block_count g < LFS_BLOCK_INLINE"

lemma wf_geometryD:
  assumes "wf_geometry g"
  shows "0 < unat (cfg_read_size g)" "0 < unat (cfg_prog_size g)" "0 < unat (cfg_cache_size g)"
    and "unat (cfg_read_size g) dvd unat (cfg_cache_size g)"
    and "unat (cfg_prog_size g) dvd unat (cfg_cache_size g)"
    and "unat (cfg_cache_size g) dvd unat (cfg_block_size g)"
    and "unat (cfg_read_size g) dvd unat (cfg_block_size g)"
    and "unat (cfg_prog_size g) dvd unat (cfg_block_size g)"
    and "unat (cfg_block_size g) < 1073741824" "0 < unat (cfg_block_size g)"
    and "unat (cfg_cache_size g) \<le> unat (cfg_block_size g)"
    and "unat (cfg_block_size g) * unat (cfg_block_count g) < 4294967296"
    and "unat (cfg_block_count g) < 4294967294"
proof -
  have m: "unat b dvd unat a" if "a mod b = 0" for a b :: u32
    using that unat_mod_u32 [of a b] by (simp add: mod_eq_0_iff_dvd)
  have z: "0 < unat a" if "a \<noteq> 0" for a :: u32
    using that by (simp add: unat_gt_0)
  from assms have g: "cfg_read_size g \<noteq> 0" "cfg_prog_size g \<noteq> 0" "cfg_cache_size g \<noteq> 0"
    "cfg_block_size g \<noteq> 0" "cfg_cache_size g mod cfg_read_size g = 0"
    "cfg_cache_size g mod cfg_prog_size g = 0" "cfg_block_size g mod cfg_cache_size g = 0"
    by (simp_all add: wf_geometry_def)
  show "0 < unat (cfg_read_size g)" "0 < unat (cfg_prog_size g)" "0 < unat (cfg_cache_size g)"
    "0 < unat (cfg_block_size g)"
    by (rule z, rule g)+
  note b = this(4)
  show c: "unat (cfg_read_size g) dvd unat (cfg_cache_size g)"
    "unat (cfg_prog_size g) dvd unat (cfg_cache_size g)"
    "unat (cfg_cache_size g) dvd unat (cfg_block_size g)"
    by (rule m, rule g)+
  show "unat (cfg_read_size g) dvd unat (cfg_block_size g)" using c(1,3) by (rule dvd_trans)
  show "unat (cfg_prog_size g) dvd unat (cfg_block_size g)" using c(2,3) by (rule dvd_trans)
  show "unat (cfg_cache_size g) \<le> unat (cfg_block_size g)" using c(3) b by (rule dvd_imp_le)
  show "unat (cfg_block_size g) < 1073741824"
    "unat (cfg_block_size g) * unat (cfg_block_count g) < 4294967296"
    "unat (cfg_block_count g) < 4294967294"
    using assms by (simp_all add: wf_geometry_def LFS_BLOCK_INLINE_def u32_less)
qed

lemma block_null_inline [simp]:
  "LFS_BLOCK_NULL \<noteq> LFS_BLOCK_INLINE" "LFS_BLOCK_INLINE \<noteq> LFS_BLOCK_NULL"
  by (simp_all add: LFS_BLOCK_NULL_def LFS_BLOCK_INLINE_def)

lemma block_reserved:
  assumes "wf_geometry g" and "b < cfg_block_count g"
  shows "b \<noteq> LFS_BLOCK_NULL" "b \<noteq> LFS_BLOCK_INLINE"
proof -
  have "unat b < unat (- 2 :: u32)"
    using assms by (auto simp: wf_geometry_def LFS_BLOCK_INLINE_def u32_less)
  moreover have "unat (- 2 :: u32) = 4294967294" "unat (- 1 :: u32) = 4294967295"
    by (simp_all add: unsigned_minus_1_eq_mask mask_eq_exp_minus_1)
  ultimately show "b \<noteq> LFS_BLOCK_NULL" "b \<noteq> LFS_BLOCK_INLINE"
    by (auto simp: LFS_BLOCK_NULL_def LFS_BLOCK_INLINE_def)
qed

section \<open>The interface of a block device\<close>

text \<open>
  \<open>contents d b\<close> is what a block holds, \<open>erased d b i\<close> that byte \<open>i\<close> of the block may be
  programmed, \<open>valid\<close> an invariant of the device.  Reading and programming are required to work
  on regions that are aligned to the read and program sizes and lie inside a block; programming
  only where the bytes have been erased.
\<close>

locale block_device =
  fixes c :: "'d lfs_config"
    and contents :: "'d \<Rightarrow> u32 \<Rightarrow> u8 list"
    and erased :: "'d \<Rightarrow> u32 \<Rightarrow> nat \<Rightarrow> bool"
    and valid :: "'d \<Rightarrow> bool"
  assumes geometry: "valid d \<Longrightarrow> wf_geometry c"
    and length_contents:
      "valid d \<Longrightarrow> b < cfg_block_count c \<Longrightarrow> length (contents d b) = unat (cfg_block_size c)"
    and read_ok:
      "valid d \<Longrightarrow> b < cfg_block_count c \<Longrightarrow>
       unat off + unat sz \<le> unat (cfg_block_size c) \<Longrightarrow>
       unat (cfg_read_size c) dvd unat off \<Longrightarrow> unat (cfg_read_size c) dvd unat sz \<Longrightarrow>
       cfg_read c b off sz d = (Ok (seg (contents d b) (unat off) (unat sz)), d)"
    and prog_ok:
      "valid d \<Longrightarrow> b < cfg_block_count c \<Longrightarrow>
       unat off + length xs \<le> unat (cfg_block_size c) \<Longrightarrow>
       unat (cfg_prog_size c) dvd unat off \<Longrightarrow> unat (cfg_prog_size c) dvd length xs \<Longrightarrow>
       (\<And>i. unat off \<le> i \<Longrightarrow> i < unat off + length xs \<Longrightarrow> erased d b i) \<Longrightarrow>
       \<exists>d'. cfg_prog c b off xs d = (Ok (), d') \<and> valid d' \<and>
            contents d' b = patch (contents d b) (unat off) xs \<and>
            (\<forall>b'. b' < cfg_block_count c \<longrightarrow> b' \<noteq> b \<longrightarrow> contents d' b' = contents d b') \<and>
            (\<forall>b' i. b' < cfg_block_count c \<longrightarrow> (b' \<noteq> b \<or> i < unat off \<or> unat off + length xs \<le> i) \<longrightarrow>
               erased d b' i \<longrightarrow> erased d' b' i)"
    and erase_ok:
      "valid d \<Longrightarrow> b < cfg_block_count c \<Longrightarrow>
       \<exists>d'. cfg_erase c b d = (Ok (), d') \<and> valid d' \<and>
            (\<forall>i < unat (cfg_block_size c). erased d' b i) \<and>
            (\<forall>b'. b' < cfg_block_count c \<longrightarrow> b' \<noteq> b \<longrightarrow> contents d' b' = contents d b') \<and>
            (\<forall>b' i. b' < cfg_block_count c \<longrightarrow> b' \<noteq> b \<longrightarrow> erased d b' i \<longrightarrow> erased d' b' i)"
    and sync_ok:
      "valid d \<Longrightarrow>
       \<exists>d'. cfg_sync c d = (Ok (), d') \<and> valid d' \<and>
            (\<forall>b. b < cfg_block_count c \<longrightarrow> contents d' b = contents d b) \<and>
            (\<forall>b i. b < cfg_block_count c \<longrightarrow> erased d b i \<longrightarrow> erased d' b i)"

end
