(* ===== verification/LFS_Tag.thy ===== *)
theory LFS_Tag
  imports LFS_Crc LFS_Types
begin

text \<open>
  The small type-level utilities of \<^verbatim>\<open>src/src/lfs/lfs.c\<close>: block pairs, 32-bit entry tags,
  the global state and the byte-order conversions of on-disk structures, with the tag types of
  \<^verbatim>\<open>src/src/lfs/lfs.h\<close>.  Tag fields are 32-bit words here; the C accessors return them in
  narrower integer types that hold them exactly.
\<close>

section \<open>Tag types and flags\<close>

definition LFS_TYPE_REG :: u32 where "LFS_TYPE_REG = 0x001"
definition LFS_TYPE_DIR :: u32 where "LFS_TYPE_DIR = 0x002"
definition LFS_TYPE_SPLICE :: u32 where "LFS_TYPE_SPLICE = 0x400"
definition LFS_TYPE_NAME :: u32 where "LFS_TYPE_NAME = 0x000"
definition LFS_TYPE_STRUCT :: u32 where "LFS_TYPE_STRUCT = 0x200"
definition LFS_TYPE_USERATTR :: u32 where "LFS_TYPE_USERATTR = 0x300"
definition LFS_TYPE_FROM :: u32 where "LFS_TYPE_FROM = 0x100"
definition LFS_TYPE_TAIL :: u32 where "LFS_TYPE_TAIL = 0x600"
definition LFS_TYPE_GLOBALS :: u32 where "LFS_TYPE_GLOBALS = 0x700"
definition LFS_TYPE_CRC :: u32 where "LFS_TYPE_CRC = 0x500"
definition LFS_TYPE_CREATE :: u32 where "LFS_TYPE_CREATE = 0x401"
definition LFS_TYPE_DELETE :: u32 where "LFS_TYPE_DELETE = 0x4ff"
definition LFS_TYPE_SUPERBLOCK :: u32 where "LFS_TYPE_SUPERBLOCK = 0x0ff"
definition LFS_TYPE_DIRSTRUCT :: u32 where "LFS_TYPE_DIRSTRUCT = 0x200"
definition LFS_TYPE_CTZSTRUCT :: u32 where "LFS_TYPE_CTZSTRUCT = 0x202"
definition LFS_TYPE_INLINESTRUCT :: u32 where "LFS_TYPE_INLINESTRUCT = 0x201"
definition LFS_TYPE_SOFTTAIL :: u32 where "LFS_TYPE_SOFTTAIL = 0x600"
definition LFS_TYPE_HARDTAIL :: u32 where "LFS_TYPE_HARDTAIL = 0x601"
definition LFS_TYPE_MOVESTATE :: u32 where "LFS_TYPE_MOVESTATE = 0x7ff"
definition LFS_FROM_NOOP :: u32 where "LFS_FROM_NOOP = 0x000"
definition LFS_FROM_MOVE :: u32 where "LFS_FROM_MOVE = 0x101"
definition LFS_FROM_USERATTRS :: u32 where "LFS_FROM_USERATTRS = 0x102"

lemmas lfs_type_defs =
  LFS_TYPE_REG_def LFS_TYPE_DIR_def LFS_TYPE_SPLICE_def LFS_TYPE_NAME_def LFS_TYPE_STRUCT_def
  LFS_TYPE_USERATTR_def LFS_TYPE_FROM_def LFS_TYPE_TAIL_def LFS_TYPE_GLOBALS_def LFS_TYPE_CRC_def
  LFS_TYPE_CREATE_def LFS_TYPE_DELETE_def LFS_TYPE_SUPERBLOCK_def LFS_TYPE_DIRSTRUCT_def
  LFS_TYPE_CTZSTRUCT_def LFS_TYPE_INLINESTRUCT_def LFS_TYPE_SOFTTAIL_def LFS_TYPE_HARDTAIL_def
  LFS_TYPE_MOVESTATE_def LFS_FROM_NOOP_def LFS_FROM_MOVE_def LFS_FROM_USERATTRS_def

section \<open>Block pairs\<close>

type_synonym pair = "u32 \<times> u32"

definition lfs_pair_swap :: "pair \<Rightarrow> pair" where
  "lfs_pair_swap p = (snd p, fst p)"

definition lfs_pair_isnull :: "pair \<Rightarrow> bool" where
  "lfs_pair_isnull p \<longleftrightarrow> fst p = LFS_BLOCK_NULL \<or> snd p = LFS_BLOCK_NULL"

text \<open>The C function returns 0 when the pairs share a block, so \<open>True\<close> here means different.\<close>

definition lfs_pair_cmp :: "pair \<Rightarrow> pair \<Rightarrow> bool" where
  "lfs_pair_cmp a b \<longleftrightarrow>
     \<not> (fst a = fst b \<or> snd a = snd b \<or> fst a = snd b \<or> snd a = fst b)"

definition lfs_pair_sync :: "pair \<Rightarrow> pair \<Rightarrow> bool" where
  "lfs_pair_sync a b \<longleftrightarrow>
     (fst a = fst b \<and> snd a = snd b) \<or> (fst a = snd b \<and> snd a = fst b)"

definition lfs_pair_fromle32 :: "pair \<Rightarrow> pair" where
  "lfs_pair_fromle32 p = (lfs_fromle32 (fst p), lfs_fromle32 (snd p))"

definition lfs_pair_tole32 :: "pair \<Rightarrow> pair" where
  "lfs_pair_tole32 p = (lfs_tole32 (fst p), lfs_tole32 (snd p))"

lemma lfs_pair_swap_swap [simp]: "lfs_pair_swap (lfs_pair_swap p) = p"
  by (simp add: lfs_pair_swap_def)

lemma lfs_pair_cmp_swap [simp]:
  "lfs_pair_cmp (lfs_pair_swap a) b = lfs_pair_cmp a b"
  "lfs_pair_cmp a (lfs_pair_swap b) = lfs_pair_cmp a b"
  by (auto simp: lfs_pair_cmp_def lfs_pair_swap_def)

lemma lfs_pair_cmp_sym: "lfs_pair_cmp a b = lfs_pair_cmp b a"
  by (auto simp: lfs_pair_cmp_def)

lemma lfs_pair_sync_iff: "lfs_pair_sync a b \<longleftrightarrow> a = b \<or> a = lfs_pair_swap b"
  by (cases a; cases b) (auto simp: lfs_pair_sync_def lfs_pair_swap_def)

lemma lfs_pair_sync_cmp: "lfs_pair_sync a b \<Longrightarrow> \<not> lfs_pair_cmp a b"
  by (auto simp: lfs_pair_sync_def lfs_pair_cmp_def)

section \<open>Tags\<close>

definition LFS_MKTAG :: "u32 \<Rightarrow> u32 \<Rightarrow> u32 \<Rightarrow> u32" where
  "LFS_MKTAG t i n = push_bit 20 t OR push_bit 10 i OR n"

definition LFS_MKTAG_IF :: "bool \<Rightarrow> u32 \<Rightarrow> u32 \<Rightarrow> u32 \<Rightarrow> u32" where
  "LFS_MKTAG_IF cond t i n = (if cond then LFS_MKTAG t i n else LFS_MKTAG LFS_FROM_NOOP 0 0)"

definition LFS_MKTAG_IF_ELSE ::
  "bool \<Rightarrow> u32 \<Rightarrow> u32 \<Rightarrow> u32 \<Rightarrow> u32 \<Rightarrow> u32 \<Rightarrow> u32 \<Rightarrow> u32" where
  "LFS_MKTAG_IF_ELSE cond t1 i1 n1 t2 i2 n2 =
     (if cond then LFS_MKTAG t1 i1 n1 else LFS_MKTAG t2 i2 n2)"

definition lfs_tag_isvalid :: "u32 \<Rightarrow> bool" where
  "lfs_tag_isvalid tag \<longleftrightarrow> tag AND 0x80000000 = 0"

text \<open>The shift to the right is the arithmetic one of a signed integer.\<close>

definition lfs_tag_isdelete :: "u32 \<Rightarrow> bool" where
  "lfs_tag_isdelete tag \<longleftrightarrow> signed_drop_bit 22 (push_bit 22 tag) = - 1"

definition lfs_tag_type1 :: "u32 \<Rightarrow> u32" where
  "lfs_tag_type1 tag = drop_bit 20 (tag AND 0x70000000)"

definition lfs_tag_type3 :: "u32 \<Rightarrow> u32" where
  "lfs_tag_type3 tag = drop_bit 20 (tag AND 0x7ff00000)"

definition lfs_tag_chunk :: "u32 \<Rightarrow> u8" where
  "lfs_tag_chunk tag = ucast (drop_bit 20 (tag AND 0x0ff00000))"

text \<open>An eight bit value read as a signed integer, then widened to 32 bits.\<close>

definition lfs_tag_splice :: "u32 \<Rightarrow> u32" where
  "lfs_tag_splice tag = scast (lfs_tag_chunk tag)"

definition lfs_tag_id :: "u32 \<Rightarrow> u32" where
  "lfs_tag_id tag = drop_bit 10 (tag AND 0x000ffc00)"

definition lfs_tag_size :: "u32 \<Rightarrow> u32" where
  "lfs_tag_size tag = tag AND 0x000003ff"

definition lfs_tag_dsize :: "u32 \<Rightarrow> u32" where
  "lfs_tag_dsize tag = 4 + lfs_tag_size (tag + (if lfs_tag_isdelete tag then 1 else 0))"

section \<open>Global state\<close>

record lfs_gstate =
  gs_tag :: u32
  gs_pair :: pair

definition lfs_gstate_xor :: "lfs_gstate \<Rightarrow> lfs_gstate \<Rightarrow> lfs_gstate" where
  "lfs_gstate_xor a b =
     \<lparr>gs_tag = gs_tag a XOR gs_tag b,
      gs_pair = (fst (gs_pair a) XOR fst (gs_pair b), snd (gs_pair a) XOR snd (gs_pair b))\<rparr>"

definition gstate_zero :: lfs_gstate where
  "gstate_zero = \<lparr>gs_tag = 0, gs_pair = (0, 0)\<rparr>"

definition lfs_gstate_iszero :: "lfs_gstate \<Rightarrow> bool" where
  "lfs_gstate_iszero a \<longleftrightarrow> gs_tag a = 0 \<and> fst (gs_pair a) = 0 \<and> snd (gs_pair a) = 0"

definition lfs_gstate_hasorphans :: "lfs_gstate \<Rightarrow> bool" where
  "lfs_gstate_hasorphans a \<longleftrightarrow> lfs_tag_size (gs_tag a) \<noteq> 0"

definition lfs_gstate_getorphans :: "lfs_gstate \<Rightarrow> u8" where
  "lfs_gstate_getorphans a = ucast (lfs_tag_size (gs_tag a))"

definition lfs_gstate_hasmove :: "lfs_gstate \<Rightarrow> bool" where
  "lfs_gstate_hasmove a \<longleftrightarrow> lfs_tag_type1 (gs_tag a) \<noteq> 0"

definition lfs_gstate_hasmovehere :: "lfs_gstate \<Rightarrow> pair \<Rightarrow> bool" where
  "lfs_gstate_hasmovehere a p \<longleftrightarrow> lfs_tag_type1 (gs_tag a) \<noteq> 0 \<and> \<not> lfs_pair_cmp (gs_pair a) p"

definition lfs_gstate_fromle32 :: "lfs_gstate \<Rightarrow> lfs_gstate" where
  "lfs_gstate_fromle32 a = \<lparr>gs_tag = lfs_fromle32 (gs_tag a),
     gs_pair = (lfs_fromle32 (fst (gs_pair a)), lfs_fromle32 (snd (gs_pair a)))\<rparr>"

definition lfs_gstate_tole32 :: "lfs_gstate \<Rightarrow> lfs_gstate" where
  "lfs_gstate_tole32 a = \<lparr>gs_tag = lfs_tole32 (gs_tag a),
     gs_pair = (lfs_tole32 (fst (gs_pair a)), lfs_tole32 (snd (gs_pair a)))\<rparr>"

text \<open>Structures in memory: twelve bytes for the global state, eight for a pair.\<close>

definition gstate_bytes :: "lfs_gstate \<Rightarrow> u8 list" where
  "gstate_bytes a = u32_bytes (gs_tag a) @ u32_bytes (fst (gs_pair a)) @ u32_bytes (snd (gs_pair a))"

definition gstate_of_bytes :: "u8 list \<Rightarrow> lfs_gstate" where
  "gstate_of_bytes xs = \<lparr>gs_tag = u32_of_bytes (seg xs 0 4),
     gs_pair = (u32_of_bytes (seg xs 4 4), u32_of_bytes (seg xs 8 4))\<rparr>"

definition pair_bytes :: "pair \<Rightarrow> u8 list" where
  "pair_bytes p = u32_bytes (fst p) @ u32_bytes (snd p)"

definition pair_of_bytes :: "u8 list \<Rightarrow> pair" where
  "pair_of_bytes xs = (u32_of_bytes (seg xs 0 4), u32_of_bytes (seg xs 4 4))"

section \<open>Other on-disk structures\<close>

record lfs_ctz_t =
  ctz_head :: u32
  ctz_size :: u32

definition lfs_ctz_fromle32 :: "lfs_ctz_t \<Rightarrow> lfs_ctz_t" where
  "lfs_ctz_fromle32 z = \<lparr>ctz_head = lfs_fromle32 (ctz_head z), ctz_size = lfs_fromle32 (ctz_size z)\<rparr>"

definition lfs_ctz_tole32 :: "lfs_ctz_t \<Rightarrow> lfs_ctz_t" where
  "lfs_ctz_tole32 z = \<lparr>ctz_head = lfs_tole32 (ctz_head z), ctz_size = lfs_tole32 (ctz_size z)\<rparr>"

definition ctz_bytes :: "lfs_ctz_t \<Rightarrow> u8 list" where
  "ctz_bytes z = u32_bytes (ctz_head z) @ u32_bytes (ctz_size z)"

definition ctz_of_bytes :: "u8 list \<Rightarrow> lfs_ctz_t" where
  "ctz_of_bytes xs = \<lparr>ctz_head = u32_of_bytes (seg xs 0 4), ctz_size = u32_of_bytes (seg xs 4 4)\<rparr>"

record lfs_superblock =
  sb_version :: u32
  sb_block_size :: u32
  sb_block_count :: u32
  sb_name_max :: u32
  sb_file_max :: u32
  sb_attr_max :: u32

definition lfs_superblock_fromle32 :: "lfs_superblock \<Rightarrow> lfs_superblock" where
  "lfs_superblock_fromle32 s =
     \<lparr>sb_version = lfs_fromle32 (sb_version s),
      sb_block_size = lfs_fromle32 (sb_block_size s),
      sb_block_count = lfs_fromle32 (sb_block_count s),
      sb_name_max = lfs_fromle32 (sb_name_max s),
      sb_file_max = lfs_fromle32 (sb_file_max s),
      sb_attr_max = lfs_fromle32 (sb_attr_max s)\<rparr>"

definition lfs_superblock_tole32 :: "lfs_superblock \<Rightarrow> lfs_superblock" where
  "lfs_superblock_tole32 s =
     \<lparr>sb_version = lfs_tole32 (sb_version s),
      sb_block_size = lfs_tole32 (sb_block_size s),
      sb_block_count = lfs_tole32 (sb_block_count s),
      sb_name_max = lfs_tole32 (sb_name_max s),
      sb_file_max = lfs_tole32 (sb_file_max s),
      sb_attr_max = lfs_tole32 (sb_attr_max s)\<rparr>"

section \<open>Facts\<close>

text \<open>The fields as bit ranges of the tag.\<close>

lemma lfs_tag_size_take: "lfs_tag_size tag = take_bit 10 tag"
proof -
  have m: "(0x3ff :: u32) = mask 10" by (simp add: mask_eq_exp_minus_1)
  show ?thesis by (simp add: lfs_tag_size_def m take_bit_eq_mask)
qed

lemma lfs_tag_id_take: "lfs_tag_id tag = take_bit 10 (drop_bit 10 tag)"
proof -
  have m: "(0xffc00 :: u32) = push_bit 10 (mask 10)" by (simp add: mask_eq_exp_minus_1 push_bit_eq_mult)
  show ?thesis
    by (rule bit_word_eqI) (auto simp: lfs_tag_id_def m bit_simps)
qed

lemma lfs_tag_type1_take: "lfs_tag_type1 tag = push_bit 8 (take_bit 3 (drop_bit 28 tag))"
proof -
  have m: "(0x70000000 :: u32) = push_bit 28 (mask 3)" by (simp add: mask_eq_exp_minus_1 push_bit_eq_mult)
  show ?thesis
    by (rule bit_word_eqI) (auto simp: lfs_tag_type1_def m bit_simps)
qed

lemma lfs_tag_type3_take: "lfs_tag_type3 tag = take_bit 11 (drop_bit 20 tag)"
proof -
  have m: "(0x7ff00000 :: u32) = push_bit 20 (mask 11)" by (simp add: mask_eq_exp_minus_1 push_bit_eq_mult)
  show ?thesis
    by (rule bit_word_eqI) (auto simp: lfs_tag_type3_def m bit_simps)
qed

lemma lfs_tag_isvalid_bit: "lfs_tag_isvalid tag \<longleftrightarrow> \<not> bit tag 31"
proof -
  have m: "(0x80000000 :: u32) = push_bit 31 1" by (simp add: push_bit_eq_mult)
  have b: "bit (tag AND 0x80000000) k \<longleftrightarrow> k = 31 \<and> bit tag 31" for k
  proof (cases "k = 31")
    case True
    then show ?thesis unfolding m by (simp only: bit_and_iff bit_push_bit_iff) simp
  next
    case False
    then have "k < 31 \<or> 32 \<le> k" by linarith
    then show ?thesis using False unfolding m by (simp only: bit_and_iff bit_push_bit_iff) auto
  qed
  have "tag AND 0x80000000 = 0 \<longleftrightarrow> \<not> bit tag 31"
  proof
    assume "tag AND 0x80000000 = 0"
    then show "\<not> bit tag 31" using b [of 31] by simp
  next
    assume "\<not> bit tag 31"
    then show "tag AND 0x80000000 = 0" by (intro bit_word_eqI) (simp only: b, simp)
  qed
  then show ?thesis by (simp add: lfs_tag_isvalid_def)
qed

lemma lfs_tag_isdelete_iff: "lfs_tag_isdelete tag \<longleftrightarrow> lfs_tag_size tag = 0x3ff"
proof -
  have s: "bit (signed_drop_bit 22 (push_bit 22 tag)) i = bit tag (min i 9)" if "i < 32" for i
    using that by (auto simp: bit_simps min_def)
  have "lfs_tag_isdelete tag \<longleftrightarrow> (\<forall>i < 10. bit tag i)"
  proof
    assume h: "lfs_tag_isdelete tag"
    show "\<forall>i < 10. bit tag i"
    proof (intro allI impI)
      fix i :: nat assume "i < 10"
      then show "bit tag i" using s [of i] h by (simp add: lfs_tag_isdelete_def min_def)
    qed
  next
    assume h: "\<forall>i < 10. bit tag i"
    show "lfs_tag_isdelete tag" unfolding lfs_tag_isdelete_def
    proof (rule bit_word_eqI)
      fix i assume "i < LENGTH(32)"
      then show "bit (signed_drop_bit 22 (push_bit 22 tag)) i = bit (- 1 :: u32) i"
        using s [of i] h by (simp add: min_def)
    qed
  qed
  also have "\<dots> \<longleftrightarrow> take_bit 10 tag = mask 10"
  proof
    assume "\<forall>i < 10. bit tag i"
    then show "take_bit 10 tag = mask 10" by (intro bit_word_eqI) (auto simp: bit_simps)
  next
    assume h: "take_bit 10 tag = mask 10"
    have "bit (take_bit 10 tag) i \<longleftrightarrow> i < 10" for i
      unfolding h by (auto simp: bit_mask_iff)
    then show "\<forall>i < 10. bit tag i" unfolding bit_take_bit_iff by blast
  qed
  also have "mask 10 = (0x3ff :: u32)" by (simp add: mask_eq_exp_minus_1)
  finally show ?thesis by (simp only: lfs_tag_size_take)
qed

lemma unat_take_bit_u32: "unat (take_bit k (a :: u32)) = unat a mod 2 ^ k"
  by (simp only: unsigned_take_bit_eq) (simp only: take_bit_eq_mod)

lemma lfs_tag_size_bound: "unat (lfs_tag_size tag) < 1024"
  by (simp only: lfs_tag_size_take unat_take_bit_u32) simp

text \<open>An entry takes between 4 and 1026 bytes on disk; that of a delete tag takes 4.\<close>

lemma lfs_tag_dsize_delete: "lfs_tag_isdelete tag \<Longrightarrow> lfs_tag_dsize tag = 4"
proof -
  assume d: "lfs_tag_isdelete tag"
  then have s: "take_bit 10 tag = 0x3ff" by (simp only: lfs_tag_isdelete_iff lfs_tag_size_take)
  then have "unat (take_bit 10 tag) = 1023" by simp
  then have m: "unat tag mod 1024 = 1023" by (simp only: unat_take_bit_u32) simp
  have "(unat tag + 1) mod 4294967296 mod 1024 = (unat tag mod 1024 + 1) mod 1024"
    by (simp add: mod_mod_cancel mod_Suc_eq)
  then have "unat (take_bit 10 (tag + 1)) = 0"
    using m by (simp only: unat_take_bit_u32 unat_add_u32_mod) simp
  then have "take_bit 10 (tag + 1) = 0" by (simp only: unat_eq_0)
  then show ?thesis using d by (simp only: lfs_tag_dsize_def lfs_tag_size_take) simp
qed

lemma lfs_tag_dsize_bounds: "4 \<le> unat (lfs_tag_dsize tag)" "unat (lfs_tag_dsize tag) \<le> 1026"
proof -
  have "unat (lfs_tag_dsize tag) = 4 + (if lfs_tag_isdelete tag then 0 else unat (lfs_tag_size tag))"
    using lfs_tag_dsize_delete lfs_tag_size_bound [of tag]
    by (auto simp: lfs_tag_dsize_def unat_add_u32)
  moreover have "unat (lfs_tag_size tag) \<noteq> 1023" if "\<not> lfs_tag_isdelete tag"
    using that by (auto simp: lfs_tag_isdelete_iff u32_eq)
  ultimately show "4 \<le> unat (lfs_tag_dsize tag)" "unat (lfs_tag_dsize tag) \<le> 1026"
    using lfs_tag_size_bound [of tag] by (auto split: if_splits)
qed

text \<open>Making a tag and taking it apart.\<close>

lemma take_bit_id_u32: "unat (n :: u32) < 2 ^ k \<Longrightarrow> take_bit k n = n"
  by (simp add: u32_eq unsigned_take_bit_eq take_bit_nat_eq_self)

lemma mktag_fields:
  assumes "unat t < 2048" and "unat i < 1024" and "unat n < 1024"
  shows "lfs_tag_type3 (LFS_MKTAG t i n) = t" and "lfs_tag_id (LFS_MKTAG t i n) = i"
    and "lfs_tag_size (LFS_MKTAG t i n) = n" and "lfs_tag_isvalid (LFS_MKTAG t i n)"
proof -
  have tb: "take_bit 11 t = t" "take_bit 10 i = i" "take_bit 10 n = n"
    using assms by (simp_all add: take_bit_id_u32)
  have b: "bit t k \<Longrightarrow> k < 11" for k using tb(1) by (metis bit_take_bit_iff)
  have bi: "bit i k \<Longrightarrow> k < 10" for k using tb(2) by (metis bit_take_bit_iff)
  have bn: "bit n k \<Longrightarrow> k < 10" for k using tb(3) by (metis bit_take_bit_iff)
  note defs = LFS_MKTAG_def bit_simps
  show "lfs_tag_type3 (LFS_MKTAG t i n) = t" unfolding lfs_tag_type3_take
    by (rule bit_word_eqI) (auto simp: defs dest: b bi bn)
  show "lfs_tag_id (LFS_MKTAG t i n) = i" unfolding lfs_tag_id_take
    by (rule bit_word_eqI) (auto simp: defs dest: b bi bn)
  show "lfs_tag_size (LFS_MKTAG t i n) = n" unfolding lfs_tag_size_take
    by (rule bit_word_eqI) (auto simp: defs dest: b bi bn)
  show "lfs_tag_isvalid (LFS_MKTAG t i n)" unfolding lfs_tag_isvalid_bit
    by (auto simp: defs dest: b bi bn)
qed

text \<open>A valid tag is determined by its three fields.\<close>

lemma mktag_of_fields:
  assumes "lfs_tag_isvalid tag"
  shows "LFS_MKTAG (lfs_tag_type3 tag) (lfs_tag_id tag) (lfs_tag_size tag) = tag"
  unfolding LFS_MKTAG_def lfs_tag_type3_take lfs_tag_id_take lfs_tag_size_take
proof (rule bit_word_eqI)
  fix k assume "k < LENGTH(32)"
  then have "k < 32" by simp
  then consider "k < 10" | "10 \<le> k" "k < 20" | "20 \<le> k" "k < 31" | "k = 31" by linarith
  then show "bit (push_bit 20 (take_bit 11 (drop_bit 20 tag)) OR push_bit 10 (take_bit 10 (drop_bit 10 tag)) OR
      take_bit 10 tag) k = bit tag k"
    using assms by cases (auto simp: bit_simps lfs_tag_isvalid_bit)
qed

text \<open>The global state is a difference: xor-ing twice with the same delta undoes it.\<close>

lemma lfs_gstate_xor_props:
  "lfs_gstate_xor a b = lfs_gstate_xor b a"
  "lfs_gstate_xor (lfs_gstate_xor a b) d = lfs_gstate_xor a (lfs_gstate_xor b d)"
  "lfs_gstate_xor a a = gstate_zero"
  "lfs_gstate_xor a gstate_zero = (a :: lfs_gstate)"
  by (simp_all add: lfs_gstate_xor_def gstate_zero_def ac_simps)

lemma lfs_gstate_xor_cancel [simp]: "lfs_gstate_xor (lfs_gstate_xor a b) b = (a :: lfs_gstate)"
  by (simp add: lfs_gstate_xor_props(2-))

lemma lfs_gstate_iszero_iff: "lfs_gstate_iszero a \<longleftrightarrow> a = gstate_zero"
  by (cases a) (auto simp: lfs_gstate_iszero_def gstate_zero_def prod_eq_iff)

lemma xor_zero_u32: "(a :: u32) XOR b = 0 \<longleftrightarrow> a = b"
proof
  assume "a XOR b = 0"
  then have "(a XOR b) XOR b = b" by simp
  then show "a = b" by (simp add: xor.assoc)
qed simp

lemma gstate_xor_zero: "lfs_gstate_iszero (lfs_gstate_xor a b) \<longleftrightarrow> a = (b :: lfs_gstate)"
  by (cases a; cases b)
    (auto simp: lfs_gstate_iszero_def lfs_gstate_xor_def prod_eq_iff xor_zero_u32)

text \<open>Bytes of structures.\<close>

lemma gstate_of_bytes_bytes [simp]: "gstate_of_bytes (gstate_bytes a) = a"
  by (simp add: gstate_of_bytes_def gstate_bytes_def seg_def)

lemma pair_of_bytes_bytes [simp]: "pair_of_bytes (pair_bytes p) = p"
  by (simp add: pair_of_bytes_def pair_bytes_def seg_def)

lemma ctz_of_bytes_bytes [simp]: "ctz_of_bytes (ctz_bytes z) = z"
  by (simp add: ctz_of_bytes_def ctz_bytes_def seg_def)

lemma le32_structs [simp]:
  "lfs_pair_fromle32 (lfs_pair_tole32 p) = p"
  "lfs_gstate_fromle32 (lfs_gstate_tole32 a) = (a :: lfs_gstate)"
  "lfs_ctz_fromle32 (lfs_ctz_tole32 z) = (z :: lfs_ctz_t)"
  "lfs_superblock_fromle32 (lfs_superblock_tole32 b) = (b :: lfs_superblock)"
  by (simp_all add: lfs_pair_fromle32_def lfs_pair_tole32_def lfs_gstate_fromle32_def
      lfs_gstate_tole32_def lfs_ctz_fromle32_def lfs_ctz_tole32_def lfs_superblock_fromle32_def
      lfs_superblock_tole32_def)

end
