(* ===== verification/LFS_Rambd.thy ===== *)
theory LFS_Rambd
  imports LFS_Types
begin

text \<open>
  The block device emulated in RAM, \<^verbatim>\<open>src/src/lfs-rambd/lfs_rambd.c\<close>: creation, read, program,
  erase and synchronise on one flat buffer, with the assertions of the C code.  It provides the
  interface \<open>block_device\<close>: with an erase value of \<open>-1\<close> every byte may be programmed at any
  time, otherwise a byte may be programmed when it holds the erase value.
\<close>

section \<open>State and operations\<close>

record lfs_rambd_config =
  rbcfg_erase_value :: int
  rbcfg_buffer :: "u8 list option"

record lfs_rambd =
  rambd_buffer :: "u8 list"
  rambd_cfg :: lfs_rambd_config

text \<open>
  \<open>fresh\<close> is what \<^verbatim>\<open>lfs_malloc\<close> returns for the requested number of bytes: no memory, or a
  block with arbitrary contents.
\<close>

definition lfs_rambd_createcfg ::
  "'z lfs_geometry_scheme \<Rightarrow> lfs_rambd_config \<Rightarrow> (nat \<Rightarrow> u8 list option) \<Rightarrow> lfs_rambd outcome" where
  "lfs_rambd_createcfg g bdcfg fresh =
     (let n = unat (cfg_block_size g * cfg_block_count g);
          fill = (if rbcfg_erase_value bdcfg \<noteq> - 1
                  then replicate n (word_of_int (rbcfg_erase_value bdcfg)) else replicate n 0);
          zero = (\<lambda>buf. if n \<le> length buf
                        then Ok \<lparr>rambd_buffer = patch buf 0 fill, rambd_cfg = bdcfg\<rparr>
                        else Fault Out_Of_Bounds)
      in case rbcfg_buffer bdcfg of
           Some buf \<Rightarrow> zero buf
         | None \<Rightarrow> (case fresh n of None \<Rightarrow> Err LFS_ERR_NOMEM | Some buf \<Rightarrow> zero buf))"

definition lfs_rambd_create ::
  "'z lfs_geometry_scheme \<Rightarrow> (nat \<Rightarrow> u8 list option) \<Rightarrow> lfs_rambd outcome" where
  "lfs_rambd_create g fresh =
     lfs_rambd_createcfg g \<lparr>rbcfg_erase_value = - 1, rbcfg_buffer = None\<rparr> fresh"

definition lfs_rambd_read ::
  "'z lfs_geometry_scheme \<Rightarrow> u32 \<Rightarrow> u32 \<Rightarrow> u32 \<Rightarrow> (lfs_rambd, u8 list) cmd" where
  "lfs_rambd_read g block off sz =
     bnd (assertion (off mod cfg_read_size g = 0)) (\<lambda>_.
     bnd (assertion (sz mod cfg_read_size g = 0)) (\<lambda>_.
     bnd (assertion (block < cfg_block_count g)) (\<lambda>_.
     bnd (gets rambd_buffer) (\<lambda>buf.
     mem_read buf (unat (block * cfg_block_size g + off)) (unat sz)))))"

text \<open>The loop that checks that the region holds the erase value before it is programmed.\<close>

definition rambd_region_erased :: "u8 list \<Rightarrow> int \<Rightarrow> u32 \<Rightarrow> nat \<Rightarrow> bool" where
  "rambd_region_erased buf v start n =
     list_all (\<lambda>i. let k = unat (start + of_nat i) in k < length buf \<and> uint (buf ! k) = v) [0..<n]"

definition lfs_rambd_prog ::
  "'z lfs_geometry_scheme \<Rightarrow> u32 \<Rightarrow> u32 \<Rightarrow> u8 list \<Rightarrow> (lfs_rambd, unit) cmd" where
  "lfs_rambd_prog g block off xs =
     bnd (assertion (off mod cfg_prog_size g = 0)) (\<lambda>_.
     bnd (assertion (of_nat (length xs) mod cfg_prog_size g = 0)) (\<lambda>_.
     bnd (assertion (block < cfg_block_count g)) (\<lambda>_.
     bnd (gets rambd_buffer) (\<lambda>buf.
     bnd (gets (rbcfg_erase_value \<circ> rambd_cfg)) (\<lambda>v.
     bnd (assertion (v = - 1 \<or>
            rambd_region_erased buf v (block * cfg_block_size g + off) (length xs))) (\<lambda>_.
     bnd (mem_write buf (unat (block * cfg_block_size g + off)) xs) (\<lambda>buf'.
     modify (\<lambda>bd. bd\<lparr>rambd_buffer := buf'\<rparr>))))))))"

definition lfs_rambd_erase :: "'z lfs_geometry_scheme \<Rightarrow> u32 \<Rightarrow> (lfs_rambd, unit) cmd" where
  "lfs_rambd_erase g block =
     bnd (assertion (block < cfg_block_count g)) (\<lambda>_.
     bnd (gets rambd_buffer) (\<lambda>buf.
     bnd (gets (rbcfg_erase_value \<circ> rambd_cfg)) (\<lambda>v.
     if v \<noteq> - 1 then
       bnd (mem_write buf (unat (block * cfg_block_size g))
              (replicate (unat (cfg_block_size g)) (word_of_int v))) (\<lambda>buf'.
       modify (\<lambda>bd. bd\<lparr>rambd_buffer := buf'\<rparr>))
     else ret ())))"

definition lfs_rambd_sync :: "(lfs_rambd, unit) cmd" where
  "lfs_rambd_sync = ret ()"

text \<open>The configuration that points the library at this device.\<close>

definition rambd_config :: "lfs_geometry \<Rightarrow> lfs_rambd lfs_config" where
  "rambd_config g = lfs_geometry.extend g
     \<lparr>cfg_read = lfs_rambd_read g, cfg_prog = lfs_rambd_prog g,
      cfg_erase = lfs_rambd_erase g, cfg_sync = lfs_rambd_sync\<rparr>"

lemma rambd_config_simps [simp]:
  "cfg_read (rambd_config g) = lfs_rambd_read g" "cfg_prog (rambd_config g) = lfs_rambd_prog g"
  "cfg_erase (rambd_config g) = lfs_rambd_erase g" "cfg_sync (rambd_config g) = lfs_rambd_sync"
  "cfg_read_size (rambd_config g) = cfg_read_size g"
  "cfg_prog_size (rambd_config g) = cfg_prog_size g"
  "cfg_block_size (rambd_config g) = cfg_block_size g"
  "cfg_block_count (rambd_config g) = cfg_block_count g"
  "cfg_cache_size (rambd_config g) = cfg_cache_size g"
  "cfg_lookahead_size (rambd_config g) = cfg_lookahead_size g"
  "cfg_block_cycles (rambd_config g) = cfg_block_cycles g"
  "cfg_name_max (rambd_config g) = cfg_name_max g" "cfg_file_max (rambd_config g) = cfg_file_max g"
  "cfg_attr_max (rambd_config g) = cfg_attr_max g"
  "cfg_metadata_max (rambd_config g) = cfg_metadata_max g"
  "wf_geometry (rambd_config g) = wf_geometry g"
  by (simp_all add: rambd_config_def lfs_geometry.defs wf_geometry_def)

section \<open>The device provides the interface\<close>

definition rambd_contents :: "lfs_geometry \<Rightarrow> lfs_rambd \<Rightarrow> u32 \<Rightarrow> u8 list" where
  "rambd_contents g d b =
     seg (rambd_buffer d) (unat b * unat (cfg_block_size g)) (unat (cfg_block_size g))"

definition rambd_erased :: "lfs_geometry \<Rightarrow> lfs_rambd \<Rightarrow> u32 \<Rightarrow> nat \<Rightarrow> bool" where
  "rambd_erased g d b i \<longleftrightarrow>
     rbcfg_erase_value (rambd_cfg d) = - 1 \<or>
     uint (rambd_contents g d b ! i) = rbcfg_erase_value (rambd_cfg d)"

definition rambd_valid :: "lfs_geometry \<Rightarrow> lfs_rambd \<Rightarrow> bool" where
  "rambd_valid g d \<longleftrightarrow>
     wf_geometry g \<and>
     length (rambd_buffer d) = unat (cfg_block_size g) * unat (cfg_block_count g) \<and>
     - 1 \<le> rbcfg_erase_value (rambd_cfg d) \<and> rbcfg_erase_value (rambd_cfg d) < 256"

lemma rambd_validD:
  assumes "rambd_valid g d"
  shows "wf_geometry g"
    and "length (rambd_buffer d) = unat (cfg_block_size g) * unat (cfg_block_count g)"
    and "unat (cfg_block_size g) * unat (cfg_block_count g) < 4294967296"
  using assms wf_geometryD(12) by (auto simp: rambd_valid_def)

lemma mult_block_le: "b < n \<Longrightarrow> i \<le> s \<Longrightarrow> b * s + i \<le> s * (n :: nat)"
  using mult_le_mono [of "Suc b" n s s] by (simp add: mult.commute)

lemma rambd_addr:
  assumes "rambd_valid g d" and "b < cfg_block_count g"
    and "unat off + n \<le> unat (cfg_block_size g)"
  shows "unat (b * cfg_block_size g + off) = unat b * unat (cfg_block_size g) + unat off"
    and "unat b * unat (cfg_block_size g) + unat off + n \<le> length (rambd_buffer d)"
proof -
  have le: "unat b * unat (cfg_block_size g) + (unat off + n)
      \<le> unat (cfg_block_size g) * unat (cfg_block_count g)"
    using assms by (intro mult_block_le) (simp_all add: u32_less)
  then have less: "unat b * unat (cfg_block_size g) + unat off < 4294967296"
    using rambd_validD(3) [OF assms(1)] by linarith
  then have "unat (b * cfg_block_size g) = unat b * unat (cfg_block_size g)"
    by (intro unat_mult_u32) simp
  with less show "unat (b * cfg_block_size g + off) = unat b * unat (cfg_block_size g) + unat off"
    by (simp add: unat_add_u32)
  from le show "unat b * unat (cfg_block_size g) + unat off + n \<le> length (rambd_buffer d)"
    using rambd_validD(2) [OF assms(1)] by simp
qed

lemma length_rambd_contents:
  "rambd_valid g d \<Longrightarrow> b < cfg_block_count g \<Longrightarrow>
     length (rambd_contents g d b) = unat (cfg_block_size g)"
  using rambd_addr(2) [of g d b 0 "unat (cfg_block_size g)"] by (simp add: rambd_contents_def)

lemma nth_rambd_contents:
  "rambd_valid g d \<Longrightarrow> b < cfg_block_count g \<Longrightarrow> i < unat (cfg_block_size g) \<Longrightarrow>
     rambd_contents g d b ! i = rambd_buffer d ! (unat b * unat (cfg_block_size g) + i)"
  using rambd_addr(2) [of g d b 0 "unat (cfg_block_size g)"]
  by (simp add: rambd_contents_def nth_seg)

lemma rambd_read_ok:
  assumes "rambd_valid g d" and "b < cfg_block_count g"
    and "unat off + unat sz \<le> unat (cfg_block_size g)"
    and "unat (cfg_read_size g) dvd unat off" and "unat (cfg_read_size g) dvd unat sz"
  shows "lfs_rambd_read g b off sz d = (Ok (seg (rambd_contents g d b) (unat off) (unat sz)), d)"
  using assms rambd_addr [OF assms(1-3)]
  by (simp add: lfs_rambd_read_def cmd_simps u32_mod_0 rambd_contents_def seg_seg)
    (simp add: seg_def)

text \<open>Replacing bytes of one block, seen through \<^const>\<open>rambd_contents\<close>.\<close>

lemma rambd_contents_patch:
  assumes v: "rambd_valid g d" and b: "b < cfg_block_count g"
    and le: "off + length xs \<le> unat (cfg_block_size g)"
    and d': "d' = d\<lparr>rambd_buffer := patch (rambd_buffer d) (unat b * unat (cfg_block_size g) + off) xs\<rparr>"
  shows "rambd_valid g d'"
    and "rambd_contents g d' b = patch (rambd_contents g d b) off xs"
    and "b' < cfg_block_count g \<Longrightarrow> b' \<noteq> b \<Longrightarrow> rambd_contents g d' b' = rambd_contents g d b'"
proof -
  let ?bs = "unat (cfg_block_size g)" and ?buf = "rambd_buffer d"
  have whole: "unat b * ?bs + ?bs \<le> length ?buf"
    using rambd_addr(2) [OF v b, of 0 ?bs] by simp
  have len: "unat b * ?bs + off + length xs \<le> length ?buf" using whole le by linarith
  show v': "rambd_valid g d'" using v len by (simp add: rambd_valid_def d')
  show "rambd_contents g d' b = patch (rambd_contents g d b) off xs"
  proof (rule list_eq_segs)
    show "length (rambd_contents g d' b) = length (patch (rambd_contents g d b) off xs)"
      using length_rambd_contents [OF v b] length_rambd_contents [OF v' b] le by simp
    fix k assume "k < length (rambd_contents g d' b)"
    then have k: "k < ?bs" using length_rambd_contents [OF v' b] by simp
    have "rambd_contents g d' b ! k = rambd_buffer d' ! (unat b * ?bs + k)"
      using k by (rule nth_rambd_contents [OF v' b])
    then show "rambd_contents g d' b ! k = patch (rambd_contents g d b) off xs ! k"
      using len le k length_rambd_contents [OF v b] whole
      by (simp add: nth_rambd_contents [OF v b] nth_patch d')
  qed
  assume b': "b' < cfg_block_count g" "b' \<noteq> b"
  show "rambd_contents g d' b' = rambd_contents g d b'"
  proof (cases "unat b' < unat b")
    case True
    then have "unat b' * ?bs + ?bs \<le> unat b * ?bs + off"
      using mult_block_le [of "unat b'" "unat b" ?bs ?bs] by (simp add: mult.commute)
    then show ?thesis using len by (simp add: rambd_contents_def d' seg_patch_before)
  next
    case False
    then have "unat b < unat b'" using b'(2) by (simp add: u32_eq)
    then have "unat b * ?bs + off + length xs \<le> unat b' * ?bs"
      using mult_block_le [of "unat b" "unat b'" ?bs ?bs] le by (simp add: mult.commute)
    then show ?thesis using len by (simp add: rambd_contents_def d' seg_patch_after)
  qed
qed

lemma uint_word_of_int_byte: "0 \<le> v \<Longrightarrow> v < 256 \<Longrightarrow> uint (word_of_int v :: u8) = v"
  by (simp add: uint_word_of_int)

lemma rambd_region_erased_iff:
  assumes "rambd_valid g d" and "b < cfg_block_count g"
    and le: "unat off + n \<le> unat (cfg_block_size g)"
    and er: "\<And>i. unat off \<le> i \<Longrightarrow> i < unat off + n \<Longrightarrow> rambd_erased g d b i"
    and ne: "rbcfg_erase_value (rambd_cfg d) \<noteq> - 1"
  shows "rambd_region_erased (rambd_buffer d) (rbcfg_erase_value (rambd_cfg d))
           (b * cfg_block_size g + off) n"
proof -
  have "unat (b * cfg_block_size g + off + of_nat i) < length (rambd_buffer d) \<and>
      uint (rambd_buffer d ! unat (b * cfg_block_size g + off + of_nat i)) =
        rbcfg_erase_value (rambd_cfg d)" if i: "i < n" for i
  proof -
    have "i < 4294967296" "unat off + i < 4294967296"
      using i le unat_less_u32 [of "cfg_block_size g"] by linarith+
    then have off: "unat (off + of_nat i) = unat off + i"
      by (simp add: unat_add_u32 unat_of_nat_u32)
    have a: "unat (b * cfg_block_size g + (off + of_nat i)) =
        unat b * unat (cfg_block_size g) + (unat off + i)"
      and l: "unat b * unat (cfg_block_size g) + (unat off + i) + 1 \<le> length (rambd_buffer d)"
      using rambd_addr [OF assms(1,2), of "off + of_nat i" 1] off i le by simp_all
    have "uint (rambd_contents g d b ! (unat off + i)) = rbcfg_erase_value (rambd_cfg d)"
      using er [of "unat off + i"] i ne by (simp add: rambd_erased_def)
    then show ?thesis using a l i le
      by (simp add: nth_rambd_contents [OF assms(1,2)] add.assoc)
  qed
  then show ?thesis by (simp add: rambd_region_erased_def list_all_iff Let_def)
qed

lemma rambd_erased_frame:
  assumes v: "rambd_valid g d" and b: "b < cfg_block_count g"
    and le: "off + length xs \<le> unat (cfg_block_size g)"
    and d': "d' = d\<lparr>rambd_buffer := patch (rambd_buffer d) (unat b * unat (cfg_block_size g) + off) xs\<rparr>"
    and "b' < cfg_block_count g" and "b' \<noteq> b \<or> i < off \<or> off + length xs \<le> i"
    and "rambd_erased g d b' i"
  shows "rambd_erased g d' b' i"
proof (cases "b' = b")
  case False
  then show ?thesis
    using rambd_contents_patch(3) [OF v b le d' assms(5)] assms(7) by (simp add: rambd_erased_def d')
next
  case True
  have "patch (rambd_contents g d b) off xs ! i = rambd_contents g d b ! i"
    using True assms(6) le length_rambd_contents [OF v b]
    by (auto simp: patch_def nth_append min_def)
      (metis add_diff_cancel_left' add_leD1 le_antisym)
  then show ?thesis
    using rambd_contents_patch(2) [OF v b le d'] assms(7) True by (simp add: rambd_erased_def d')
qed

lemma rambd_prog_ok:
  assumes "rambd_valid g d" and "b < cfg_block_count g"
    and "unat off + length xs \<le> unat (cfg_block_size g)"
    and "unat (cfg_prog_size g) dvd unat off" and "unat (cfg_prog_size g) dvd length xs"
    and "\<And>i. unat off \<le> i \<Longrightarrow> i < unat off + length xs \<Longrightarrow> rambd_erased g d b i"
  shows "lfs_rambd_prog g b off xs d =
     (Ok (), d\<lparr>rambd_buffer := patch (rambd_buffer d) (unat b * unat (cfg_block_size g) + unat off) xs\<rparr>)"
proof -
  have "length xs < 4294967296" using assms(3) unat_less_u32 [of "cfg_block_size g"] by linarith
  moreover have "rbcfg_erase_value (rambd_cfg d) = - 1 \<or>
     rambd_region_erased (rambd_buffer d) (rbcfg_erase_value (rambd_cfg d))
           (b * cfg_block_size g + off) (length xs)"
    using rambd_region_erased_iff [OF assms(1-3) assms(6)] by blast
  ultimately show ?thesis
    using assms(2-5) rambd_addr [OF assms(1-3)]
    by (simp add: lfs_rambd_prog_def cmd_simps u32_mod_0 unat_of_nat_u32)
qed

lemma rambd_prog_law:
  assumes "rambd_valid g d" and "b < cfg_block_count g"
    and "unat off + length xs \<le> unat (cfg_block_size g)"
    and "unat (cfg_prog_size g) dvd unat off" and "unat (cfg_prog_size g) dvd length xs"
    and "\<And>i. unat off \<le> i \<Longrightarrow> i < unat off + length xs \<Longrightarrow> rambd_erased g d b i"
  shows "\<exists>d'. lfs_rambd_prog g b off xs d = (Ok (), d') \<and> rambd_valid g d' \<and>
     rambd_contents g d' b = patch (rambd_contents g d b) (unat off) xs \<and>
     (\<forall>b'. b' < cfg_block_count g \<longrightarrow> b' \<noteq> b \<longrightarrow> rambd_contents g d' b' = rambd_contents g d b') \<and>
     (\<forall>b' i. b' < cfg_block_count g \<longrightarrow> (b' \<noteq> b \<or> i < unat off \<or> unat off + length xs \<le> i) \<longrightarrow>
        rambd_erased g d b' i \<longrightarrow> rambd_erased g d' b' i)"
  using rambd_prog_ok [OF assms] rambd_contents_patch [OF assms(1-3) refl]
    rambd_erased_frame [OF assms(1-3) refl] by blast

lemma rambd_erase_law:
  assumes v: "rambd_valid g d" and b: "b < cfg_block_count g"
  shows "\<exists>d'. lfs_rambd_erase g b d = (Ok (), d') \<and> rambd_valid g d' \<and>
     (\<forall>i < unat (cfg_block_size g). rambd_erased g d' b i) \<and>
     (\<forall>b'. b' < cfg_block_count g \<longrightarrow> b' \<noteq> b \<longrightarrow> rambd_contents g d' b' = rambd_contents g d b') \<and>
     (\<forall>b' i. b' < cfg_block_count g \<longrightarrow> b' \<noteq> b \<longrightarrow> rambd_erased g d b' i \<longrightarrow> rambd_erased g d' b' i)"
proof (cases "rbcfg_erase_value (rambd_cfg d) = - 1")
  case True
  then show ?thesis
    using v b by (auto simp: lfs_rambd_erase_def cmd_simps rambd_erased_def)
next
  case False
  define fill where
    "fill = (replicate (unat (cfg_block_size g)) (word_of_int (rbcfg_erase_value (rambd_cfg d))) :: u8 list)"
  define d' where
    "d' = d\<lparr>rambd_buffer := patch (rambd_buffer d) (unat b * unat (cfg_block_size g) + 0) fill\<rparr>"
  have le: "0 + length fill \<le> unat (cfg_block_size g)" by (simp add: fill_def)
  have "lfs_rambd_erase g b d = (Ok (), d')"
    using False b rambd_addr [OF v b, of 0 "length fill"]
    by (simp add: lfs_rambd_erase_def cmd_simps d'_def fill_def)
  moreover have "rambd_erased g d' b i" if "i < unat (cfg_block_size g)" for i
  proof -
    have "rambd_contents g d' b ! i = word_of_int (rbcfg_erase_value (rambd_cfg d))"
      using rambd_contents_patch(2) [OF v b le d'_def] that by (simp add: patch_def fill_def nth_append)
    then show ?thesis
      using v False by (simp add: rambd_erased_def d'_def rambd_valid_def uint_word_of_int_byte)
  qed
  ultimately show ?thesis
    using rambd_contents_patch(1,3) [OF v b le d'_def] rambd_erased_frame [OF v b le d'_def] by blast
qed

interpretation rambd: block_device "rambd_config g" "rambd_contents g" "rambd_erased g"
    "rambd_valid g" for g
  by (unfold_locales; unfold rambd_config_simps)
    (simp_all only: rambd_validD(1) length_rambd_contents rambd_read_ok rambd_prog_law
      rambd_erase_law lfs_rambd_sync_def ret_def, auto)

text \<open>A created device is valid, and reads as the erase value (zero when there is none).\<close>

lemma rambd_createcfg_ok:
  assumes "wf_geometry g" and "- 1 \<le> rbcfg_erase_value bdcfg" and "rbcfg_erase_value bdcfg < 256"
    and "rbcfg_buffer bdcfg = None"
    and "fresh (unat (cfg_block_size g) * unat (cfg_block_count g)) = Some buf"
    and "length buf = unat (cfg_block_size g) * unat (cfg_block_count g)"
  shows "\<exists>d. lfs_rambd_createcfg g bdcfg fresh = Ok d \<and> rambd_valid g d \<and>
     (\<forall>b. b < cfg_block_count g \<longrightarrow> rambd_contents g d b = replicate (unat (cfg_block_size g))
        (if rbcfg_erase_value bdcfg = - 1 then 0 else word_of_int (rbcfg_erase_value bdcfg)))"
proof -
  let ?n = "unat (cfg_block_size g) * unat (cfg_block_count g)"
  let ?v = "if rbcfg_erase_value bdcfg = - 1 then 0 else word_of_int (rbcfg_erase_value bdcfg) :: u8"
  define d where "d = \<lparr>rambd_buffer = replicate ?n ?v, rambd_cfg = bdcfg\<rparr>"
  have n: "unat (cfg_block_size g * cfg_block_count g) = ?n"
    using wf_geometryD(12) [OF assms(1)] by (rule unat_mult_u32)
  have "lfs_rambd_createcfg g bdcfg fresh = Ok d"
    using assms(4-6) by (simp add: lfs_rambd_createcfg_def n Let_def patch_def d_def)
  moreover have v: "rambd_valid g d" using assms by (simp add: rambd_valid_def d_def)
  moreover have "rambd_contents g d b = replicate (unat (cfg_block_size g)) ?v"
    if "b < cfg_block_count g" for b
    using rambd_addr(2) [OF v that, of 0 "unat (cfg_block_size g)"]
    by (simp add: rambd_contents_def d_def seg_def)
  ultimately show ?thesis by blast
qed

end
