(* ===== verification/LFS_Bd.thy ===== *)
theory LFS_Bd
  imports LFS_Rambd
begin

text \<open>
  The caching block-device layer, \<^verbatim>\<open>src/src/lfs/lfs.c\<close> from \<^verbatim>\<open>lfs_cache_drop\<close> to
  \<^verbatim>\<open>lfs_bd_erase\<close>.  A read works on the state (read cache, device) and gets the program cache
  as a value, since it only reads it; flush, sync and program work on (program cache, (read cache,
  device)).  The configuration is the argument \<open>c\<close>.  The loops carry fuel.  The theorems are proved
  for every device with the interface \<open>block_device\<close>.
\<close>

section \<open>The operations\<close>

definition lfs_cache_drop :: "lfs_cache \<Rightarrow> lfs_cache" where
  "lfs_cache_drop r = r\<lparr>cache_block := LFS_BLOCK_NULL\<rparr>"

definition lfs_cache_zero :: "'d lfs_config \<Rightarrow> lfs_cache \<Rightarrow> lfs_cache" where
  "lfs_cache_zero c p =
     p\<lparr>cache_buffer := patch (cache_buffer p) 0 (replicate (unat (cfg_cache_size c)) 0xff),
       cache_block := LFS_BLOCK_NULL\<rparr>"

text \<open>
  The test of a cache in the read loop: \<open>Inl diff\<close> when the byte at \<open>off\<close> is in the cache and
  \<open>diff\<close> bytes can be copied, \<open>Inr diff\<close> when it is not, and the next access is limited to \<open>diff\<close>
  bytes because the cache takes priority after it.
\<close>

definition cache_lookup :: "lfs_cache \<Rightarrow> u32 \<Rightarrow> u32 \<Rightarrow> u32 \<Rightarrow> u32 + u32" where
  "cache_lookup p block off diff =
     (if block = cache_block p \<and> off < cache_off p + cache_size p
      then if cache_off p \<le> off then Inl (lfs_min diff (cache_size p - (off - cache_off p)))
           else Inr (lfs_min diff (cache_off p - off))
      else Inr diff)"

definition cache_copy :: "lfs_cache \<Rightarrow> u32 \<Rightarrow> u32 \<Rightarrow> ('s, u8 list) cmd" where
  "cache_copy p off diff = mem_read (cache_buffer p) (unat (off - cache_off p)) (unat diff)"

text \<open>The read cache is told what it holds before the device is asked for it.\<close>

definition lfs_bd_load ::
  "'d lfs_config \<Rightarrow> u32 \<Rightarrow> u32 \<Rightarrow> u32 \<Rightarrow> (lfs_cache \<times> 'd, unit) cmd" where
  "lfs_bd_load c hint block off =
     bnd (assertion (block < cfg_block_count c)) (\<lambda>_.
     bnd (gets fst) (\<lambda>r.
     let roff = lfs_aligndown off (cfg_read_size c);
         rsize = lfs_min (lfs_min (lfs_alignup (off + hint) (cfg_read_size c)) (cfg_block_size c) - roff)
                         (cfg_cache_size c)
     in bnd (modify (\<lambda>(r, d). (r\<lparr>cache_block := block, cache_off := roff, cache_size := rsize\<rparr>, d))) (\<lambda>_.
        bnd (on_snd (cfg_read c block roff rsize)) (\<lambda>xs.
        bnd (mem_write (cache_buffer r) 0 xs) (\<lambda>buf.
        modify (\<lambda>(r, d). (r\<lparr>cache_buffer := buf\<rparr>, d)))))))"

fun bd_read_loop ::
  "'d lfs_config \<Rightarrow> lfs_cache option \<Rightarrow> u32 \<Rightarrow> u32 \<Rightarrow> nat \<Rightarrow> u32 \<Rightarrow> u32 \<Rightarrow>
     (lfs_cache \<times> 'd, u8 list) cmd" where
  "bd_read_loop c pcache hint block 0 off sz = stuck Out_Of_Fuel"
| "bd_read_loop c pcache hint block (Suc n) off sz =
     (if sz = 0 then ret [] else
      let more = (\<lambda>diff xs.
            bnd (bd_read_loop c pcache hint block n (off + diff) (sz - diff)) (\<lambda>ys. ret (xs @ ys)))
      in case (case pcache of None \<Rightarrow> Inr sz
                 | Some p \<Rightarrow> map_sum (\<lambda>diff. (diff, p)) id (cache_lookup p block off sz)) of
           Inl (diff, p) \<Rightarrow> bnd (cache_copy p off diff) (more diff)
         | Inr limit \<Rightarrow>
             bnd (gets fst) (\<lambda>r.
             case cache_lookup r block off limit of
               Inl diff \<Rightarrow> bnd (cache_copy r off diff) (more diff)
             | Inr limit' \<Rightarrow>
                 if hint \<le> sz \<and> off mod cfg_read_size c = 0 \<and> cfg_read_size c \<le> sz then
                   let diff = lfs_aligndown limit' (cfg_read_size c)
                   in bnd (on_snd (cfg_read c block off diff)) (more diff)
                 else
                   bnd (lfs_bd_load c hint block off) (\<lambda>_.
                   bd_read_loop c pcache hint block n off sz)))"

definition lfs_bd_read ::
  "'d lfs_config \<Rightarrow> lfs_cache option \<Rightarrow> u32 \<Rightarrow> u32 \<Rightarrow> u32 \<Rightarrow> u32 \<Rightarrow>
     (lfs_cache \<times> 'd, u8 list) cmd" where
  "lfs_bd_read c pcache hint block off sz =
     (if cfg_block_count c \<le> block \<or> cfg_block_size c < off + sz then throw LFS_ERR_CORRUPT
      else bd_read_loop c pcache hint block (2 * unat sz + 1) off sz)"

datatype lfs_cmp = LFS_CMP_EQ | LFS_CMP_LT | LFS_CMP_GT

text \<open>\<open>memcmp\<close> on two buffers of the same length.\<close>

fun memcmp :: "u8 list \<Rightarrow> u8 list \<Rightarrow> lfs_cmp" where
  "memcmp (x # xs) (y # ys) =
     (if x < y then LFS_CMP_LT else if y < x then LFS_CMP_GT else memcmp xs ys)"
| "memcmp _ _ = LFS_CMP_EQ"

fun bd_cmp_loop ::
  "'d lfs_config \<Rightarrow> lfs_cache option \<Rightarrow> u32 \<Rightarrow> u32 \<Rightarrow> u32 \<Rightarrow> u8 list \<Rightarrow> u32 \<Rightarrow> nat \<Rightarrow> u32 \<Rightarrow>
     (lfs_cache \<times> 'd, lfs_cmp) cmd" where
  "bd_cmp_loop c pcache hint block off data sz 0 i = stuck Out_Of_Fuel"
| "bd_cmp_loop c pcache hint block off data sz (Suc n) i =
     (if i < sz then
        let diff = lfs_min (sz - i) 8
        in bnd (lfs_bd_read c pcache (hint - i) block (off + i) diff) (\<lambda>dat.
           bnd (mem_read data (unat i) (unat diff)) (\<lambda>xs.
           if memcmp dat xs \<noteq> LFS_CMP_EQ then ret (memcmp dat xs)
           else bd_cmp_loop c pcache hint block off data sz n (i + diff)))
      else ret LFS_CMP_EQ)"

definition lfs_bd_cmp ::
  "'d lfs_config \<Rightarrow> lfs_cache option \<Rightarrow> u32 \<Rightarrow> u32 \<Rightarrow> u32 \<Rightarrow> u8 list \<Rightarrow> u32 \<Rightarrow>
     (lfs_cache \<times> 'd, lfs_cmp) cmd" where
  "lfs_bd_cmp c pcache hint block off data sz =
     bd_cmp_loop c pcache hint block off data sz (unat sz + 1) 0"

text \<open>The read back after a program: \<^verbatim>\<open>if (validate) { ... }\<close> of the flush.\<close>

definition bd_flush_check ::
  "'d lfs_config \<Rightarrow> bool \<Rightarrow> lfs_cache \<Rightarrow> u32 \<Rightarrow> (lfs_cache \<times> (lfs_cache \<times> 'd), unit) cmd" where
  "bd_flush_check c validate p diff =
     (if validate then
        bnd (modify (\<lambda>(p, r, d). (p, lfs_cache_drop r, d))) (\<lambda>_.
        bnd (on_snd (lfs_bd_cmp c None diff (cache_block p) (cache_off p) (cache_buffer p) diff)) (\<lambda>res.
        if res \<noteq> LFS_CMP_EQ then throw LFS_ERR_CORRUPT else ret ()))
      else ret ())"

definition lfs_bd_flush :: "'d lfs_config \<Rightarrow> bool \<Rightarrow> (lfs_cache \<times> (lfs_cache \<times> 'd), unit) cmd" where
  "lfs_bd_flush c validate =
     bnd (gets fst) (\<lambda>p.
     if cache_block p \<noteq> LFS_BLOCK_NULL \<and> cache_block p \<noteq> LFS_BLOCK_INLINE then
       bnd (assertion (cache_block p < cfg_block_count c)) (\<lambda>_.
       let diff = lfs_alignup (cache_size p) (cfg_prog_size c)
       in bnd (mem_read (cache_buffer p) 0 (unat diff)) (\<lambda>xs.
          bnd (on_snd (on_snd (cfg_prog c (cache_block p) (cache_off p) xs))) (\<lambda>_.
          bnd (bd_flush_check c validate p diff) (\<lambda>_.
          modify (\<lambda>(p, rd). (lfs_cache_zero c p, rd))))))
     else ret ())"

definition lfs_bd_sync :: "'d lfs_config \<Rightarrow> bool \<Rightarrow> (lfs_cache \<times> (lfs_cache \<times> 'd), unit) cmd" where
  "lfs_bd_sync c validate =
     bnd (modify (\<lambda>(p, r, d). (p, lfs_cache_drop r, d))) (\<lambda>_.
     bnd (lfs_bd_flush c validate) (\<lambda>_.
     on_snd (on_snd (cfg_sync c))))"

fun bd_prog_loop ::
  "'d lfs_config \<Rightarrow> bool \<Rightarrow> u32 \<Rightarrow> nat \<Rightarrow> u32 \<Rightarrow> u8 list \<Rightarrow>
     (lfs_cache \<times> (lfs_cache \<times> 'd), unit) cmd" where
  "bd_prog_loop c validate block 0 off data = stuck Out_Of_Fuel"
| "bd_prog_loop c validate block (Suc n) off data =
     (if data = [] then ret () else
      bnd (gets fst) (\<lambda>p.
      if block = cache_block p \<and> cache_off p \<le> off \<and> off < cache_off p + cfg_cache_size c then
        let diff = lfs_min (of_nat (length data)) (cfg_cache_size c - (off - cache_off p));
            off' = off + diff;
            psize = lfs_max (cache_size p) (off' - cache_off p)
        in bnd (mem_write (cache_buffer p) (unat (off - cache_off p)) (take (unat diff) data)) (\<lambda>buf.
           bnd (modify (\<lambda>(p, rd). (p\<lparr>cache_buffer := buf, cache_size := psize\<rparr>, rd))) (\<lambda>_.
           bnd (if psize = cfg_cache_size c then lfs_bd_flush c validate else ret ()) (\<lambda>_.
           bd_prog_loop c validate block n off' (drop (unat diff) data))))
      else
        bnd (assertion (cache_block p = LFS_BLOCK_NULL)) (\<lambda>_.
        bnd (modify (\<lambda>(p, rd). (p\<lparr>cache_block := block,
               cache_off := lfs_aligndown off (cfg_prog_size c), cache_size := 0\<rparr>, rd))) (\<lambda>_.
        bd_prog_loop c validate block n off data))))"

definition lfs_bd_prog ::
  "'d lfs_config \<Rightarrow> bool \<Rightarrow> u32 \<Rightarrow> u32 \<Rightarrow> u8 list \<Rightarrow> (lfs_cache \<times> (lfs_cache \<times> 'd), unit) cmd" where
  "lfs_bd_prog c validate block off data =
     bnd (assertion (block = LFS_BLOCK_INLINE \<or> block < cfg_block_count c)) (\<lambda>_.
     bnd (assertion (off + of_nat (length data) \<le> cfg_block_size c)) (\<lambda>_.
     bd_prog_loop c validate block (2 * length data + 1) off data))"

definition lfs_bd_erase :: "'d lfs_config \<Rightarrow> u32 \<Rightarrow> ('d, unit) cmd" where
  "lfs_bd_erase c block = bnd (assertion (block < cfg_block_count c)) (\<lambda>_. cfg_erase c block)"

section \<open>What the caches stand for\<close>

text \<open>
  The contents of a block as the library sees it: the program cache over the device.  A read
  cache is coherent when the part it claims to hold is what the device holds.
\<close>

definition overlay :: "lfs_cache option \<Rightarrow> (u32 \<Rightarrow> u8 list) \<Rightarrow> u32 \<Rightarrow> u8 list" where
  "overlay pcache cont b = (case pcache of
      None \<Rightarrow> cont b
    | Some p \<Rightarrow> if b = cache_block p
        then patch (cont b) (unat (cache_off p)) (seg (cache_buffer p) 0 (unat (cache_size p)))
        else cont b)"

lemma overlay_None [simp]: "overlay None cont = cont"
  by (rule ext) (simp add: overlay_def)

definition cache_inside :: "'z lfs_geometry_scheme \<Rightarrow> lfs_cache \<Rightarrow> bool" where
  "cache_inside c p \<longleftrightarrow>
     length (cache_buffer p) = unat (cfg_cache_size c) \<and>
     (cache_block p < cfg_block_count c \<longrightarrow>
        cache_size p \<le> cfg_cache_size c \<and>
        unat (cache_off p) + unat (cache_size p) \<le> unat (cfg_block_size c) \<and>
        unat (cfg_read_size c) dvd unat (cache_off p))"

definition cache_coherent ::
  "'z lfs_geometry_scheme \<Rightarrow> (u32 \<Rightarrow> u8 list) \<Rightarrow> lfs_cache \<Rightarrow> bool" where
  "cache_coherent c cont r \<longleftrightarrow> cache_inside c r \<and>
     (cache_block r < cfg_block_count c \<longrightarrow>
        seg (cache_buffer r) 0 (unat (cache_size r)) =
        seg (cont (cache_block r)) (unat (cache_off r)) (unat (cache_size r)))"

definition cache_hit :: "lfs_cache \<Rightarrow> u32 \<Rightarrow> u32 \<Rightarrow> bool" where
  "cache_hit p b off \<longleftrightarrow> b = cache_block p \<and> unat (cache_off p) \<le> unat off \<and>
     unat off < unat (cache_off p) + unat (cache_size p)"

lemma cache_insideD:
  assumes "cache_inside c p" and "cache_block p < cfg_block_count c" and "wf_geometry c"
  shows "unat (cache_off p) + unat (cache_size p) \<le> unat (cfg_block_size c)"
    and "unat (cache_size p) \<le> length (cache_buffer p)"
    and "unat (cache_off p + cache_size p) = unat (cache_off p) + unat (cache_size p)"
    and "unat (cfg_read_size c) dvd unat (cache_off p)"
  using assms wf_geometryD(9) [OF assms(3)]
  by (auto simp: cache_inside_def u32_le intro!: unat_add_u32)

lemma cache_lookup_Inl:
  assumes "cache_lookup p b off lim = Inl k"
    and "cache_inside c p" and "b < cfg_block_count c" and "wf_geometry c"
  shows "cache_hit p b off" and "unat k \<le> unat lim"
    and "unat (off - cache_off p) = unat off - unat (cache_off p)"
    and "unat k \<le> unat (cache_off p) + unat (cache_size p) - unat off"
    and "0 < unat lim \<Longrightarrow> 0 < unat k"
proof -
  have b: "b = cache_block p" and l: "off < cache_off p + cache_size p"
    and o1: "cache_off p \<le> off" and k: "k = lfs_min lim (cache_size p - (off - cache_off p))"
    using assms(1) by (auto simp: cache_lookup_def split: if_splits)
  note i = cache_insideD [OF assms(2) assms(3) [unfolded b] assms(4)]
  show "cache_hit p b off" using b l o1 i(3) by (simp add: cache_hit_def u32_simps)
  show d: "unat (off - cache_off p) = unat off - unat (cache_off p)"
    using o1 by (simp add: unat_sub_u32 u32_simps)
  then have "unat (cache_size p - (off - cache_off p)) =
      unat (cache_size p) - (unat off - unat (cache_off p))"
    using l i(3) o1 by (simp add: unat_sub_u32 u32_simps)
  then have k': "unat k = min (unat lim) (unat (cache_size p) - (unat off - unat (cache_off p)))"
    using k by (simp add: unat_lfs_min)
  then show "unat k \<le> unat lim" by simp
  show "unat k \<le> unat (cache_off p) + unat (cache_size p) - unat off"
    using k' o1 by (simp add: u32_simps)
  show "0 < unat lim \<Longrightarrow> 0 < unat k"
    using k' l o1 i(3) by (simp add: u32_simps)
qed

lemma cache_lookup_Inr:
  assumes "cache_lookup p b off lim = Inr k"
    and "cache_inside c p" and "b < cfg_block_count c" and "wf_geometry c"
  shows "unat k \<le> unat lim"
    and "b = cache_block p \<Longrightarrow>
      unat (cache_off p) + unat (cache_size p) \<le> unat off \<or> unat off + unat k \<le> unat (cache_off p)"
    and "k = lim \<or> b = cache_block p \<and> unat off < unat (cache_off p) \<and>
      unat k = min (unat lim) (unat (cache_off p) - unat off)"
proof -
  have i: "b = cache_block p \<Longrightarrow> unat (cache_off p + cache_size p) =
      unat (cache_off p) + unat (cache_size p)"
    using cache_insideD(3) [OF assms(2) _ assms(4)] assms(3) by simp
  have sub: "off < cache_off p \<Longrightarrow> unat (cache_off p - off) = unat (cache_off p) - unat off"
    by (simp add: unat_sub_u32 u32_simps)
  show "unat k \<le> unat lim"
    using assms(1) by (auto simp: cache_lookup_def u32_simps split: if_splits)
  show "b = cache_block p \<Longrightarrow>
      unat (cache_off p) + unat (cache_size p) \<le> unat off \<or> unat off + unat k \<le> unat (cache_off p)"
    using assms(1) i sub by (auto simp: cache_lookup_def u32_simps split: if_splits)
  show "k = lim \<or> b = cache_block p \<and> unat off < unat (cache_off p) \<and>
      unat k = min (unat lim) (unat (cache_off p) - unat off)"
    using assms(1) sub by (auto simp: cache_lookup_def u32_simps split: if_splits)
qed

lemma seg_overlay_hit:
  assumes "cache_hit p b off" and "cache_inside c p" and "b < cfg_block_count c"
    and "wf_geometry c" and "length (cont b) = unat (cfg_block_size c)"
    and "k \<le> unat (cache_off p) + unat (cache_size p) - unat off"
  shows "seg (overlay (Some p) cont b) (unat off) k =
           seg (cache_buffer p) (unat off - unat (cache_off p)) k"
    and "unat off - unat (cache_off p) + k \<le> length (cache_buffer p)"
proof -
  have b: "b = cache_block p" "unat (cache_off p) \<le> unat off"
    "unat off < unat (cache_off p) + unat (cache_size p)" using assms(1) by (auto simp: cache_hit_def)
  note i = cache_insideD [OF assms(2) assms(3) [unfolded b(1)] assms(4)]
  let ?xs = "seg (cache_buffer p) 0 (unat (cache_size p))"
  have len: "length ?xs = unat (cache_size p)" using i(2) by simp
  have "seg (patch (cont b) (unat (cache_off p)) ?xs) (unat off) k = seg ?xs (unat off - unat (cache_off p)) k"
    using len b assms(5,6) i(1) by (intro seg_patch_inside) auto
  also have "\<dots> = seg (cache_buffer p) (unat off - unat (cache_off p)) k"
    using b assms(6) by (simp add: seg_seg)
  finally show "seg (overlay (Some p) cont b) (unat off) k =
      seg (cache_buffer p) (unat off - unat (cache_off p)) k"
    using b(1) by (simp add: overlay_def)
  show "unat off - unat (cache_off p) + k \<le> length (cache_buffer p)" using b i(2) assms(6) by simp
qed

lemma seg_overlay_miss:
  assumes "cache_inside c p" and "b < cfg_block_count c" and "wf_geometry c"
    and "length (cont b) = unat (cfg_block_size c)"
    and "b = cache_block p \<Longrightarrow>
      unat (cache_off p) + unat (cache_size p) \<le> off \<or> off + k \<le> unat (cache_off p)"
  shows "seg (overlay (Some p) cont b) off k = seg (cont b) off k"
proof (cases "b = cache_block p")
  case True
  note i = cache_insideD [OF assms(1) assms(2) [unfolded True] assms(3)]
  have len: "length (seg (cache_buffer p) 0 (unat (cache_size p))) = unat (cache_size p)"
    using i(2) by simp
  from assms(5) [OF True] show ?thesis
  proof
    assume "unat (cache_off p) + unat (cache_size p) \<le> off"
    then show ?thesis using True len i(1) assms(4) by (simp add: overlay_def seg_patch_after)
  next
    assume "off + k \<le> unat (cache_off p)"
    then show ?thesis using True i(1) assms(4) by (simp add: overlay_def seg_patch_before)
  qed
qed (simp add: overlay_def)

lemma length_overlay:
  assumes "\<And>p. pcache = Some p \<Longrightarrow> cache_inside c p" and "b < cfg_block_count c"
    and "wf_geometry c" and "length (cont b) = unat (cfg_block_size c)"
  shows "length (overlay pcache cont b) = unat (cfg_block_size c)"
proof (cases pcache)
  case (Some p)
  show ?thesis
  proof (cases "b = cache_block p")
    case True
    then show ?thesis
      using cache_insideD(1,2) [OF assms(1) [OF Some] _ assms(3)] assms(2,4) Some
      by (simp add: overlay_def)
  qed (simp add: Some overlay_def assms(4))
qed (simp add: overlay_def assms(4))

lemma seg_coherent_hit:
  assumes "cache_hit r b off" and "cache_coherent c cont r" and "b < cfg_block_count c"
    and "wf_geometry c"
    and "k \<le> unat (cache_off r) + unat (cache_size r) - unat off"
  shows "seg (cont b) (unat off) k = seg (cache_buffer r) (unat off - unat (cache_off r)) k"
    and "unat off - unat (cache_off r) + k \<le> length (cache_buffer r)"
proof -
  have b: "b = cache_block r" "unat (cache_off r) \<le> unat off" using assms(1) by (auto simp: cache_hit_def)
  have c: "cache_inside c r" "seg (cache_buffer r) 0 (unat (cache_size r)) =
      seg (cont b) (unat (cache_off r)) (unat (cache_size r))"
    using assms(2,3) b by (auto simp: cache_coherent_def)
  have hit: "unat off < unat (cache_off r) + unat (cache_size r)"
    using assms(1) by (simp add: cache_hit_def)
  have "seg (seg (cache_buffer r) 0 (unat (cache_size r))) (unat off - unat (cache_off r)) k =
        seg (seg (cont b) (unat (cache_off r)) (unat (cache_size r))) (unat off - unat (cache_off r)) k"
    using c(2) by simp
  then show "seg (cont b) (unat off) k = seg (cache_buffer r) (unat off - unat (cache_off r)) k"
    using b assms(5) hit by (simp add: seg_seg)
  show "unat off - unat (cache_off r) + k \<le> length (cache_buffer r)"
    using cache_insideD(2) [OF c(1) assms(3) [unfolded b(1)] assms(4)] assms(5) b hit by simp
qed

lemma cache_copy_ok:
  "unat (off - cache_off p) = i \<Longrightarrow> i + unat k \<le> length (cache_buffer p) \<Longrightarrow>
     cache_copy p off k = ret (seg (cache_buffer p) i (unat k))"
  by (simp add: cache_copy_def mem_read_def seg_def)

section \<open>Reading\<close>

text \<open>The geometry of the region that a load fetches.\<close>

lemma bd_load_region:
  assumes g: "wf_geometry c" and "unat off < unat (cfg_block_size c)"
    and "0 < unat hint" and "unat hint \<le> unat (cfg_block_size c)"
    and r: "roff = lfs_aligndown off (cfg_read_size c)"
      "rsize = lfs_min (lfs_min (lfs_alignup (off + hint) (cfg_read_size c)) (cfg_block_size c) - roff)
                       (cfg_cache_size c)"
  shows "unat roff \<le> unat off" and "unat off < unat roff + unat rsize"
    and "unat (cfg_read_size c) dvd unat roff" and "unat (cfg_read_size c) dvd unat rsize"
    and "unat roff + unat rsize \<le> unat (cfg_block_size c)"
    and "unat rsize \<le> unat (cfg_cache_size c)"
proof -
  note w = wf_geometryD [OF g]
  let ?rs = "unat (cfg_read_size c)"
  have rs: "?rs \<le> unat (cfg_cache_size c)" using w(3,4) by (rule dvd_imp_le [rotated])
  have ro: "unat roff = ?rs * (unat off div ?rs)" by (simp add: r(1) unat_lfs_aligndown_div)
  show o1: "unat roff \<le> unat off" by (simp add: ro)
  show d1: "?rs dvd unat roff" by (simp add: ro)
  have o2: "unat off < unat roff + ?rs"
  proof -
    have "unat off = ?rs * (unat off div ?rs) + unat off mod ?rs" by simp
    moreover have "unat off mod ?rs < ?rs" using w(1) by simp
    ultimately show ?thesis using ro by linarith
  qed
  have oh: "unat (off + hint) = unat off + unat hint"
    using assms(2,4) w(9) by (intro unat_add_u32) linarith
  define up where "up = ?rs * ((unat off + unat hint + ?rs - 1) div ?rs)"
  have ua: "unat (lfs_alignup (off + hint) (cfg_read_size c)) = up"
    unfolding up_def using assms(2,4) w(1,9,11) rs oh by (subst unat_lfs_alignup) auto
  have up: "unat off + unat hint \<le> up" unfolding up_def by (rule align_nat_bounds(1) [OF w(1)])
  define top where "top = min up (unat (cfg_block_size c))"
  have top: "unat off < top" "?rs dvd top" "top \<le> unat (cfg_block_size c)"
    using up assms(2,3) w(7) by (auto simp: top_def min_def up_def)
  have "unat (lfs_min (lfs_alignup (off + hint) (cfg_read_size c)) (cfg_block_size c) - roff) = top - unat roff"
    using o1 top(1) by (subst unat_sub_u32) (auto simp: unat_lfs_min ua top_def)
  then have rz: "unat rsize = min (top - unat roff) (unat (cfg_cache_size c))"
    by (simp add: r(2) unat_lfs_min)
  show "unat off < unat roff + unat rsize" using rz o1 o2 top(1) rs by simp
  show "?rs dvd unat rsize" using rz top(2) d1 w(4) by (auto simp: min_def dvd_diff_nat)
  show "unat roff + unat rsize \<le> unat (cfg_block_size c)" using rz o1 top by simp
  show "unat rsize \<le> unat (cfg_cache_size c)" using rz by simp
qed

text \<open>
  A lookup that misses leaves some bytes to fetch, and at least one read unit when the offset is
  aligned: the cached part starts at a multiple of the read size.
\<close>

lemma cache_lookup_limit:
  assumes "cache_lookup p b off lim = Inr k" and "cache_inside c p" and "b < cfg_block_count c"
    and "wf_geometry c" and "0 < unat lim"
  shows "0 < unat k"
    and "unat (cfg_read_size c) dvd unat off \<Longrightarrow> unat (cfg_read_size c) \<le> unat lim \<Longrightarrow>
      unat (cfg_read_size c) \<le> unat k"
proof -
  note l = cache_lookup_Inr [OF assms(1-4)]
  show "0 < unat k" using l(3) assms(5) by auto
  assume al: "unat (cfg_read_size c) dvd unat off" "unat (cfg_read_size c) \<le> unat lim"
  from l(3) show "unat (cfg_read_size c) \<le> unat k"
  proof (elim disjE conjE)
    assume b: "b = cache_block p" "unat off < unat (cache_off p)"
      and k: "unat k = min (unat lim) (unat (cache_off p) - unat off)"
    have "unat (cfg_read_size c) dvd unat (cache_off p) - unat off"
      using cache_insideD(4) [OF assms(2) assms(3) [unfolded b(1)] assms(4)] al(1)
      by (rule dvd_diff_nat)
    then have "unat (cfg_read_size c) \<le> unat (cache_off p) - unat off"
      using b(2) by (intro dvd_imp_le) auto
    with k al(2) show ?thesis by simp
  qed (use al in simp)
qed

lemma memcmp_append:
  "length xs = length ys \<Longrightarrow>
     memcmp (xs @ xs') (ys @ ys') = (if memcmp xs ys \<noteq> LFS_CMP_EQ then memcmp xs ys else memcmp xs' ys')"
  by (induction xs ys rule: list_induct2) auto

lemma memcmp_same [simp]: "memcmp xs xs = LFS_CMP_EQ"
  by (induction xs) auto

lemma memcmp_eq_iff: "length xs = length ys \<Longrightarrow> memcmp xs ys = LFS_CMP_EQ \<longleftrightarrow> xs = ys"
  by (induction xs ys rule: list_induct2) auto

lemma cache_coherent_drop:
  "wf_geometry c \<Longrightarrow> length (cache_buffer r) = unat (cfg_cache_size c) \<Longrightarrow>
     cache_coherent c cont (lfs_cache_drop r)"
  using block_reserved(1) [of c LFS_BLOCK_NULL]
  by (auto simp: cache_coherent_def cache_inside_def lfs_cache_drop_def)

context block_device begin

lemma bd_load_ok:
  assumes v: "valid d" and b: "b < cfg_block_count c" and o: "unat off < unat (cfg_block_size c)"
    and h: "0 < unat hint" "unat hint \<le> unat (cfg_block_size c)"
    and len: "length (cache_buffer r) = unat (cfg_cache_size c)"
  shows "wp (lfs_bd_load c hint b off)
    (okp (\<lambda>_ (r', d'). d' = d \<and> cache_coherent c (contents d) r' \<and> cache_hit r' b off)) (r, d)"
proof -
  note g = geometry [OF v]
  define roff where "roff = lfs_aligndown off (cfg_read_size c)"
  define rsize where "rsize = lfs_min (lfs_min (lfs_alignup (off + hint) (cfg_read_size c))
      (cfg_block_size c) - roff) (cfg_cache_size c)"
  note reg = bd_load_region [OF g o h roff_def rsize_def]
  have rd: "cfg_read c b roff rsize d = (Ok (seg (contents d b) (unat roff) (unat rsize)), d)"
    using read_ok [OF v b reg(5,3,4)] .
  define r' where "r' = r\<lparr>cache_block := b, cache_off := roff, cache_size := rsize,
      cache_buffer := patch (cache_buffer r) 0 (seg (contents d b) (unat roff) (unat rsize))\<rparr>"
  have l: "length (seg (contents d b) (unat roff) (unat rsize)) = unat rsize"
    using reg(5) length_contents [OF v b] by simp
  have "seg (patch (cache_buffer r) 0 (seg (contents d b) (unat roff) (unat rsize))) 0 (unat rsize)
      = seg (contents d b) (unat roff) (unat rsize)"
    using seg_patch_same [of 0 "seg (contents d b) (unat roff) (unat rsize)" "cache_buffer r"]
      l reg(6) len by simp
  then have "cache_coherent c (contents d) r'" "cache_hit r' b off"
    using reg len l by (simp_all add: cache_coherent_def cache_inside_def cache_hit_def r'_def u32_le)
  moreover have "lfs_bd_load c hint b off (r, d) = (Ok (), (r', d))"
    using b l reg(6) len
    by (simp add: lfs_bd_load_def cmd_simps Let_def roff_def [symmetric] rsize_def [symmetric] rd r'_def)
  ultimately show ?thesis by (simp add: wp_def)
qed

text \<open>
  What a program cache must satisfy for a read: it lies inside its block, and starts at a
  multiple of the read size.
\<close>

lemma bd_read_loop_ok:
  assumes v: "valid d" and b: "b < cfg_block_count c"
    and h: "0 < unat hint" "unat hint \<le> unat (cfg_block_size c)"
    and p: "\<And>p. pcache = Some p \<Longrightarrow> cache_inside c p"
  shows "cache_coherent c (contents d) r \<Longrightarrow> unat off + unat sz \<le> unat (cfg_block_size c) \<Longrightarrow>
    0 < n \<Longrightarrow> (0 < unat sz \<Longrightarrow> 2 * unat sz + (if cache_hit r b off then 0 else 1) \<le> n) \<Longrightarrow>
    wp (bd_read_loop c pcache hint b n off sz)
      (okp (\<lambda>xs (r', d'). d' = d \<and> cache_coherent c (contents d) r' \<and>
         xs = seg (overlay pcache (contents d) b) (unat off) (unat sz))) (r, d)"
proof (induction n arbitrary: off sz r)
  case 0
  then show ?case by simp
next
  case (Suc n)
  note g = geometry [OF v]
  note len = length_contents [OF v b]
  let ?V = "overlay pcache (contents d) b"
  let ?Q = "\<lambda>xs (r', d'). d' = d \<and> cache_coherent c (contents d) r' \<and> xs = seg ?V (unat off) (unat sz)"
  show ?case
  proof (cases "sz = 0")
    case True
    then show ?thesis using Suc.prems(1) by (simp add: wp_simps)
  next
    case False
    then have sz: "0 < unat sz" by (simp add: unat_gt_0)
    have fuel: "2 * unat sz + (if cache_hit r b off then 0 else 1) \<le> Suc n"
      using Suc.prems(4) sz by blast
    have hit: "cache_inside c r" using Suc.prems(1) by (simp add: cache_coherent_def)
    text \<open>Having fetched \<open>k\<close> bytes, the rest is the induction hypothesis.\<close>
    have more: "wp (bnd (bd_read_loop c pcache hint b n (off + k) (sz - k)) (\<lambda>ys. ret (xs @ ys)))
        (okp ?Q) (r, d)"
      if k: "0 < unat k" "unat k \<le> unat sz" and xs: "xs = seg ?V (unat off) (unat k)" for k xs
    proof -
      have ok: "unat (off + k) = unat off + unat k" "unat (sz - k) = unat sz - unat k"
        using k Suc.prems(2) wf_geometryD(9) [OF g] by (auto intro!: unat_add_u32 unat_sub_u32)
      have "wp (bd_read_loop c pcache hint b n (off + k) (sz - k))
          (okp (\<lambda>xs (r', d'). d' = d \<and> cache_coherent c (contents d) r' \<and>
            xs = seg ?V (unat (off + k)) (unat (sz - k)))) (r, d)"
        using Suc.prems fuel k ok by (intro Suc.IH) (auto split: if_splits)
      then show ?thesis
        unfolding wp_bnd by (rule wp_okp_mono) (use k xs in \<open>auto simp: wp_simps ok seg_split\<close>)
    qed
    define first where "first = (case pcache of None \<Rightarrow> Inr sz
        | Some p \<Rightarrow> map_sum (\<lambda>diff. (diff, p)) id (cache_lookup p b off sz))"
    have first: "(\<exists>p k. pcache = Some p \<and> cache_lookup p b off sz = Inl k \<and> first = Inl (k, p)) \<or>
        (\<exists>lim. first = Inr lim \<and> (pcache = None \<and> lim = sz \<or>
           (\<exists>p. pcache = Some p \<and> cache_lookup p b off sz = Inr lim)))"
    proof (cases pcache)
      case (Some p)
      then show ?thesis by (cases "cache_lookup p b off sz") (simp_all add: first_def)
    qed (simp add: first_def)
    have step: "bd_read_loop c pcache hint b (Suc n) off sz =
       (let more = (\<lambda>diff xs.
            bnd (bd_read_loop c pcache hint b n (off + diff) (sz - diff)) (\<lambda>ys. ret (xs @ ys)))
        in case first of
           Inl (diff, p) \<Rightarrow> bnd (cache_copy p off diff) (more diff)
         | Inr limit \<Rightarrow>
             bnd (gets fst) (\<lambda>r.
             case cache_lookup r b off limit of
               Inl diff \<Rightarrow> bnd (cache_copy r off diff) (more diff)
             | Inr limit' \<Rightarrow>
                 if hint \<le> sz \<and> off mod cfg_read_size c = 0 \<and> cfg_read_size c \<le> sz then
                   let diff = lfs_aligndown limit' (cfg_read_size c)
                   in bnd (on_snd (cfg_read c b off diff)) (more diff)
                 else
                   bnd (lfs_bd_load c hint b off) (\<lambda>_.
                   bd_read_loop c pcache hint b n off sz)))"
      using False by (simp add: first_def)
    from first consider
        (hit) p' k where "pcache = Some p'" "cache_lookup p' b off sz = Inl k" "first = Inl (k, p')"
      | (miss) lim where "first = Inr lim"
          "pcache = None \<and> lim = sz \<or> (\<exists>p. pcache = Some p \<and> cache_lookup p b off sz = Inr lim)"
      by blast
    then show ?thesis
    proof cases
      case q: (hit p' k)
      note lk = cache_lookup_Inl [OF q(2) p [OF q(1)] b g]
      note seg = seg_overlay_hit [where cont = "contents d", OF lk(1) p [OF q(1)] b g len lk(4)]
      show ?thesis
        unfolding step q(3)
        using more [OF lk(5) [OF sz] lk(2)] seg q(1)
        by (simp add: Let_def cache_copy_ok [OF lk(3) seg(2)])
    next
      case (miss lim)
      note f = miss(1) and l = miss(2)
      have lim: "unat lim \<le> unat sz" "0 < unat lim"
        and ov: "\<And>k. k \<le> unat lim \<Longrightarrow> seg ?V (unat off) k = seg (contents d b) (unat off) k"
        and al: "unat (cfg_read_size c) dvd unat off \<Longrightarrow> unat (cfg_read_size c) \<le> unat sz \<Longrightarrow>
           unat (cfg_read_size c) \<le> unat lim"
      proof -
        show "unat lim \<le> unat sz" "0 < unat lim"
          "unat (cfg_read_size c) dvd unat off \<Longrightarrow> unat (cfg_read_size c) \<le> unat sz \<Longrightarrow>
             unat (cfg_read_size c) \<le> unat lim"
          using l sz cache_lookup_limit [OF _ p b g sz] cache_lookup_Inr(1) [OF _ p b g] by auto
        fix k assume k: "k \<le> unat lim"
        show "seg ?V (unat off) k = seg (contents d b) (unat off) k"
        proof (cases pcache)
          case (Some p')
          then have "cache_lookup p' b off sz = Inr lim" using l by simp
          then show ?thesis
            unfolding Some using k cache_lookup_Inr(2) [OF _ p [OF Some] b g]
            by (intro seg_overlay_miss [where cont = "contents d", OF p [OF Some] b g len]) fastforce
        qed (simp add: overlay_def)
      qed
      show ?thesis
      proof (cases "cache_lookup r b off lim")
        case (Inl k)
        note lk = cache_lookup_Inl [OF Inl hit b g]
        note seg = seg_coherent_hit [OF lk(1) Suc.prems(1) b g lk(4)]
        show ?thesis
          unfolding step f
          using more [OF lk(5) [OF lim(2)] order_trans [OF lk(2) lim(1)]] seg ov [OF lk(2)] Inl
          by (simp add: Let_def wp_bnd wp_gets cache_copy_ok [OF lk(3) seg(2)])
      next
        case (Inr k)
        note lk = cache_lookup_Inr(1) [OF Inr hit b g] cache_lookup_limit [OF Inr hit b g lim(2)]
        show ?thesis
        proof (cases "hint \<le> sz \<and> off mod cfg_read_size c = 0 \<and> cfg_read_size c \<le> sz")
          case True
          define m where "m = lfs_aligndown k (cfg_read_size c)"
          have off: "unat (cfg_read_size c) dvd unat off" using True by (simp add: u32_mod_0)
          have m: "unat (cfg_read_size c) dvd unat m" "unat m \<le> unat k" "0 < unat m"
            using lk(3) [OF off al [OF off]] True wf_geometryD(1) [OF g]
            by (auto simp: m_def unat_lfs_aligndown_div u32_le div_greater_zero_iff)
          have le: "unat m \<le> unat lim" "unat m \<le> unat sz" using m(2) lk(1) lim(1) by auto
          have "cfg_read c b off m d = (Ok (seg ?V (unat off) (unat m)), d)"
            using read_ok [OF v b _ off m(1)] Suc.prems(2) le ov [OF le(1)] by simp
          then show ?thesis
            unfolding step f using more [OF m(3) le(2) refl] True Inr
            by (simp add: Let_def wp_bnd_gets m_def [symmetric] wp_bnd_on_snd)
        next
          case False
          have miss: "\<not> cache_hit r b off"
            using lk(2) cache_lookup_Inr(2) [OF Inr hit b g] by (auto simp: cache_hit_def)
          have "wp (lfs_bd_load c hint b off)
              (okp (\<lambda>_ (r', d'). d' = d \<and> cache_coherent c (contents d) r' \<and> cache_hit r' b off)) (r, d)"
            using hit Suc.prems(2) sz by (intro bd_load_ok v b h) (auto simp: cache_inside_def)
          then have "wp (bnd (lfs_bd_load c hint b off) (\<lambda>_. bd_read_loop c pcache hint b n off sz))
              (okp ?Q) (r, d)"
            unfolding wp_bnd
            by (rule wp_okp_mono) (use fuel miss Suc.prems sz in \<open>auto intro!: Suc.IH\<close>)
          then show ?thesis
            unfolding step f using Inr by (simp add: Let_def wp_bnd_gets if_not_P [OF False])
        qed
      qed
    qed
  qed
qed

text \<open>
  A read inside a block returns what the block holds with the program cache laid over it, and
  changes nothing but the read cache, which stays coherent.
\<close>

lemma bd_read_ok:
  assumes "valid d" and "b < cfg_block_count c"
    and "0 < unat sz \<Longrightarrow> 0 < unat hint" and "unat hint \<le> unat (cfg_block_size c)"
    and "\<And>p. pcache = Some p \<Longrightarrow> cache_inside c p"
    and "cache_coherent c (contents d) r" and "unat off + unat sz \<le> unat (cfg_block_size c)"
  shows "wp (lfs_bd_read c pcache hint b off sz)
      (okp (\<lambda>xs (r', d'). d' = d \<and> cache_coherent c (contents d) r' \<and>
         xs = seg (overlay pcache (contents d) b) (unat off) (unat sz))) (r, d)"
proof (cases "sz = 0")
  case True
  have "\<not> cfg_block_count c \<le> b" "\<not> cfg_block_size c < off"
    using assms(2,7) by (auto simp: u32_simps)
  then show ?thesis using assms(6) True by (simp add: lfs_bd_read_def wp_simps)
next
  case False
  then have "0 < unat sz" by (simp add: unat_gt_0)
  moreover have "unat (off + sz) = unat off + unat sz"
    using assms(7) wf_geometryD(9) [OF geometry [OF assms(1)]] by (intro unat_add_u32) linarith
  ultimately show ?thesis
    using bd_read_loop_ok [where n = "2 * unat sz + 1", OF assms(1,2) assms(3) assms(4,5,6,7)]
      assms(2,7)
    by (simp add: lfs_bd_read_def u32_simps)
qed

lemma bd_read_corrupt:
  "cfg_block_count c \<le> b \<or> cfg_block_size c < off + sz \<Longrightarrow>
     lfs_bd_read c pcache hint b off sz (r, d) = (Err LFS_ERR_CORRUPT, (r, d))"
  by (simp add: lfs_bd_read_def throw_def)

text \<open>Comparing a region with a buffer is \<open>memcmp\<close> of what a read of it returns.\<close>

lemma bd_cmp_loop_ok:
  assumes v: "valid d" and b: "b < cfg_block_count c"
    and h: "unat sz \<le> unat hint" "unat hint \<le> unat (cfg_block_size c)"
    and p: "\<And>p. pcache = Some p \<Longrightarrow> cache_inside c p"
    and o: "unat off + unat sz \<le> unat (cfg_block_size c)" and len: "unat sz \<le> length data"
  shows "cache_coherent c (contents d) r \<Longrightarrow> unat i \<le> unat sz \<Longrightarrow> unat sz - unat i < n \<Longrightarrow>
    wp (bd_cmp_loop c pcache hint b off data sz n i)
      (okp (\<lambda>res (r', d'). d' = d \<and> cache_coherent c (contents d) r' \<and>
         res = memcmp (seg (overlay pcache (contents d) b) (unat off + unat i) (unat sz - unat i))
                 (seg data (unat i) (unat sz - unat i)))) (r, d)"
proof (induction n arbitrary: i r)
  case 0
  then show ?case by simp
next
  case (Suc n)
  note w = wf_geometryD(9) [OF geometry [OF v]]
  let ?V = "overlay pcache (contents d) b"
  show ?case
  proof (cases "i < sz")
    case False
    then show ?thesis using Suc.prems by (simp add: wp_simps u32_simps)
  next
    case True
    then have i: "unat i < unat sz" by (simp add: u32_less)
    define k where "k = lfs_min (sz - i) 8"
    have si: "unat (sz - i) = unat sz - unat i" "unat (hint - i) = unat hint - unat i"
      using i h by (auto intro!: unat_sub_u32)
    then have k: "0 < unat k" "unat k \<le> unat sz - unat i"
      using i by (auto simp: k_def unat_lfs_min)
    have oi: "unat (off + i) = unat off + unat i" "unat (i + k) = unat i + unat k"
      using o i w k by (auto intro!: unat_add_u32)
    have rd: "wp (lfs_bd_read c pcache (hint - i) b (off + i) k)
        (okp (\<lambda>xs (r', d'). d' = d \<and> cache_coherent c (contents d) r' \<and>
           xs = seg ?V (unat off + unat i) (unat k))) (r, d)"
      using bd_read_ok [where hint = "hint - i" and off = "off + i" and sz = k, OF v b _ _ p Suc.prems(1)]
        si oi h i o k by simp
    have lv: "length ?V = unat (cfg_block_size c)"
      using length_overlay [where cont = "contents d", OF p b geometry [OF v] length_contents [OF v b]] .
    have split: "seg ?V (unat off + unat i) (unat sz - unat i) = seg ?V (unat off + unat i) (unat k) @
          seg ?V (unat off + unat (i + k)) (unat sz - unat (i + k))"
        "seg data (unat i) (unat sz - unat i) = seg data (unat i) (unat k) @
          seg data (unat (i + k)) (unat sz - unat (i + k))"
      using oi by (simp_all add: add.assoc seg_split [OF k(2)])
    have eqlen: "length (seg ?V (unat off + unat i) (unat k)) = length (seg data (unat i) (unat k))"
      using lv o len k i by simp
    have cmp: "memcmp (seg ?V (unat off + unat i) (unat sz - unat i)) (seg data (unat i) (unat sz - unat i))
        = (if memcmp (seg ?V (unat off + unat i) (unat k)) (seg data (unat i) (unat k)) \<noteq> LFS_CMP_EQ
           then memcmp (seg ?V (unat off + unat i) (unat k)) (seg data (unat i) (unat k))
           else memcmp (seg ?V (unat off + unat (i + k)) (unat sz - unat (i + k)))
                  (seg data (unat (i + k)) (unat sz - unat (i + k))))"
      unfolding split by (rule memcmp_append [OF eqlen])
    have fit: "unat i + unat k \<le> length data" using len k i by linarith
    have "wp (bnd (lfs_bd_read c pcache (hint - i) b (off + i) k) (\<lambda>dat.
           if memcmp dat (seg data (unat i) (unat k)) \<noteq> LFS_CMP_EQ
           then ret (memcmp dat (seg data (unat i) (unat k)))
           else bd_cmp_loop c pcache hint b off data sz n (i + k)))
        (okp (\<lambda>res (r', d'). d' = d \<and> cache_coherent c (contents d) r' \<and>
           res = memcmp (seg ?V (unat off + unat i) (unat sz - unat i))
                   (seg data (unat i) (unat sz - unat i)))) (r, d)"
      unfolding wp_bnd cmp
      by (rule wp_okp_mono [OF rd]) (use Suc.IH [of _ "i + k"] Suc.prems k oi in \<open>auto simp: wp_ret\<close>)
    then show ?thesis
      using True by (simp add: k_def [symmetric] Let_def mem_read_seg [OF fit])
  qed
qed

lemma bd_cmp_ok:
  assumes "valid d" and "b < cfg_block_count c"
    and "unat sz \<le> unat hint" and "unat hint \<le> unat (cfg_block_size c)"
    and "\<And>p. pcache = Some p \<Longrightarrow> cache_inside c p"
    and "unat off + unat sz \<le> unat (cfg_block_size c)" and "unat sz \<le> length data"
    and "cache_coherent c (contents d) r"
  shows "wp (lfs_bd_cmp c pcache hint b off data sz)
      (okp (\<lambda>res (r', d'). d' = d \<and> cache_coherent c (contents d) r' \<and>
         res = memcmp (seg (overlay pcache (contents d) b) (unat off) (unat sz))
                 (seg data 0 (unat sz)))) (r, d)"
  using bd_cmp_loop_ok [where i = 0 and n = "unat sz + 1", OF assms(1-4) assms(5) assms(6-8)]
  by (simp add: lfs_bd_cmp_def)

end

section \<open>Programming\<close>

text \<open>
  The state between two programs of one block: \<open>prog_cursor c er b off p\<close> says that the program
  cache is empty, or holds the bytes of block \<open>b\<close> up to \<open>off\<close>, and that from the first byte
  it has not given to the device on the block is erased (\<open>er\<close>).  This is the contract between the
  callers of \<^verbatim>\<open>lfs_bd_prog\<close> and it.
\<close>

definition prog_cursor ::
  "'z lfs_geometry_scheme \<Rightarrow> (nat \<Rightarrow> bool) \<Rightarrow> u32 \<Rightarrow> u32 \<Rightarrow> lfs_cache \<Rightarrow> bool" where
  "prog_cursor c er b off p \<longleftrightarrow>
     length (cache_buffer p) = unat (cfg_cache_size c) \<and>
     (cache_block p = LFS_BLOCK_NULL \<and> unat (cfg_prog_size c) dvd unat off \<and>
        (\<forall>i. unat off \<le> i \<longrightarrow> i < unat (cfg_block_size c) \<longrightarrow> er i) \<or>
      cache_block p = b \<and> unat (cache_off p) + unat (cache_size p) = unat off \<and>
        unat (cache_size p) < unat (cfg_cache_size c) \<and>
        unat (cfg_prog_size c) dvd unat (cache_off p) \<and>
        (\<forall>i. unat (cache_off p) \<le> i \<longrightarrow> i < unat (cfg_block_size c) \<longrightarrow> er i))"

text \<open>The read cache across programs of block \<open>b\<close>: coherent, and kept so by the validation or
  by not caching that block.\<close>

definition rcache_ok ::
  "'z lfs_geometry_scheme \<Rightarrow> (u32 \<Rightarrow> u8 list) \<Rightarrow> bool \<Rightarrow> u32 \<Rightarrow> lfs_cache \<Rightarrow> bool" where
  "rcache_ok c cont validate b r \<longleftrightarrow>
     cache_coherent c cont r \<and> (validate \<or> cache_block r \<noteq> b)"

lemma overlay_null:
  "cache_block p = LFS_BLOCK_NULL \<Longrightarrow> b < cfg_block_count c \<Longrightarrow> wf_geometry c \<Longrightarrow>
     overlay (Some p) cont b = cont b"
  using block_reserved(1) [of c b] by (auto simp: overlay_def)

lemma cache_coherent_cong:
  assumes "cache_coherent c cont r"
    and "cache_block r < cfg_block_count c \<Longrightarrow> cont' (cache_block r) = cont (cache_block r)"
  shows "cache_coherent c cont' r"
  using assms by (auto simp: cache_coherent_def)

lemma alignup_prog:
  assumes g: "wf_geometry c" and "unat sz \<le> unat (cfg_cache_size c)"
    and "unat off + unat sz \<le> unat (cfg_block_size c)" and "unat (cfg_prog_size c) dvd unat off"
    and d: "diff = lfs_alignup sz (cfg_prog_size c)"
  shows "unat sz \<le> unat diff" and "unat diff \<le> unat (cfg_cache_size c)"
    and "unat off + unat diff \<le> unat (cfg_block_size c)"
    and "unat (cfg_prog_size c) dvd unat diff"
proof -
  note w = wf_geometryD [OF g]
  let ?ps = "unat (cfg_prog_size c)"
  have ps: "?ps \<le> unat (cfg_cache_size c)" using w(3,5) by (rule dvd_imp_le [rotated])
  have u: "unat diff = ?ps * ((unat sz + ?ps - 1) div ?ps)"
    unfolding d using w(2,9,11) assms(2) ps by (intro unat_lfs_alignup) auto
  show "unat sz \<le> unat diff" unfolding u by (rule align_nat_bounds(1) [OF w(2)])
  show dv: "?ps dvd unat diff" by (simp add: u)
  have least: "unat diff \<le> m" if "?ps dvd m" "unat sz \<le> m" for m
  proof (rule ccontr)
    assume "\<not> unat diff \<le> m"
    then have "m < unat diff" by simp
    moreover have "?ps dvd unat diff - m" using dv that(1) by (rule dvd_diff_nat)
    ultimately have "?ps \<le> unat diff - m" by (intro dvd_imp_le) auto
    moreover have "unat diff < unat sz + ?ps" unfolding u by (rule align_nat_bounds(2) [OF w(2)])
    ultimately show False using that(2) \<open>m < unat diff\<close> by linarith
  qed
  show "unat diff \<le> unat (cfg_cache_size c)" using w(5) assms(2) by (rule least)
  have "unat diff \<le> unat (cfg_block_size c) - unat off"
    using assms(3,4) w(8) by (intro least dvd_diff_nat) auto
  then show "unat off + unat diff \<le> unat (cfg_block_size c)" using assms(3) by linarith
qed

context block_device begin

text \<open>What a flush does to the device: the cached bytes, padded to the program size, are on it.\<close>

lemma bd_flush_ok:
  assumes v: "valid d" and b: "cache_block p < cfg_block_count c"
    and len: "length (cache_buffer p) = unat (cfg_cache_size c)"
    and sz: "unat (cache_size p) \<le> unat (cfg_cache_size c)"
      "unat (cache_off p) + unat (cache_size p) \<le> unat (cfg_block_size c)"
    and al: "unat (cfg_prog_size c) dvd unat (cache_off p)"
    and er: "\<forall>i. unat (cache_off p) \<le> i \<longrightarrow> i < unat (cfg_block_size c) \<longrightarrow> erased d (cache_block p) i"
    and r: "rcache_ok c (contents d) validate (cache_block p) r"
    and diff: "diff = lfs_alignup (cache_size p) (cfg_prog_size c)"
  shows "wp (lfs_bd_flush c validate) (okp (\<lambda>_ (p', r', d'). valid d' \<and> p' = lfs_cache_zero c p \<and>
      contents d' (cache_block p) = patch (contents d (cache_block p)) (unat (cache_off p))
        (seg (cache_buffer p) 0 (unat diff)) \<and>
      (\<forall>b'. b' < cfg_block_count c \<longrightarrow> b' \<noteq> cache_block p \<longrightarrow> contents d' b' = contents d b') \<and>
      (\<forall>b' i. b' < cfg_block_count c \<longrightarrow>
         (b' \<noteq> cache_block p \<or> i < unat (cache_off p) \<or> unat (cache_off p) + unat diff \<le> i) \<longrightarrow>
         erased d b' i \<longrightarrow> erased d' b' i) \<and>
      rcache_ok c (contents d') validate (cache_block p) r')) (p, r, d)"
proof -
  note g = geometry [OF v]
  let ?b = "cache_block p"
  let ?xs = "seg (cache_buffer p) 0 (unat diff)"
  note a = alignup_prog [OF g sz al diff]
  have lx: "length ?xs = unat diff" using a(2) len by simp
  have live: "?b \<noteq> LFS_BLOCK_NULL" "?b \<noteq> LFS_BLOCK_INLINE" using block_reserved [OF g b] by auto
  obtain d' where d': "cfg_prog c ?b (cache_off p) ?xs d = (Ok (), d')" "valid d'"
      "contents d' ?b = patch (contents d ?b) (unat (cache_off p)) ?xs"
      "\<forall>b'. b' < cfg_block_count c \<longrightarrow> b' \<noteq> ?b \<longrightarrow> contents d' b' = contents d b'"
      "\<forall>b' i. b' < cfg_block_count c \<longrightarrow>
         (b' \<noteq> ?b \<or> i < unat (cache_off p) \<or> unat (cache_off p) + length ?xs \<le> i) \<longrightarrow>
         erased d b' i \<longrightarrow> erased d' b' i"
    using prog_ok [OF v b, of "cache_off p" ?xs] a al lx er by auto
  have rest: "wp (bd_flush_check c validate p diff)
      (okp (\<lambda>_ (p', r', d''). p' = p \<and> d'' = d' \<and> rcache_ok c (contents d') validate ?b r')) (p, r, d')"
  proof (cases validate)
    case True
    have lr: "length (cache_buffer r) = unat (cfg_cache_size c)"
      using r by (simp add: rcache_ok_def cache_coherent_def cache_inside_def)
    have "seg (contents d' ?b) (unat (cache_off p)) (unat diff) = ?xs"
      using a(3) lx length_contents [OF v b] seg_patch_same [of "unat (cache_off p)" ?xs "contents d ?b"]
      by (simp add: d'(3))
    then have "wp (lfs_bd_cmp c None diff ?b (cache_off p) (cache_buffer p) diff)
        (okp (\<lambda>res (r', d''). d'' = d' \<and> cache_coherent c (contents d') r' \<and> res = LFS_CMP_EQ))
        (lfs_cache_drop r, d')"
      using bd_cmp_ok [where pcache = None and sz = diff and hint = diff and off = "cache_off p"
          and data = "cache_buffer p", OF d'(2) b _ _ _ a(3) _ cache_coherent_drop [OF g lr]]
        a len wf_geometryD(11) [OF g] by (simp add: overlay_def)
    then show ?thesis
      using True
      by (simp add: bd_flush_check_def wp_simps)
        (erule wp_okp_mono, auto simp: rcache_ok_def wp_simps)
  next
    case False
    then show ?thesis
      using r d'(4) by (auto simp: bd_flush_check_def wp_ret rcache_ok_def elim!: cache_coherent_cong)
  qed
  show ?thesis
    using live b a(2) len d'(1)
    by (simp add: lfs_bd_flush_def wp_bnd_gets Let_def assertion_def diff [symmetric] mem_read_seg
        wp_bnd_on_snd2)
      (subst wp_bnd, rule wp_okp_mono [OF rest], use d' lx in \<open>auto simp: wp_modify\<close>)
qed

text \<open>Appending bytes to the program cache is appending them to the block it is laid over.\<close>

lemma overlay_fill:
  assumes b: "b < cfg_block_count c" and p: "cache_block p = b"
    and len: "length (cache_buffer p) = unat (cfg_cache_size c)" "length (cont b) = unat (cfg_block_size c)"
    and fit: "unat (cache_size p) + length xs \<le> unat (cfg_cache_size c)"
      "unat (cache_off p) + unat (cache_size p) + length xs \<le> unat (cfg_block_size c)"
    and sz: "unat sz' = unat (cache_size p) + length xs"
    and p': "p' = p\<lparr>cache_buffer := patch (cache_buffer p) (unat (cache_size p)) xs, cache_size := sz'\<rparr>"
  shows "overlay (Some p') cont b =
     patch (overlay (Some p) cont b) (unat (cache_off p) + unat (cache_size p)) xs"
proof -
  let ?s = "unat (cache_size p)"
  have "seg (patch (cache_buffer p) ?s xs) 0 (?s + length xs) = seg (cache_buffer p) 0 ?s @ xs"
    using fit len seg_patch_same [of ?s xs "cache_buffer p"]
    by (simp add: seg_append seg_patch_before)
  moreover have "unat (cache_off p) + length (seg (cache_buffer p) 0 ?s) \<le> length (cont b)"
    using fit len by simp
  then have "patch (patch (cont b) (unat (cache_off p)) (seg (cache_buffer p) 0 ?s))
        (unat (cache_off p) + length (seg (cache_buffer p) 0 ?s)) xs
      = patch (cont b) (unat (cache_off p)) (seg (cache_buffer p) 0 ?s @ xs)"
    by (rule patch_patch)
  ultimately show ?thesis using p fit len by (simp add: overlay_def p' sz)
qed

lemma patch_take_drop:
  "n \<le> length xs \<Longrightarrow> i + n \<le> length buf \<Longrightarrow>
     patch (patch buf i (take n xs)) (i + n) (drop n xs) = patch buf i xs"
  using patch_patch [of i "take n xs" buf "drop n xs"] by simp

text \<open>The eager flush of a full program cache.\<close>

lemma bd_prog_flush_full:
  assumes v: "valid d" and b: "b < cfg_block_count c" and p: "cache_block p = b"
    and len: "length (cache_buffer p) = unat (cfg_cache_size c)"
    and sz: "cache_size p = cfg_cache_size c"
      "unat (cache_off p) + unat (cfg_cache_size c) \<le> unat (cfg_block_size c)"
    and al: "unat (cfg_prog_size c) dvd unat (cache_off p)"
    and er: "\<forall>i. unat (cache_off p) \<le> i \<longrightarrow> i < unat (cfg_block_size c) \<longrightarrow> erased d b i"
    and r: "rcache_ok c (contents d) validate b r"
    and off: "unat off = unat (cache_off p) + unat (cfg_cache_size c)"
  shows "wp (lfs_bd_flush c validate) (okp (\<lambda>_ (p', r', d'). valid d' \<and> cache_block p' = LFS_BLOCK_NULL \<and>
      prog_cursor c (erased d' b) b off p' \<and>
      overlay (Some p') (contents d') b = overlay (Some p) (contents d) b \<and>
      (\<forall>b'. b' < cfg_block_count c \<longrightarrow> b' \<noteq> b \<longrightarrow> contents d' b' = contents d b') \<and>
      rcache_ok c (contents d') validate b r')) (p, r, d)"
proof -
  note g = geometry [OF v]
  define diff where "diff = lfs_alignup (cache_size p) (cfg_prog_size c)"
  have a: "unat diff = unat (cfg_cache_size c)"
    using alignup_prog(1,2) [OF g _ _ al diff_def] sz by (simp add: order_antisym)
  have dv: "unat (cfg_prog_size c) dvd unat off"
    using al wf_geometryD(5) [OF g] by (simp add: off)
  show ?thesis
    by (rule wp_okp_mono [OF bd_flush_ok [OF v _ len _ _ al _ _ diff_def]])
      (use b p sz er r a len dv off g block_reserved(1) [OF g b] in
        \<open>auto simp: prog_cursor_def lfs_cache_zero_def overlay_null overlay_def\<close>)
qed

lemma bd_prog_loop_ok:
  assumes b: "b < cfg_block_count c"
  shows "valid d \<Longrightarrow> prog_cursor c (erased d b) b off p \<Longrightarrow> rcache_ok c (contents d) validate b r \<Longrightarrow>
    unat off + length data \<le> unat (cfg_block_size c) \<Longrightarrow> 0 < n \<Longrightarrow>
    (data \<noteq> [] \<Longrightarrow> 2 * length data + (if cache_block p = b then 0 else 1) \<le> n) \<Longrightarrow>
    wp (bd_prog_loop c validate b n off data) (okp (\<lambda>_ (p', r', d'). valid d' \<and>
      prog_cursor c (erased d' b) b (off + of_nat (length data)) p' \<and>
      overlay (Some p') (contents d') b = patch (overlay (Some p) (contents d) b) (unat off) data \<and>
      (\<forall>b'. b' < cfg_block_count c \<longrightarrow> b' \<noteq> b \<longrightarrow> contents d' b' = contents d b') \<and>
      rcache_ok c (contents d') validate b r')) (p, r, d)"
proof (induction n arbitrary: off data p r d)
  case 0
  then show ?case by simp
next
  case (Suc n)
  note v = Suc.prems(1) and cur = Suc.prems(2) and rc = Suc.prems(3) and fit = Suc.prems(4)
  note g = geometry [OF v]
  note w = wf_geometryD [OF g]
  have nn: "b \<noteq> LFS_BLOCK_NULL" using block_reserved(1) [OF g b] .
  show ?case
  proof (cases "data = []")
    case True
    then show ?thesis using Suc.prems by (simp add: wp_ret)
  next
    case ne: False
    then have "0 < length data" by simp
    then have n: "0 < n" using Suc.prems(6) [OF ne] by linarith
    show ?thesis
    proof (cases "cache_block p = b")
      case False
      then have null: "cache_block p = LFS_BLOCK_NULL" and al: "unat (cfg_prog_size c) dvd unat off"
        and er: "\<forall>i. unat off \<le> i \<longrightarrow> i < unat (cfg_block_size c) \<longrightarrow> erased d b i"
        and len: "length (cache_buffer p) = unat (cfg_cache_size c)"
        using cur by (auto simp: prog_cursor_def)
      define p1 where "p1 = p\<lparr>cache_block := b, cache_off := lfs_aligndown off (cfg_prog_size c),
        cache_size := 0\<rparr>"
      have off: "lfs_aligndown off (cfg_prog_size c) = off"
        using al by (simp add: u32_eq unat_lfs_aligndown mod_eq_0_iff_dvd)
      have "prog_cursor c (erased d b) b off p1"
        using len er al w(3) by (simp add: prog_cursor_def p1_def off)
      moreover have "overlay (Some p1) (contents d) b = overlay (Some p) (contents d) b"
        using overlay_null [OF null b g] by (simp add: overlay_def p1_def)
      ultimately show ?thesis
        using Suc.IH [of d off p1 r data] Suc.prems ne False null nn n
        by (simp add: wp_bnd_gets wp_bnd_modify assertion_def p1_def [symmetric])
          (simp add: p1_def)
    next
      case True
      then have cu: "unat (cache_off p) + unat (cache_size p) = unat off"
          "unat (cache_size p) < unat (cfg_cache_size c)"
        and al: "unat (cfg_prog_size c) dvd unat (cache_off p)"
        and er: "\<forall>i. unat (cache_off p) \<le> i \<longrightarrow> i < unat (cfg_block_size c) \<longrightarrow> erased d b i"
        and len: "length (cache_buffer p) = unat (cfg_cache_size c)"
        using cur nn by (auto simp: prog_cursor_def)
      define k where "k = lfs_min (of_nat (length data)) (cfg_cache_size c - (off - cache_off p))"
      define sz where "sz = lfs_max (cache_size p) (off + k - cache_off p)"
      define p1 where "p1 = p\<lparr>cache_buffer := patch (cache_buffer p) (unat (cache_size p)) (take (unat k) data),
        cache_size := sz\<rparr>"
      have ld: "unat (of_nat (length data) :: u32) = length data"
        using fit w(9) by (intro unat_of_nat_u32) linarith
      have so: "unat (off - cache_off p) = unat (cache_size p)"
        using cu(1) by (subst unat_sub_u32) auto
      have k: "unat k = min (length data) (unat (cfg_cache_size c) - unat (cache_size p))"
        using cu(2) by (simp add: k_def unat_lfs_min ld unat_sub_u32 so)
      then have k': "0 < unat k" "unat k \<le> length data"
          "unat (cache_size p) + unat k \<le> unat (cfg_cache_size c)"
        using ne cu(2) by auto
      have ok: "unat (off + k) = unat off + unat k"
        using fit w(9) k' by (intro unat_add_u32) linarith
      have sz: "unat sz = unat (cache_size p) + unat k"
        using cu ok by (simp add: sz_def unat_lfs_max unat_sub_u32)
      have lk: "length (take (unat k) data) = unat k" using k' by simp
      have here: "cache_off p \<le> off" "off < cache_off p + cfg_cache_size c"
        using cu w(9,11) fit by (auto simp: u32_simps unat_add_u32)
      have ov1: "overlay (Some p1) (contents d) b =
          patch (overlay (Some p) (contents d) b) (unat off) (take (unat k) data)"
        using overlay_fill [where cont = "contents d", OF b True len length_contents [OF v b] _ _ _ p1_def] k' lk sz cu(1) fit
        by simp
      have lv: "length (overlay (Some p) (contents d) b) = unat (cfg_block_size c)"
        using True len cu fit length_contents [OF v b] by (simp add: overlay_def)
      have rest: "wp (bnd (if sz = cfg_cache_size c then lfs_bd_flush c validate else ret ()) (\<lambda>_.
           bd_prog_loop c validate b n (off + k) (drop (unat k) data)))
        (okp (\<lambda>_ (p', r', d'). valid d' \<and>
          prog_cursor c (erased d' b) b (off + of_nat (length data)) p' \<and>
          overlay (Some p') (contents d') b = patch (overlay (Some p) (contents d) b) (unat off) data \<and>
          (\<forall>b'. b' < cfg_block_count c \<longrightarrow> b' \<noteq> b \<longrightarrow> contents d' b' = contents d b') \<and>
          rcache_ok c (contents d') validate b r')) (p1, r, d)"
      proof (cases "sz = cfg_cache_size c")
        case full: True
        have "wp (lfs_bd_flush c validate) (okp (\<lambda>_ (p', r', d'). valid d' \<and>
            cache_block p' = LFS_BLOCK_NULL \<and> prog_cursor c (erased d' b) b (off + k) p' \<and>
            overlay (Some p') (contents d') b = overlay (Some p1) (contents d) b \<and>
            (\<forall>b'. b' < cfg_block_count c \<longrightarrow> b' \<noteq> b \<longrightarrow> contents d' b' = contents d b') \<and>
            rcache_ok c (contents d') validate b r')) (p1, r, d)"
          using True full len lk k' al er rc cu ok sz fit
          by (intro bd_prog_flush_full v b) (auto simp: p1_def)
        then show ?thesis
          unfolding if_P [OF full] wp_bnd
        proof (rule wp_okp_mono, clarsimp)
          fix p' r' d'
          assume h: "valid d'" "prog_cursor c (erased d' b) b (off + k) p'"
            "overlay (Some p') (contents d') b = overlay (Some p1) (contents d) b"
            "\<forall>b'. b' < cfg_block_count c \<longrightarrow> b' \<noteq> b \<longrightarrow> contents d' b' = contents d b'"
            "rcache_ok c (contents d') validate b r'" "cache_block p' = LFS_BLOCK_NULL"
          have e: "off + k + of_nat (length data - unat k) = off + of_nat (length data)"
            using k'(2) by (simp add: of_nat_diff)
          have j: "patch (overlay (Some p1) (contents d) b) (unat off + unat k) (drop (unat k) data)
              = patch (overlay (Some p) (contents d) b) (unat off) data"
            unfolding ov1 using k'(2) fit lv by (intro patch_take_drop) auto
          have "wp (bd_prog_loop c validate b n (off + k) (drop (unat k) data))
             (okp (\<lambda>_ (p'', r'', d''). valid d'' \<and>
               prog_cursor c (erased d'' b) b (off + k + of_nat (length (drop (unat k) data))) p'' \<and>
               overlay (Some p'') (contents d'') b =
                 patch (overlay (Some p') (contents d') b) (unat (off + k)) (drop (unat k) data) \<and>
               (\<forall>b'. b' < cfg_block_count c \<longrightarrow> b' \<noteq> b \<longrightarrow> contents d'' b' = contents d' b') \<and>
               rcache_ok c (contents d'') validate b r'')) (p', r', d')"
            using h(1,2,5) fit n k' ok Suc.prems(6) [OF ne] True by (intro Suc.IH) (auto split: if_splits)
          then show "wp (bd_prog_loop c validate b n (off + k) (drop (unat k) data))
             (okp (\<lambda>_ (p'', r'', d''). valid d'' \<and>
               prog_cursor c (erased d'' b) b (off + of_nat (length data)) p'' \<and>
               overlay (Some p'') (contents d'') b = patch (overlay (Some p) (contents d) b) (unat off) data \<and>
               (\<forall>b'. b' < cfg_block_count c \<longrightarrow> b' \<noteq> b \<longrightarrow> contents d'' b' = contents d b') \<and>
               rcache_ok c (contents d'') validate b r'')) (p', r', d')"
            by (rule wp_okp_mono) (use h(3,4) e j ok in auto)
        qed
      next
        case part: False
        then have all: "unat k = length data" using k sz k' by (auto simp: u32_eq min_def split: if_splits)
        have "prog_cursor c (erased d b) b (off + of_nat (length data)) p1"
          using True part sz k' cu al er len lk all ok fit w(9)
          by (auto simp: prog_cursor_def p1_def u32_eq unat_add_u32 ld)
        then show ?thesis
          using part n all ov1 rc v by (cases n) (auto simp: wp_ret)
      qed
      show ?thesis
        using rest True ne here lk len k'(3) so
        by (simp add: wp_bnd_gets wp_bnd_modify Let_def k_def [symmetric] sz_def [symmetric]
            mem_write_patch p1_def split del: if_split)
    qed
  qed
qed

text \<open>
  Programming at the cursor appends the bytes to the block as it is seen through the program
  cache, and leaves every other block alone.
\<close>

lemma bd_prog_ok:
  assumes "valid d" and b: "b < cfg_block_count c" and "prog_cursor c (erased d b) b off p"
    and "rcache_ok c (contents d) validate b r"
    and fit: "unat off + length data \<le> unat (cfg_block_size c)"
  shows "wp (lfs_bd_prog c validate b off data) (okp (\<lambda>_ (p', r', d'). valid d' \<and>
      prog_cursor c (erased d' b) b (off + of_nat (length data)) p' \<and>
      overlay (Some p') (contents d') b = patch (overlay (Some p) (contents d) b) (unat off) data \<and>
      (\<forall>b'. b' < cfg_block_count c \<longrightarrow> b' \<noteq> b \<longrightarrow> contents d' b' = contents d b') \<and>
      rcache_ok c (contents d') validate b r')) (p, r, d)"
proof -
  have w: "unat (cfg_block_size c) < 1073741824" using wf_geometryD(9) [OF geometry [OF assms(1)]] .
  have "unat (of_nat (length data) :: u32) = length data"
    using fit w by (intro unat_of_nat_u32) linarith
  then have "off + of_nat (length data) \<le> cfg_block_size c"
    using fit w by (simp add: u32_le unat_add_u32)
  then show ?thesis
    using bd_prog_loop_ok [where n = "2 * length data + 1", OF b assms(1,3,4) fit] b
    by (simp add: lfs_bd_prog_def assertion_def)
qed

text \<open>After a sync the device holds what was seen through the program cache.\<close>

lemma bd_sync_ok:
  assumes v: "valid d" and b: "b < cfg_block_count c" and cur: "prog_cursor c (erased d b) b off p"
    and lr: "length (cache_buffer r) = unat (cfg_cache_size c)"
    and fit: "unat off \<le> unat (cfg_block_size c)"
  shows "wp (lfs_bd_sync c validate) (okp (\<lambda>_ (p', r', d'). valid d' \<and>
      cache_block p' = LFS_BLOCK_NULL \<and>
      take (unat off) (contents d' b) = take (unat off) (overlay (Some p) (contents d) b) \<and>
      (\<forall>b'. b' < cfg_block_count c \<longrightarrow> b' \<noteq> b \<longrightarrow> contents d' b' = contents d b') \<and>
      cache_coherent c (contents d') r')) (p, r, d)"
proof -
  note g = geometry [OF v]
  have nn: "b \<noteq> LFS_BLOCK_NULL" "b \<noteq> LFS_BLOCK_INLINE" using block_reserved [OF g b] by auto
  let ?r = "lfs_cache_drop r"
  have rc: "rcache_ok c (contents d) validate b ?r"
    using cache_coherent_drop [OF g lr] nn by (auto simp: rcache_ok_def lfs_cache_drop_def)
  have fl: "wp (lfs_bd_flush c validate) (okp (\<lambda>_ (p', r', d'). valid d' \<and>
      cache_block p' = LFS_BLOCK_NULL \<and>
      take (unat off) (contents d' b) = take (unat off) (overlay (Some p) (contents d) b) \<and>
      (\<forall>b'. b' < cfg_block_count c \<longrightarrow> b' \<noteq> b \<longrightarrow> contents d' b' = contents d b') \<and>
      cache_coherent c (contents d') r')) (p, ?r, d)"
  proof (cases "cache_block p = b")
    case False
    then have "cache_block p = LFS_BLOCK_NULL" using cur by (auto simp: prog_cursor_def)
    then show ?thesis
      using v rc overlay_null [OF _ b g] by (simp add: lfs_bd_flush_def wp_simps rcache_ok_def)
  next
    case True
    then have cu: "unat (cache_off p) + unat (cache_size p) = unat off"
        "unat (cache_size p) < unat (cfg_cache_size c)"
      and al: "unat (cfg_prog_size c) dvd unat (cache_off p)"
      and er: "\<forall>i. unat (cache_off p) \<le> i \<longrightarrow> i < unat (cfg_block_size c) \<longrightarrow> erased d b i"
      and len: "length (cache_buffer p) = unat (cfg_cache_size c)"
      using cur nn by (auto simp: prog_cursor_def)
    define diff where "diff = lfs_alignup (cache_size p) (cfg_prog_size c)"
    note a = alignup_prog [OF g order.strict_implies_order [OF cu(2)] _ al diff_def]
    have ad: "unat (cache_size p) \<le> unat diff" "unat diff \<le> unat (cfg_cache_size c)"
      "unat (cache_off p) + unat diff \<le> unat (cfg_block_size c)" using a cu fit by simp_all
    have tk: "take (unat off) (patch (contents d b) (unat (cache_off p)) (seg (cache_buffer p) 0 (unat diff)))
        = take (unat off) (overlay (Some p) (contents d) b)"
      using ad cu True len length_contents [OF v b] fit
      by (intro nth_equalityI) (auto simp: overlay_def nth_patch nth_seg)
    show ?thesis
      by (rule wp_okp_mono [OF bd_flush_ok [OF v _ len _ _ al _ _ diff_def]])
        (use True b cu er rc fit tk in \<open>auto simp: lfs_cache_zero_def rcache_ok_def\<close>)
  qed
  show ?thesis
    unfolding lfs_bd_sync_def wp_bnd_modify
    apply (simp add: wp_bnd)
    apply (rule wp_okp_mono [OF fl])
    subgoal premises h for a s'
    proof -
      obtain p' r' d' where s': "s' = (p', r', d')" by (cases s') auto
      obtain d'' where s: "cfg_sync c d' = (Ok (), d'')" "valid d''"
        "\<forall>b. b < cfg_block_count c \<longrightarrow> contents d'' b = contents d' b"
        using sync_ok [of d'] h s' by auto
      have "on_snd (on_snd (cfg_sync c)) (p', r', d') = (Ok (), (p', r', d''))"
        using s(1) by (intro on_snd_run)
      then show ?thesis
        using h s s' b by (auto simp: wp_def elim!: cache_coherent_cong)
    qed
    done
qed

lemma bd_erase_ok:
  assumes "valid d" and "b < cfg_block_count c"
    and "length (cache_buffer p) = unat (cfg_cache_size c)" and "cache_block p = LFS_BLOCK_NULL"
  shows "wp (lfs_bd_erase c b) (okp (\<lambda>_ d'. valid d' \<and> prog_cursor c (erased d' b) b 0 p \<and>
      (\<forall>b'. b' < cfg_block_count c \<longrightarrow> b' \<noteq> b \<longrightarrow> contents d' b' = contents d b'))) d"
  using erase_ok [OF assms(1,2)] assms(2-4)
  by (auto simp: lfs_bd_erase_def assertion_def wp_def prog_cursor_def)

end

section \<open>Programming, then reading back\<close>

lemma cursor_inside:
  assumes "prog_cursor c er b off p" and "wf_geometry c"
    and "unat (cfg_read_size c) dvd unat (cfg_prog_size c)"
    and "unat off \<le> unat (cfg_block_size c)"
  shows "cache_inside c p"
  using assms block_reserved(1) [OF assms(2), of LFS_BLOCK_NULL]
  by (auto simp: prog_cursor_def cache_inside_def u32_le intro: dvd_trans)

context block_device begin

text \<open>Bytes that were programmed are read back through the program cache.\<close>

lemma bd_prog_read:
  assumes v: "valid d" and b: "b < cfg_block_count c" and cur: "prog_cursor c (erased d b) b off p"
    and rc: "rcache_ok c (contents d) validate b r"
    and fit: "unat off + length data \<le> unat (cfg_block_size c)"
    and rp: "unat (cfg_read_size c) dvd unat (cfg_prog_size c)"
    and h: "0 < unat hint" "unat hint \<le> unat (cfg_block_size c)"
  shows "\<exists>p' r' d' r''. lfs_bd_prog c validate b off data (p, r, d) = (Ok (), (p', r', d')) \<and>
     lfs_bd_read c (Some p') hint b off (of_nat (length data)) (r', d') = (Ok data, (r'', d'))"
proof -
  obtain p' r' d' where pr: "lfs_bd_prog c validate b off data (p, r, d) = (Ok (), (p', r', d'))"
      "valid d'" "prog_cursor c (erased d' b) b (off + of_nat (length data)) p'"
      "overlay (Some p') (contents d') b = patch (overlay (Some p) (contents d) b) (unat off) data"
      "rcache_ok c (contents d') validate b r'"
    using wp_okpD [OF bd_prog_ok [OF v b cur rc fit]] by auto
  note g = geometry [OF v]
  have ol: "length data < 4294967296" "unat off + length data < 4294967296"
    using fit unat_less_u32 [of "cfg_block_size c"] by linarith+
  then have ld: "unat (of_nat (length data) :: u32) = length data" by (simp add: unat_of_nat_u32)
  have uo: "unat (off + of_nat (length data)) = unat off + length data"
    using ol ld by (subst unat_add_u32) simp_all
  have in': "cache_inside c p'"
    by (rule cursor_inside [OF pr(3) g rp]) (use uo fit in simp)
  have lv: "length (overlay (Some p) (contents d) b) = unat (cfg_block_size c)"
  proof (rule length_overlay [where cont = "contents d", OF _ b g length_contents [OF v b]])
    fix q assume "Some p = Some q"
    then show "cache_inside c q" using cursor_inside [OF cur g rp] fit by simp
  qed
  have coh: "cache_coherent c (contents d') r'" using pr(5) by (simp add: rcache_ok_def)
  have "wp (lfs_bd_read c (Some p') hint b off (of_nat (length data)))
      (okp (\<lambda>xs (r'', d''). d'' = d' \<and> cache_coherent c (contents d') r'' \<and>
        xs = seg (overlay (Some p') (contents d') b) (unat off) (unat (of_nat (length data) :: u32)))) (r', d')"
    by (rule bd_read_ok [OF pr(2) b _ h(2) _ coh]) (use h(1) in' ld fit in auto)
  from wp_okpD [OF this] obtain r''
    where "lfs_bd_read c (Some p') hint b off (of_nat (length data)) (r', d') =
        (Ok (seg (overlay (Some p') (contents d') b) (unat off) (length data)), (r'', d'))"
    by (auto simp: ld)
  then show ?thesis
    using pr(1) fit lv by (auto simp: pr(4) seg_patch_same)
qed

text \<open>After a sync they are on the device, and a read without the program cache finds them.\<close>

lemma bd_prog_sync_read:
  assumes v: "valid d" and b: "b < cfg_block_count c" and cur: "prog_cursor c (erased d b) b off p"
    and rc: "rcache_ok c (contents d) validate b r"
    and fit: "unat off + length data \<le> unat (cfg_block_size c)"
    and rp: "unat (cfg_read_size c) dvd unat (cfg_prog_size c)"
    and h: "0 < unat hint" "unat hint \<le> unat (cfg_block_size c)"
  shows "\<exists>s p' r' d' r''. lfs_bd_prog c validate b off data (p, r, d) = (Ok (), s) \<and>
     lfs_bd_sync c validate s = (Ok (), (p', r', d')) \<and>
     seg (contents d' b) (unat off) (length data) = data \<and>
     (\<forall>b'. b' < cfg_block_count c \<longrightarrow> b' \<noteq> b \<longrightarrow> contents d' b' = contents d b') \<and>
     lfs_bd_read c None hint b off (of_nat (length data)) (r', d') = (Ok data, (r'', d'))"
proof -
  obtain p1 r1 d1 where pr: "lfs_bd_prog c validate b off data (p, r, d) = (Ok (), (p1, r1, d1))"
      "valid d1" "prog_cursor c (erased d1 b) b (off + of_nat (length data)) p1"
      "overlay (Some p1) (contents d1) b = patch (overlay (Some p) (contents d) b) (unat off) data"
      "\<forall>b'. b' < cfg_block_count c \<longrightarrow> b' \<noteq> b \<longrightarrow> contents d1 b' = contents d b'"
      "rcache_ok c (contents d1) validate b r1"
    using wp_okpD [OF bd_prog_ok [OF v b cur rc fit]] by auto
  note g = geometry [OF v]
  have ol: "length data < 4294967296" "unat off + length data < 4294967296"
    using fit unat_less_u32 [of "cfg_block_size c"] by linarith+
  then have ld: "unat (of_nat (length data) :: u32) = length data" by (simp add: unat_of_nat_u32)
  have uo: "unat (off + of_nat (length data)) = unat off + length data"
    using ol ld by (subst unat_add_u32) simp_all
  have lr: "length (cache_buffer r1) = unat (cfg_cache_size c)"
    using pr(6) by (simp add: rcache_ok_def cache_coherent_def cache_inside_def)
  have le: "unat (off + of_nat (length data)) \<le> unat (cfg_block_size c)" using uo fit by simp
  obtain p' r' d' where sy: "lfs_bd_sync c validate (p1, r1, d1) = (Ok (), (p', r', d'))" "valid d'"
      "take (unat off + length data) (contents d' b) =
         take (unat off + length data) (overlay (Some p1) (contents d1) b)"
      "\<forall>b'. b' < cfg_block_count c \<longrightarrow> b' \<noteq> b \<longrightarrow> contents d' b' = contents d1 b'"
      "cache_coherent c (contents d') r'"
    using wp_okpD [OF bd_sync_ok [OF pr(2) b pr(3) lr le, where validate = validate]] by (auto simp: uo)
  have lv: "length (overlay (Some p) (contents d) b) = unat (cfg_block_size c)"
  proof (rule length_overlay [where cont = "contents d", OF _ b g length_contents [OF v b]])
    fix q assume "Some p = Some q"
    then show "cache_inside c q" using cursor_inside [OF cur g rp] fit by simp
  qed
  have "seg (contents d' b) (unat off) (length data) =
      seg (take (unat off + length data) (contents d' b)) (unat off) (length data)"
    by (simp add: seg_take)
  also have "\<dots> = data" unfolding sy(3) using fit lv by (simp add: seg_take pr(4) seg_patch_same)
  finally have sg: "seg (contents d' b) (unat off) (length data) = data" .
  have "wp (lfs_bd_read c None hint b off (of_nat (length data)))
      (okp (\<lambda>xs (r'', d''). d'' = d' \<and> cache_coherent c (contents d') r'' \<and>
        xs = seg (overlay None (contents d') b) (unat off) (unat (of_nat (length data) :: u32)))) (r', d')"
    by (rule bd_read_ok [OF sy(2) b _ h(2) _ sy(5)]) (use h(1) ld fit in auto)
  from wp_okpD [OF this] obtain r''
    where "lfs_bd_read c None hint b off (of_nat (length data)) (r', d') = (Ok data, (r'', d'))"
    by (auto simp: ld sg overlay_def)
  then show ?thesis using pr(1,5) sy(1,4) sg by auto
qed

end

section \<open>Two defects of the read\<close>

text \<open>
  After a failed load the read cache claims a region that it does not hold: the same read tried
  again succeeds, with what the buffer held before.
\<close>

lemma bd_read_stale_after_error:
  assumes b: "b < cfg_block_count c" and fit: "\<not> cfg_block_size c < off + sz" and sz: "sz \<noteq> 0"
    and cold: "cache_block r \<noteq> b"
    and cached: "\<not> (hint \<le> sz \<and> off mod cfg_read_size c = 0 \<and> cfg_read_size c \<le> sz)"
    and reg: "roff = lfs_aligndown off (cfg_read_size c)"
      "rsize = lfs_min (lfs_min (lfs_alignup (off + hint) (cfg_read_size c)) (cfg_block_size c) - roff)
                       (cfg_cache_size c)"
    and inside: "unat off + unat sz \<le> unat roff + unat rsize" "unat roff + unat rsize < 4294967296"
    and len: "unat rsize \<le> length (cache_buffer r)"
    and fail: "cfg_read c b roff rsize d = (Err e, d')"
  shows "lfs_bd_read c None hint b off sz (r, d) =
      (Err e, (r\<lparr>cache_block := b, cache_off := roff, cache_size := rsize\<rparr>, d'))"
    and "lfs_bd_read c None hint b off sz (r\<lparr>cache_block := b, cache_off := roff, cache_size := rsize\<rparr>, d'') =
      (Ok (seg (cache_buffer r) (unat off - unat roff) (unat sz)),
       (r\<lparr>cache_block := b, cache_off := roff, cache_size := rsize\<rparr>, d''))"
proof -
  let ?r = "r\<lparr>cache_block := b, cache_off := roff, cache_size := rsize\<rparr>"
  have ok: "\<not> (cfg_block_count c \<le> b \<or> cfg_block_size c < off + sz)" using b fit by simp
  obtain n where n: "2 * unat sz + 1 = Suc (Suc n)" using sz by (cases "unat sz") (auto simp: unat_eq_0)
  have load: "lfs_bd_load c hint b off (r, d) = (Err e, (?r, d'))"
    using b fail by (simp add: lfs_bd_load_def bnd_def assertion_def ret_def gets_def modify_def
        on_snd_def zoom_def Let_def reg [symmetric])
  have "cache_lookup r b off sz = Inr sz" using cold by (auto simp: cache_lookup_def)
  then have "bd_read_loop c None hint b (Suc (Suc n)) off sz (r, d) =
      bnd (lfs_bd_load c hint b off) (\<lambda>_. bd_read_loop c None hint b (Suc n) off sz) (r, d)"
    unfolding bd_read_loop.simps(2) [of _ _ _ _ "Suc n"] if_not_P [OF sz] Let_def
    by (simp add: bnd_def [of "gets fst"] gets_def if_not_P [OF cached] del: bd_read_loop.simps)
  then show "lfs_bd_read c None hint b off sz (r, d) = (Err e, (?r, d'))"
    unfolding lfs_bd_read_def if_not_P [OF ok] n by (simp add: bnd_def load del: bd_read_loop.simps)
  have ro: "unat roff \<le> unat off" by (simp add: reg(1) unat_lfs_aligndown)
  have ur: "unat (roff + rsize) = unat roff + unat rsize" using inside(2) by (simp add: unat_add_u32)
  have uo: "unat (off - roff) = unat off - unat roff" using ro by (rule unat_sub_u32)
  have us: "unat (rsize - (off - roff)) = unat rsize - (unat off - unat roff)"
    using uo inside(1) by (subst unat_sub_u32) auto
  have "lfs_min sz (rsize - (off - roff)) = sz"
    using us inside(1) ro by (simp add: u32_eq unat_lfs_min)
  moreover have "off < roff + rsize" "roff \<le> off"
  proof -
    have "0 < unat sz" using sz by (simp add: unat_gt_0)
    then show "off < roff + rsize" "roff \<le> off" using ur ro inside(1) by (simp_all add: u32_simps)
  qed
  ultimately have hit: "cache_lookup ?r b off sz = Inl sz" by (simp add: cache_lookup_def)
  have copy: "cache_copy ?r off sz = ret (seg (cache_buffer r) (unat off - unat roff) (unat sz))"
    using uo inside(1) ro len by (subst cache_copy_ok) auto
  have "bd_read_loop c None hint b (Suc (Suc n)) off sz (?r, d'') =
      (Ok (seg (cache_buffer r) (unat off - unat roff) (unat sz)), (?r, d''))"
    unfolding bd_read_loop.simps(2) [of _ _ _ _ "Suc n"] if_not_P [OF sz] Let_def
    by (simp add: bnd_def [of "gets fst"] gets_def hit copy) (simp add: bnd_def ret_def)
  then show "lfs_bd_read c None hint b off sz (?r, d'') =
      (Ok (seg (cache_buffer r) (unat off - unat roff) (unat sz)), (?r, d''))"
    unfolding lfs_bd_read_def if_not_P [OF ok] n .
qed

text \<open>
  When the program cache starts less than a read unit after an aligned offset, the bypass reads
  nothing and the loop makes no progress, whatever the fuel.
\<close>

lemma bd_read_livelock:
  assumes p: "cache_block p = b" "off < cache_off p" "off < cache_off p + cache_size p"
    and close: "cache_off p - off < cfg_read_size c" "cache_off p - off < sz"
    and cold: "cache_block r \<noteq> b"
    and bypass: "hint \<le> sz" "off mod cfg_read_size c = 0" "cfg_read_size c \<le> sz"
    and dev: "cfg_read c b off 0 d = (Ok [], d)"
  shows "bd_read_loop c (Some p) hint b n off sz (r, d) = (Fault Out_Of_Fuel, (r, d))"
proof (induction n)
  case 0
  show ?case by (simp add: stuck_def)
next
  case (Suc n)
  have sz: "sz \<noteq> 0" using close(2) by auto
  have "lfs_min sz (cache_off p - off) = cache_off p - off"
    using close(2) by (simp add: u32_eq unat_lfs_min u32_less)
  then have l1: "cache_lookup p b off sz = Inr (cache_off p - off)"
    using p by (auto simp: cache_lookup_def)
  have l2: "cache_lookup r b off k = Inr k" for k using cold by (auto simp: cache_lookup_def)
  have "lfs_aligndown (cache_off p - off) (cfg_read_size c) = 0"
    using close(1) by (simp add: u32_eq unat_lfs_aligndown u32_less)
  then show ?case
    using sz bypass Suc.IH
    by (simp add: Let_def l1 l2 bnd_def gets_def on_snd_def zoom_def dev)
qed

end
