(* ===== verification/LFS_State.thy ===== *)
theory LFS_State
  imports LFS_Tag LFS_Bd
begin

text \<open>
  The state of the file system: \<^verbatim>\<open>lfs_t\<close> of \<^verbatim>\<open>src/src/lfs/lfs.h\<close>, the metadata directory, the
  objects that are linked into \<^verbatim>\<open>lfs->mlist\<close>, and the list operations of
  \<^verbatim>\<open>src/src/lfs/lfs.c\<close>.  The memory behind the device context is part of the state
  (\<open>lfs_dev\<close>), the configuration is an argument of the operations.
\<close>

section \<open>Records\<close>

record lfs_mdir =
  md_pair :: pair
  md_rev :: u32
  md_off :: u32
  md_etag :: u32
  md_count :: u16
  md_erased :: bool
  md_split :: bool
  md_tail :: pair

definition mdir_zero :: lfs_mdir where
  "mdir_zero = \<lparr>md_pair = (0, 0), md_rev = 0, md_off = 0, md_etag = 0, md_count = 0,
     md_erased = False, md_split = False, md_tail = (0, 0)\<rparr>"

text \<open>
  The C code casts between \<^verbatim>\<open>struct lfs_mlist\<close>, \<^verbatim>\<open>lfs_dir_t\<close> and \<^verbatim>\<open>lfs_file_t\<close>, which share their first
  fields; one record holds the fields of all three.  An attribute of a file configuration is its
  type and its buffer.  Objects are addressed by references, so that a directory that is open
  twice or linked into the list is one object: handles of the caller, and local variables of the
  functions that link them into the list.
\<close>

record lfs_object =
  obj_id :: u16
  obj_type :: u8
  obj_m :: lfs_mdir
  dir_pos :: u32
  dir_head :: pair
  file_ctz :: lfs_ctz_t
  file_flags :: u32
  file_pos :: u32
  file_block :: u32
  file_off :: u32
  file_cache :: lfs_cache
  file_attrs :: "(u8 \<times> u8 list) list"

datatype obj_ref = Handle nat | Local string

record lfs_lookahead =
  free_off :: u32
  free_size :: u32
  free_i :: u32
  free_ack :: u32
  free_buffer :: "u32 list"

record 'd lfs =
  lfs_rcache :: lfs_cache
  lfs_pcache :: lfs_cache
  lfs_root :: pair
  lfs_mlist :: "obj_ref list"
  lfs_seed :: u32
  lfs_gstate :: lfs_gstate
  lfs_gdisk :: lfs_gstate
  lfs_gdelta :: lfs_gstate
  lfs_free :: lfs_lookahead
  lfs_name_max :: u32
  lfs_file_max :: u32
  lfs_attr_max :: u32
  lfs_objs :: "obj_ref \<Rightarrow> lfs_object"
  lfs_dev :: 'd

text \<open>The flags of an open file: those of the caller, and those the library keeps.\<close>

definition LFS_O_RDONLY :: u32 where "LFS_O_RDONLY = 1"
definition LFS_O_WRONLY :: u32 where "LFS_O_WRONLY = 2"
definition LFS_O_RDWR :: u32 where "LFS_O_RDWR = 3"
definition LFS_O_CREAT :: u32 where "LFS_O_CREAT = 0x0100"
definition LFS_O_EXCL :: u32 where "LFS_O_EXCL = 0x0200"
definition LFS_O_TRUNC :: u32 where "LFS_O_TRUNC = 0x0400"
definition LFS_O_APPEND :: u32 where "LFS_O_APPEND = 0x0800"
definition LFS_F_DIRTY :: u32 where "LFS_F_DIRTY = 0x010000"
definition LFS_F_WRITING :: u32 where "LFS_F_WRITING = 0x020000"
definition LFS_F_READING :: u32 where "LFS_F_READING = 0x040000"
definition LFS_F_ERRED :: u32 where "LFS_F_ERRED = 0x080000"
definition LFS_F_INLINE :: u32 where "LFS_F_INLINE = 0x100000"

definition has_flag :: "lfs_object \<Rightarrow> u32 \<Rightarrow> bool" where
  "has_flag f x \<longleftrightarrow> file_flags f AND x \<noteq> 0"

definition set_flag :: "u32 \<Rightarrow> lfs_object \<Rightarrow> lfs_object" where
  "set_flag x f = f\<lparr>file_flags := file_flags f OR x\<rparr>"

definition clear_flag :: "u32 \<Rightarrow> lfs_object \<Rightarrow> lfs_object" where
  "clear_flag x f = f\<lparr>file_flags := file_flags f AND NOT x\<rparr>"

section \<open>The list of open objects\<close>

definition lfs_mlist_isopen :: "obj_ref list \<Rightarrow> obj_ref \<Rightarrow> bool" where
  "lfs_mlist_isopen l x \<longleftrightarrow> x \<in> set l"

definition lfs_mlist_remove :: "obj_ref \<Rightarrow> 'd lfs \<Rightarrow> 'd lfs" where
  "lfs_mlist_remove x s = s\<lparr>lfs_mlist := remove1 x (lfs_mlist s)\<rparr>"

definition lfs_mlist_append :: "obj_ref \<Rightarrow> 'd lfs \<Rightarrow> 'd lfs" where
  "lfs_mlist_append x s = s\<lparr>lfs_mlist := x # lfs_mlist s\<rparr>"

lemma lfs_mlist_append_remove [simp]: "lfs_mlist_remove x (lfs_mlist_append x s) = s"
  by (simp add: lfs_mlist_remove_def lfs_mlist_append_def)

lemma lfs_mlist_isopen_remove:
  "distinct (lfs_mlist s) \<Longrightarrow>
     lfs_mlist_isopen (lfs_mlist (lfs_mlist_remove x s)) y \<longleftrightarrow> y \<noteq> x \<and> lfs_mlist_isopen (lfs_mlist s) y"
  by (auto simp: lfs_mlist_isopen_def lfs_mlist_remove_def)

section \<open>Access to the objects\<close>

definition get_obj :: "obj_ref \<Rightarrow> ('d lfs, lfs_object) cmd" where
  "get_obj x = gets (\<lambda>s. lfs_objs s x)"

definition upd_obj :: "obj_ref \<Rightarrow> (lfs_object \<Rightarrow> lfs_object) \<Rightarrow> ('d lfs, unit) cmd" where
  "upd_obj x f = modify (\<lambda>s. s\<lparr>lfs_objs := (lfs_objs s)(x := f (lfs_objs s x))\<rparr>)"

definition set_m :: "obj_ref \<Rightarrow> lfs_mdir \<Rightarrow> ('d lfs, unit) cmd" where
  "set_m x m = upd_obj x (\<lambda>ob. ob\<lparr>obj_m := m\<rparr>)"

section \<open>Block-device operations on the state\<close>

text \<open>The calls with \<^verbatim>\<open>&lfs->rcache\<close>, and with both caches of the file system.\<close>

definition on_rcache :: "(lfs_cache \<times> 'd, 'a) cmd \<Rightarrow> ('d lfs, 'a) cmd" where
  "on_rcache m = zoom (\<lambda>s. (lfs_rcache s, lfs_dev s))
     (\<lambda>(r, d) s. s\<lparr>lfs_rcache := r, lfs_dev := d\<rparr>) m"

definition on_caches :: "(lfs_cache \<times> (lfs_cache \<times> 'd), 'a) cmd \<Rightarrow> ('d lfs, 'a) cmd" where
  "on_caches m = zoom (\<lambda>s. (lfs_pcache s, (lfs_rcache s, lfs_dev s)))
     (\<lambda>(p, (r, d)) s. s\<lparr>lfs_pcache := p, lfs_rcache := r, lfs_dev := d\<rparr>) m"

definition on_dev :: "('d, 'a) cmd \<Rightarrow> ('d lfs, 'a) cmd" where
  "on_dev m = zoom lfs_dev (\<lambda>d s. s\<lparr>lfs_dev := d\<rparr>) m"

text \<open>
  \<^verbatim>\<open>lfs_stag_t\<close>: a function returns a tag, or a negative code; a tag with the top bit set
  is a negative code for its caller.
\<close>

definition stag_ret :: "u32 \<Rightarrow> ('s, u32) cmd" where
  "stag_ret tag = (if bit tag 31 then throw (lfs_error_of_code (sint tag)) else ret tag)"

lemma wp_on_rcache [wp_simps]:
  "wp (on_rcache m) Q s =
     wp m (\<lambda>r (rc, d). Q r (s\<lparr>lfs_rcache := rc, lfs_dev := d\<rparr>)) (lfs_rcache s, lfs_dev s)"
  by (simp add: on_rcache_def wp_zoom case_prod_beta')

lemma wp_on_caches [wp_simps]:
  "wp (on_caches m) Q s =
     wp m (\<lambda>r (p, (rc, d)). Q r (s\<lparr>lfs_pcache := p, lfs_rcache := rc, lfs_dev := d\<rparr>))
       (lfs_pcache s, (lfs_rcache s, lfs_dev s))"
  by (simp add: on_caches_def wp_zoom case_prod_beta')

lemma wp_on_dev [wp_simps]:
  "wp (on_dev m) Q s = wp m (\<lambda>r d. Q r (s\<lparr>lfs_dev := d\<rparr>)) (lfs_dev s)"
  by (simp add: on_dev_def wp_zoom)

end
