(* ===== verification/LFS_Mdir.thy ===== *)
theory LFS_Mdir
  imports LFS_State
begin

text \<open>
  Reading metadata pairs, \<^verbatim>\<open>src/src/lfs/lfs.c\<close> from \<^verbatim>\<open>lfs_dir_getslice\<close> to
  \<^verbatim>\<open>lfs_dir_getinfo\<close>: the backward search for a tag, the read through a cache of an inline
  file, and the forward scan of a pair that validates its commits and finds a tag on the way.

  A function that writes its directory argument on every path returns the directory with the
  result, also when the result is an error; a failing device read leaves the destination buffer
  unchanged.
\<close>

section \<open>Looking up a tag\<close>

definition read_u32 ::
  "'d lfs_config \<Rightarrow> u32 \<Rightarrow> u32 \<Rightarrow> u32 \<Rightarrow> ('d lfs, u32) cmd" where
  "read_u32 c hint block off =
     bnd (on_rcache (lfs_bd_read c None hint block off 4)) (\<lambda>bs. ret (u32_of_bytes bs))"

text \<open>The part of the loop body that follows the splice handling: compare, read, zero-fill.\<close>

definition getslice_match ::
  "'d lfs_config \<Rightarrow> lfs_mdir \<Rightarrow> u32 \<Rightarrow> u32 \<Rightarrow> u32 \<Rightarrow> u32 \<Rightarrow> u32 \<Rightarrow> u32 \<Rightarrow> u32 \<Rightarrow>
     ('d lfs, u32 \<times> u8 list) cmd \<Rightarrow> ('d lfs, u32 \<times> u8 list) cmd" where
  "getslice_match c dir gmask gtag goff gsize off tag gdiff continue =
     (if gmask AND tag = gmask AND (gtag - gdiff) then
        if lfs_tag_isdelete tag then throw LFS_ERR_NOENT
        else
          let diff = lfs_min (lfs_tag_size tag) gsize
          in bnd (on_rcache (lfs_bd_read c None diff (fst (md_pair dir)) (off + 4 + goff) diff)) (\<lambda>xs.
             bnd (stag_ret (tag + gdiff)) (\<lambda>t.
             ret (t, xs @ replicate (unat (gsize - diff)) 0)))
      else continue)"

fun getslice_loop ::
  "'d lfs_config \<Rightarrow> lfs_mdir \<Rightarrow> u32 \<Rightarrow> u32 \<Rightarrow> u32 \<Rightarrow> u32 \<Rightarrow> nat \<Rightarrow> u32 \<Rightarrow> u32 \<Rightarrow> u32 \<Rightarrow>
     ('d lfs, u32 \<times> u8 list) cmd" where
  "getslice_loop c dir gmask gtag goff gsize 0 off ntag gdiff = stuck Out_Of_Fuel"
| "getslice_loop c dir gmask gtag goff gsize (Suc n) off ntag gdiff =
     (if 4 + lfs_tag_dsize ntag \<le> off then
        let off' = off - lfs_tag_dsize ntag; tag = ntag
        in bnd (read_u32 c 4 (fst (md_pair dir)) off') (\<lambda>w.
           let ntag' = (lfs_frombe32 w XOR tag) AND 0x7fffffff
           in if lfs_tag_id gmask \<noteq> 0 \<and> lfs_tag_type1 tag = LFS_TYPE_SPLICE \<and>
                 lfs_tag_id tag \<le> lfs_tag_id (gtag - gdiff) then
                if tag = LFS_MKTAG LFS_TYPE_CREATE 0 0 OR (LFS_MKTAG 0 0x3ff 0 AND (gtag - gdiff))
                then throw LFS_ERR_NOENT
                else
                  let gdiff' = gdiff + LFS_MKTAG 0 (lfs_tag_splice tag) 0
                  in getslice_match c dir gmask gtag goff gsize off' tag gdiff'
                       (getslice_loop c dir gmask gtag goff gsize n off' ntag' gdiff')
              else getslice_match c dir gmask gtag goff gsize off' tag gdiff
                     (getslice_loop c dir gmask gtag goff gsize n off' ntag' gdiff))
      else throw LFS_ERR_NOENT)"

definition lfs_dir_getslice ::
  "'d lfs_config \<Rightarrow> lfs_mdir \<Rightarrow> u32 \<Rightarrow> u32 \<Rightarrow> u32 \<Rightarrow> u32 \<Rightarrow> ('d lfs, u32 \<times> u8 list) cmd" where
  "lfs_dir_getslice c dir gmask gtag goff gsize =
     bnd (gets lfs_gdisk) (\<lambda>gdisk.
     let gdiff = (if lfs_gstate_hasmovehere gdisk (md_pair dir) \<and> lfs_tag_id gmask \<noteq> 0 \<and>
                     lfs_tag_id (gs_tag gdisk) \<le> lfs_tag_id gtag
                  then 0 - LFS_MKTAG 0 1 0 else 0)
     in getslice_loop c dir gmask gtag goff gsize (unat (md_off dir) + 1) (md_off dir)
          (md_etag dir) gdiff)"

definition lfs_dir_get ::
  "'d lfs_config \<Rightarrow> lfs_mdir \<Rightarrow> u32 \<Rightarrow> u32 \<Rightarrow> ('d lfs, u32 \<times> u8 list) cmd" where
  "lfs_dir_get c dir gmask gtag = lfs_dir_getslice c dir gmask gtag 0 (lfs_tag_size gtag)"

section \<open>Reading the data of an inline file\<close>

text \<open>
  \<^verbatim>\<open>lfs_dir_getread\<close> works on a cache of the caller, so its state is that cache and the file
  system.
\<close>

definition dir_getread_load ::
  "'d lfs_config \<Rightarrow> lfs_mdir \<Rightarrow> u32 \<Rightarrow> u32 \<Rightarrow> u32 \<Rightarrow> u32 \<Rightarrow> (lfs_cache \<times> 'd lfs, unit) cmd" where
  "dir_getread_load c dir hint gmask gtag off =
     bnd (gets fst) (\<lambda>r.
     let roff = lfs_aligndown off (cfg_read_size c);
         rsize = lfs_min (lfs_alignup (off + hint) (cfg_read_size c)) (cfg_cache_size c)
     in bnd (modify (\<lambda>(r, s). (r\<lparr>cache_block := LFS_BLOCK_INLINE, cache_off := roff,
               cache_size := rsize\<rparr>, s))) (\<lambda>_.
        bnd (on_snd (lfs_dir_getslice c dir gmask gtag roff rsize)) (\<lambda>(_, xs).
        bnd (mem_write (cache_buffer r) 0 xs) (\<lambda>buf.
        modify (\<lambda>(r, s). (r\<lparr>cache_buffer := buf\<rparr>, s))))))"

fun getread_loop ::
  "'d lfs_config \<Rightarrow> lfs_mdir \<Rightarrow> lfs_cache option \<Rightarrow> u32 \<Rightarrow> u32 \<Rightarrow> u32 \<Rightarrow> nat \<Rightarrow> u32 \<Rightarrow> u32 \<Rightarrow>
     (lfs_cache \<times> 'd lfs, u8 list) cmd" where
  "getread_loop c dir pcache hint gmask gtag 0 off sz = stuck Out_Of_Fuel"
| "getread_loop c dir pcache hint gmask gtag (Suc n) off sz =
     (if sz = 0 then ret [] else
      let more = (\<lambda>diff xs. bnd (getread_loop c dir pcache hint gmask gtag n (off + diff) (sz - diff))
                    (\<lambda>ys. ret (xs @ ys)))
      in case (case pcache of None \<Rightarrow> Inr sz
                 | Some p \<Rightarrow> map_sum (\<lambda>diff. (diff, p)) id (cache_lookup p LFS_BLOCK_INLINE off sz)) of
           Inl (diff, p) \<Rightarrow> bnd (cache_copy p off diff) (more diff)
         | Inr limit \<Rightarrow>
             bnd (gets fst) (\<lambda>r.
             case cache_lookup r LFS_BLOCK_INLINE off limit of
               Inl diff \<Rightarrow> bnd (cache_copy r off diff) (more diff)
             | Inr _ \<Rightarrow>
                 bnd (dir_getread_load c dir hint gmask gtag off) (\<lambda>_.
                 getread_loop c dir pcache hint gmask gtag n off sz)))"

definition lfs_dir_getread ::
  "'d lfs_config \<Rightarrow> lfs_mdir \<Rightarrow> lfs_cache option \<Rightarrow> u32 \<Rightarrow> u32 \<Rightarrow> u32 \<Rightarrow> u32 \<Rightarrow> u32 \<Rightarrow>
     (lfs_cache \<times> 'd lfs, u8 list) cmd" where
  "lfs_dir_getread c dir pcache hint gmask gtag off sz =
     (if cfg_block_size c < off + sz then throw LFS_ERR_CORRUPT
      else getread_loop c dir pcache hint gmask gtag (2 * unat sz + 1) off sz)"

section \<open>Scanning a metadata pair\<close>

text \<open>
  The variables of the scan: the directory that is filled in, the best match so far, and those of
  the current pass over one block.
\<close>

record fetch_state =
  fs_dir :: lfs_mdir
  fs_best :: u32
  fs_off :: u32
  fs_ptag :: u32
  fs_count :: u16
  fs_tail :: pair
  fs_split :: bool
  fs_tempbest :: u32
  fs_crc :: u32

datatype fetch_next = Fetch_Next | Fetch_Break | Fetch_Fail lfs_error

text \<open>A callback gets the tag and the place of its data, and compares.\<close>

type_synonym 'd fetch_cb = "u32 \<Rightarrow> u32 \<Rightarrow> u32 \<Rightarrow> ('d lfs, lfs_cmp) cmd"

text \<open>\<^verbatim>\<open>dir->erased = false; break;\<close> when the code is \<^verbatim>\<open>LFS_ERR_CORRUPT\<close>, a return otherwise.\<close>

definition fetch_error :: "fetch_state \<Rightarrow> lfs_error \<Rightarrow> fetch_state \<times> fetch_next" where
  "fetch_error st e =
     (if e = LFS_ERR_CORRUPT then (st\<lparr>fs_dir := (fs_dir st)\<lparr>md_erased := False\<rparr>\<rparr>, Fetch_Break)
      else (st, Fetch_Fail e))"

definition fetch_try ::
  "fetch_state \<Rightarrow> ('d lfs, 'a) cmd \<Rightarrow> ('a \<Rightarrow> ('d lfs, fetch_state \<times> fetch_next) cmd) \<Rightarrow>
     ('d lfs, fetch_state \<times> fetch_next) cmd" where
  "fetch_try st m k = bnd (attempt m) (\<lambda>r. case r of Inl e \<Rightarrow> ret (fetch_error st e) | Inr a \<Rightarrow> k a)"

definition fetch_read ::
  "'d lfs_config \<Rightarrow> fetch_state \<Rightarrow> u32 \<Rightarrow> u32 \<Rightarrow> ('d lfs, u8 list) cmd" where
  "fetch_read c st off sz =
     on_rcache (lfs_bd_read c None (cfg_block_size c) (fst (md_pair (fs_dir st))) off sz)"

text \<open>A checksum tag ends a commit: check it, and take over what the pass has found.\<close>

definition fetch_crc ::
  "'d lfs_config \<Rightarrow> u32 \<Rightarrow> fetch_state \<Rightarrow> ('d lfs, fetch_state \<times> fetch_next) cmd" where
  "fetch_crc c tag st =
     fetch_try st (fetch_read c st (fs_off st + 4) 4) (\<lambda>bs.
     if fs_crc st \<noteq> lfs_fromle32 (u32_of_bytes bs) then
       ret (st\<lparr>fs_dir := (fs_dir st)\<lparr>md_erased := False\<rparr>\<rparr>, Fetch_Break)
     else
       let ptag = fs_ptag st XOR push_bit 31 (ucast (lfs_tag_chunk tag) AND 1)
       in bnd (modify (\<lambda>s. s\<lparr>lfs_seed := lfs_crc (lfs_seed s) (u32_bytes (fs_crc st))\<rparr>)) (\<lambda>_.
          ret (st\<lparr>fs_ptag := ptag,
                 fs_best := fs_tempbest st,
                 fs_dir := (fs_dir st)\<lparr>md_off := fs_off st + lfs_tag_dsize tag, md_etag := ptag,
                    md_count := fs_count st, md_tail := fs_tail st, md_split := fs_split st\<rparr>,
                 fs_crc := 0xffffffff\<rparr>, Fetch_Next)))"

text \<open>
  The checksum of the data of an entry, a byte at a time.  A corrupt read ends this loop only
  (the \<^verbatim>\<open>break\<close> is that of the inner loop), with the checksum of the bytes read so far.
\<close>

fun fetch_entry_crc ::
  "'d lfs_config \<Rightarrow> u32 \<Rightarrow> nat \<Rightarrow> u32 \<Rightarrow> fetch_state \<Rightarrow> ('d lfs, fetch_state \<times> fetch_next) cmd" where
  "fetch_entry_crc c dsz 0 j st = stuck Out_Of_Fuel"
| "fetch_entry_crc c dsz (Suc n) j st =
     (if j < dsz then
        bnd (attempt (fetch_read c st (fs_off st + j) 1)) (\<lambda>r. case r of
            Inl e \<Rightarrow>
              if e = LFS_ERR_CORRUPT
              then ret (st\<lparr>fs_dir := (fs_dir st)\<lparr>md_erased := False\<rparr>\<rparr>, Fetch_Next)
              else ret (st, Fetch_Fail e)
          | Inr bs \<Rightarrow> fetch_entry_crc c dsz n (j + 1) (st\<lparr>fs_crc := lfs_crc (fs_crc st) bs\<rparr>))
      else ret (st, Fetch_Next))"

text \<open>The effect of a splice tag on the count and on the best match of the pass.\<close>

definition fetch_splice :: "u32 \<Rightarrow> fetch_state \<Rightarrow> fetch_state" where
  "fetch_splice tag st =
     (let best = fs_tempbest st;
          best' = (if tag = LFS_MKTAG LFS_TYPE_DELETE 0 0 OR (LFS_MKTAG 0 0x3ff 0 AND best)
                   then best OR 0x80000000
                   else if best \<noteq> - 1 \<and> lfs_tag_id tag \<le> lfs_tag_id best
                   then best + LFS_MKTAG 0 (lfs_tag_splice tag) 0
                   else best)
      in st\<lparr>fs_count := fs_count st + ucast (lfs_tag_splice tag), fs_tempbest := best'\<rparr>)"

text \<open>Name, splice and tail tags.\<close>

definition fetch_modify ::
  "'d lfs_config \<Rightarrow> u32 \<Rightarrow> fetch_state \<Rightarrow> (fetch_state \<Rightarrow> ('d lfs, fetch_state \<times> fetch_next) cmd) \<Rightarrow>
     ('d lfs, fetch_state \<times> fetch_next) cmd" where
  "fetch_modify c tag st k =
     (if lfs_tag_type1 tag = LFS_TYPE_NAME then
        k (if ucast (fs_count st) \<le> lfs_tag_id tag
           then st\<lparr>fs_count := ucast (lfs_tag_id tag + 1)\<rparr> else st)
      else if lfs_tag_type1 tag = LFS_TYPE_SPLICE then k (fetch_splice tag st)
      else if lfs_tag_type1 tag = LFS_TYPE_TAIL then
        let st' = st\<lparr>fs_split := bit (lfs_tag_chunk tag) 0\<rparr>
        in fetch_try st' (fetch_read c st' (fs_off st' + 4) 8) (\<lambda>bs.
           k (st'\<lparr>fs_tail := lfs_pair_fromle32 (pair_of_bytes bs)\<rparr>))
      else k st)"

text \<open>The callback's verdict on a tag that the mask selects.\<close>

definition fetch_verdict :: "u32 \<Rightarrow> lfs_cmp \<Rightarrow> fetch_state \<Rightarrow> fetch_state" where
  "fetch_verdict tag res st =
     (let best = fs_tempbest st in
      if res = LFS_CMP_EQ then st\<lparr>fs_tempbest := tag\<rparr>
      else if LFS_MKTAG 0x7ff 0x3ff 0 AND tag = LFS_MKTAG 0x7ff 0x3ff 0 AND best
      then st\<lparr>fs_tempbest := - 1\<rparr>
      else if res = LFS_CMP_GT \<and> lfs_tag_id tag \<le> lfs_tag_id best
      then st\<lparr>fs_tempbest := tag OR 0x80000000\<rparr>
      else st)"

definition fetch_match ::
  "'d lfs_config \<Rightarrow> u32 \<Rightarrow> u32 \<Rightarrow> 'd fetch_cb \<Rightarrow> u32 \<Rightarrow> fetch_state \<Rightarrow>
     ('d lfs, fetch_state \<times> fetch_next) cmd" where
  "fetch_match c fmask ftag cb tag st =
     (if fmask AND tag = fmask AND ftag then
        fetch_try st (cb tag (fst (md_pair (fs_dir st))) (fs_off st + 4)) (\<lambda>res.
        ret (fetch_verdict tag res st, Fetch_Next))
      else ret (st, Fetch_Next))"

definition fetch_entry ::
  "'d lfs_config \<Rightarrow> u32 \<Rightarrow> u32 \<Rightarrow> 'd fetch_cb \<Rightarrow> u32 \<Rightarrow> fetch_state \<Rightarrow>
     ('d lfs, fetch_state \<times> fetch_next) cmd" where
  "fetch_entry c fmask ftag cb tag st =
     bnd (fetch_entry_crc c (lfs_tag_dsize tag) (unat (lfs_tag_dsize tag)) 4 st) (\<lambda>(st', nx).
     if nx \<noteq> Fetch_Next then ret (st', nx)
     else fetch_modify c tag st' (fetch_match c fmask ftag cb tag))"

text \<open>One turn of the scan: the next tag, and what it is.\<close>

definition fetch_step ::
  "'d lfs_config \<Rightarrow> u32 \<Rightarrow> u32 \<Rightarrow> 'd fetch_cb \<Rightarrow> fetch_state \<Rightarrow>
     ('d lfs, fetch_state \<times> fetch_next) cmd" where
  "fetch_step c fmask ftag cb st =
     (let ptag = fs_ptag st; st1 = st\<lparr>fs_off := fs_off st + lfs_tag_dsize ptag\<rparr>
      in fetch_try st1 (fetch_read c st1 (fs_off st1) 4) (\<lambda>bs.
         let st2 = st1\<lparr>fs_crc := lfs_crc (fs_crc st1) bs\<rparr>;
             tag = lfs_frombe32 (u32_of_bytes bs) XOR ptag
         in if \<not> lfs_tag_isvalid tag then
              ret (st2\<lparr>fs_dir := (fs_dir st2)\<lparr>md_erased :=
                     lfs_tag_type1 ptag = LFS_TYPE_CRC \<and>
                     md_off (fs_dir st2) mod cfg_prog_size c = 0\<rparr>\<rparr>, Fetch_Break)
            else if cfg_block_size c < fs_off st2 + lfs_tag_dsize tag then
              ret (st2\<lparr>fs_dir := (fs_dir st2)\<lparr>md_erased := False\<rparr>\<rparr>, Fetch_Break)
            else
              let st3 = st2\<lparr>fs_ptag := tag\<rparr>
              in if lfs_tag_type1 tag = LFS_TYPE_CRC then fetch_crc c tag st3
                 else fetch_entry c fmask ftag cb tag st3))"

fun fetch_loop ::
  "'d lfs_config \<Rightarrow> u32 \<Rightarrow> u32 \<Rightarrow> 'd fetch_cb \<Rightarrow> nat \<Rightarrow> fetch_state \<Rightarrow>
     ('d lfs, fetch_state \<times> lfs_error option) cmd" where
  "fetch_loop c fmask ftag cb 0 st = stuck Out_Of_Fuel"
| "fetch_loop c fmask ftag cb (Suc n) st =
     bnd (fetch_step c fmask ftag cb st) (\<lambda>(st', nx). case nx of
         Fetch_Next \<Rightarrow> fetch_loop c fmask ftag cb n st'
       | Fetch_Break \<Rightarrow> ret (st', None)
       | Fetch_Fail e \<Rightarrow> ret (st', Some e))"

text \<open>The start of a pass over one block.\<close>

definition fetch_start :: "lfs_mdir \<Rightarrow> u32 \<Rightarrow> fetch_state" where
  "fetch_start dir best =
     \<lparr>fs_dir = dir, fs_best = best, fs_off = 0, fs_ptag = 0xffffffff, fs_count = 0,
      fs_tail = (LFS_BLOCK_NULL, LFS_BLOCK_NULL), fs_split = False, fs_tempbest = best,
      fs_crc = lfs_crc 0xffffffff (u32_bytes (lfs_tole32 (md_rev dir)))\<rparr>"

text \<open>
  The result of a pass that found a commit: the id and the tag, 0 when the id lies past the end,
  or \<^verbatim>\<open>LFS_ERR_NOENT\<close>.
\<close>

definition fetch_result :: "lfs_gstate \<Rightarrow> fetch_state \<Rightarrow> u16 \<times> (lfs_error + u32)" where
  "fetch_result gdisk st =
     (let dir = fs_dir st; best = fs_best st;
          best' = (if lfs_gstate_hasmovehere gdisk (md_pair dir) then
                     if lfs_tag_id (gs_tag gdisk) = lfs_tag_id best then best OR 0x80000000
                     else if best \<noteq> - 1 \<and> lfs_tag_id (gs_tag gdisk) < lfs_tag_id best
                     then best - LFS_MKTAG 0 1 0
                     else best
                   else best);
          i = ucast (lfs_min (lfs_tag_id best') (ucast (md_count dir)))
      in if lfs_tag_isvalid best' then (i, Inr best')
         else if lfs_tag_id best' < ucast (md_count dir) then (i, Inl LFS_ERR_NOENT)
         else (i, Inr 0))"

text \<open>The two passes; \<open>orev\<close> is the revision of the other block.\<close>

fun fetch_passes ::
  "'d lfs_config \<Rightarrow> u32 \<Rightarrow> u32 \<Rightarrow> 'd fetch_cb \<Rightarrow> u32 \<Rightarrow> nat \<Rightarrow> lfs_mdir \<Rightarrow> u32 \<Rightarrow>
     ('d lfs, lfs_mdir \<times> u16 option \<times> (lfs_error + u32)) cmd" where
  "fetch_passes c fmask ftag cb orev 0 dir best = ret (dir, None, Inl LFS_ERR_CORRUPT)"
| "fetch_passes c fmask ftag cb orev (Suc i) dir best =
     bnd (fetch_loop c fmask ftag cb (unat (cfg_block_size c) + 2) (fetch_start dir best)) (\<lambda>(st, e).
     case e of
       Some err \<Rightarrow> ret (fs_dir st, None, Inl err)
     | None \<Rightarrow>
         if 0 < md_off (fs_dir st) then
           bnd (gets lfs_gdisk) (\<lambda>gdisk.
           let (i, res) = fetch_result gdisk st in ret (fs_dir st, Some i, res))
         else
           fetch_passes c fmask ftag cb orev i
             ((fs_dir st)\<lparr>md_pair := lfs_pair_swap (md_pair (fs_dir st)), md_rev := orev\<rparr>) (fs_best st))"

text \<open>
  The revision count of a block and whether it was read; that of a corrupt block counts as 0.
  The first block is the most recent one unless the second one was read and is newer.
\<close>

definition fetch_rev ::
  "'d lfs_config \<Rightarrow> u32 \<Rightarrow> ('d lfs, u32 \<times> bool) cmd" where
  "fetch_rev c block =
     bnd (attempt (read_u32 c 4 block 0)) (\<lambda>r. case r of
         Inr w \<Rightarrow> ret (lfs_fromle32 w, True)
       | Inl e \<Rightarrow> if e = LFS_ERR_CORRUPT then ret (lfs_fromle32 0, False) else throw e)"

definition lfs_dir_fetchmatch ::
  "'d lfs_config \<Rightarrow> lfs_mdir \<Rightarrow> pair \<Rightarrow> u32 \<Rightarrow> u32 \<Rightarrow> 'd fetch_cb \<Rightarrow>
     ('d lfs, lfs_mdir \<times> u16 option \<times> (lfs_error + u32)) cmd" where
  "lfs_dir_fetchmatch c dir pair fmask ftag cb =
     (if cfg_block_count c \<le> fst pair \<or> cfg_block_count c \<le> snd pair
      then ret (dir, None, Inl LFS_ERR_CORRUPT)
      else
        bnd (attempt (
          bnd (fetch_rev c (fst pair)) (\<lambda>(rev0, _).
          bnd (fetch_rev c (snd pair)) (\<lambda>(rev1, ok1).
          ret (rev0, rev1, ok1))))) (\<lambda>r. case r of
          Inl e \<Rightarrow> ret (dir, None, Inl e)
        | Inr (rev0, rev1, ok1) \<Rightarrow>
            let second = (ok1 \<and> 0 < lfs_scmp rev1 rev0)
            in fetch_passes c fmask ftag cb (if second then rev0 else rev1) 2
                 (dir\<lparr>md_pair := (if second then (snd pair, fst pair) else pair),
                      md_rev := (if second then rev1 else rev0), md_off := 0\<rparr>) (- 1)))"

text \<open>
  The plain fetch: a mask and tag of all ones match no valid tag, so the callback (a null pointer
  in C) is never called.
\<close>

definition null_cb :: "'d fetch_cb" where
  "null_cb tag block off = stuck Out_Of_Bounds"

definition lfs_dir_fetch ::
  "'d lfs_config \<Rightarrow> lfs_mdir \<Rightarrow> pair \<Rightarrow> ('d lfs, lfs_mdir \<times> lfs_error option) cmd" where
  "lfs_dir_fetch c dir pair =
     bnd (lfs_dir_fetchmatch c dir pair (- 1) (- 1) null_cb) (\<lambda>(dir', _, res).
     ret (dir', case res of Inl e \<Rightarrow> Some e | Inr _ \<Rightarrow> None))"

section \<open>Global state, file information\<close>

definition lfs_dir_getgstate ::
  "'d lfs_config \<Rightarrow> lfs_mdir \<Rightarrow> lfs_gstate \<Rightarrow> ('d lfs, lfs_gstate) cmd" where
  "lfs_dir_getgstate c dir gstate =
     bnd (attempt (lfs_dir_get c dir (LFS_MKTAG 0x7ff 0 0) (LFS_MKTAG LFS_TYPE_MOVESTATE 0 12))) (\<lambda>r.
     case r of
       Inl e \<Rightarrow> if e = LFS_ERR_NOENT then ret gstate else throw e
     | Inr (_, bs) \<Rightarrow> ret (lfs_gstate_xor gstate (lfs_gstate_fromle32 (gstate_of_bytes bs))))"

text \<open>
  The information structure: the type, the size and the buffer of the name; the caller's fields
  stay where an operation does not set them.
\<close>

record lfs_info =
  info_type :: u8
  info_size :: u32
  info_name :: "u8 list"

definition lfs_dir_getinfo ::
  "'d lfs_config \<Rightarrow> lfs_mdir \<Rightarrow> u16 \<Rightarrow> lfs_info \<Rightarrow> ('d lfs, lfs_info) cmd" where
  "lfs_dir_getinfo c dir i info =
     (if i = 0x3ff then
        bnd (mem_write (info_name info) 0 [0x2f, 0]) (\<lambda>name.
        ret (info\<lparr>info_name := name, info_type := ucast LFS_TYPE_DIR\<rparr>))
      else
        bnd (gets lfs_name_max) (\<lambda>nmax.
        bnd (lfs_dir_get c dir (LFS_MKTAG 0x780 0x3ff 0)
               (LFS_MKTAG LFS_TYPE_NAME (ucast i) (nmax + 1))) (\<lambda>(tag, bs).
        bnd (mem_write (info_name info) 0 bs) (\<lambda>name.
        let info1 = info\<lparr>info_name := name, info_type := ucast (lfs_tag_type3 tag)\<rparr>
        in bnd (lfs_dir_get c dir (LFS_MKTAG 0x700 0x3ff 0)
                  (LFS_MKTAG LFS_TYPE_STRUCT (ucast i) 8)) (\<lambda>(tag', zs).
           let ctz = lfs_ctz_fromle32 (ctz_of_bytes zs)
           in ret (if lfs_tag_type3 tag' = LFS_TYPE_CTZSTRUCT then info1\<lparr>info_size := ctz_size ctz\<rparr>
                   else if lfs_tag_type3 tag' = LFS_TYPE_INLINESTRUCT
                   then info1\<lparr>info_size := lfs_tag_size tag'\<rparr>
                   else info1))))))"

end
