(* ===== verification/LFS_Path.thy ===== *)
theory LFS_Path
  imports LFS_Mdir
begin

text \<open>
  Resolving a path, \<^verbatim>\<open>lfs_dir_find\<close> and \<^verbatim>\<open>lfs_dir_find_match\<close> of \<^verbatim>\<open>src/src/lfs/lfs.c\<close>.
  A C string is the list of its bytes before the terminator.  The treatment of \<open>.\<close> and \<open>..\<close> is
  lexical; the lemmas give it a specification on the list of the components of the path.
\<close>

section \<open>Lexical part\<close>

definition slash :: u8 where "slash = 0x2f"

definition dot :: u8 where "dot = 0x2e"

text \<open>\<^verbatim>\<open>p + strspn(p, "/")\<close> and the component of \<^verbatim>\<open>strcspn(p, "/")\<close> bytes.\<close>

definition skip_slashes :: "u8 list \<Rightarrow> u8 list" where
  "skip_slashes p = dropWhile (\<lambda>ch. ch = slash) p"

definition component :: "u8 list \<Rightarrow> u8 list" where
  "component p = takeWhile (\<lambda>ch. ch \<noteq> slash) p"

definition after_component :: "u8 list \<Rightarrow> u8 list" where
  "after_component p = dropWhile (\<lambda>ch. ch \<noteq> slash) p"

lemma skip_slashes_le: "length (skip_slashes p) \<le> length p"
  by (simp add: skip_slashes_def length_dropWhile_le)

lemma component_append: "component p @ after_component p = p"
  by (simp add: component_def after_component_def)

lemma after_component_less: "component p \<noteq> [] \<Longrightarrow> length (after_component p) < length p"
  using arg_cong [OF component_append [of p], of length]
  by (cases "component p") (simp_all del: component_append)

lemma after_component_le: "length (after_component p) \<le> length p"
  by (simp add: after_component_def length_dropWhile_le)

text \<open>
  The inner loop: look ahead for a \<open>..\<close> that cancels the component just seen.  The result is
  the rest of the path after it.
\<close>

function path_skip :: "u8 list \<Rightarrow> nat \<Rightarrow> u8 list option" where
  "path_skip suffix depth =
     (let p = skip_slashes suffix; nm = component p; rest = after_component p
      in if nm = [] then None
         else if nm = [dot, dot] then
           if depth - 1 = 0 then Some rest else path_skip rest (depth - 1)
         else path_skip rest (depth + 1))"
  by pat_completeness auto
termination
  by (relation "measure (length \<circ> fst)")
    (auto intro: order.strict_trans2 [OF after_component_less skip_slashes_le])

declare path_skip.simps [simp del]

lemma path_skip_less: "path_skip p depth = Some rest \<Longrightarrow> length rest < length p"
proof (induction p depth rule: path_skip.induct)
  case (1 p depth)
  let ?q = "skip_slashes p"
  have less: "length (after_component ?q) < length p" if "component ?q \<noteq> []"
    using after_component_less [OF that] skip_slashes_le [of p] by simp
  have ne: "component ?q \<noteq> []"
    using 1(3) path_skip.simps [of p depth] by (auto simp: Let_def)
  show ?case
  proof (cases "component ?q = [dot, dot]")
    case True
    show ?thesis
    proof (cases "depth - 1 = 0")
      case True
      then show ?thesis
        using 1(3) path_skip.simps [of p depth] \<open>component ?q = [dot, dot]\<close> less [OF ne]
        by (simp add: Let_def)
    next
      case False
      then have "path_skip (after_component ?q) (depth - 1) = Some rest"
        using 1(3) path_skip.simps [of p depth] \<open>component ?q = [dot, dot]\<close> by (simp add: Let_def)
      then show ?thesis using 1(1) [OF refl refl refl ne True False] less [OF ne] by simp
    qed
  next
    case False
    then have "path_skip (after_component ?q) (depth + 1) = Some rest"
      using 1(3) path_skip.simps [of p depth] ne by (simp add: Let_def)
    then show ?thesis using 1(2) [OF refl refl refl ne False] less [OF ne] by simp
  qed
qed

text \<open>The outer loop \<^verbatim>\<open>nextname\<close>: the path from the next component that has to be looked up.\<close>

function path_next :: "u8 list \<Rightarrow> u8 list" where
  "path_next name =
     (let p = skip_slashes name; nm = component p; rest = after_component p
      in if nm = [dot] \<or> nm = [dot, dot] then path_next rest
         else case path_skip rest 1 of
             Some r \<Rightarrow> path_next r
           | None \<Rightarrow> p)"
  by pat_completeness auto
termination
proof (relation "measure length")
  fix name p nm rest :: "u8 list" and r
  assume d: "p = skip_slashes name" "nm = component p" "rest = after_component p"
  have l: "nm \<noteq> [] \<Longrightarrow> length rest < length name"
    unfolding d by (rule order.strict_trans2 [OF after_component_less skip_slashes_le]) auto
  show "nm = [dot] \<or> nm = [dot, dot] \<Longrightarrow> (rest, name) \<in> measure length" using l by auto
  have "length rest \<le> length name"
    unfolding d using after_component_le [of "skip_slashes name"] skip_slashes_le [of name] by simp
  then show "path_skip rest 1 = Some r \<Longrightarrow> (r, name) \<in> measure length"
    using path_skip_less [of rest 1 r] by auto
qed simp

declare path_next.simps [simp del]

lemma path_parts_Nil [simp]:
  "skip_slashes [] = []" "component [] = []" "after_component [] = []" "path_skip [] d = None"
  by (simp_all add: skip_slashes_def component_def after_component_def path_skip.simps [of "[]"])

lemma path_next_Nil [simp]: "path_next [] = []"
  by (simp add: path_next.simps [of "[]"])

section \<open>What the lexical part computes\<close>

text \<open>
  The components of a path, and the names that are looked up when it is resolved: each round
  takes \<^const>\<open>path_next\<close> and goes on after the component found.  The reference is a stack: a name
  is pushed, \<open>..\<close> pops.
\<close>

function components :: "u8 list \<Rightarrow> u8 list list" where
  "components p = (let q = skip_slashes p; nm = component q
     in if nm = [] then [] else nm # components (after_component q))"
  by pat_completeness auto
termination
  by (relation "measure length")
    (auto intro: order.strict_trans2 [OF after_component_less skip_slashes_le])

declare components.simps [simp del]

lemma components_Nil [simp]: "components [] = []"
  by (simp add: components.simps [of "[]"])

lemma path_next_le: "length (path_next p) \<le> length p"
proof (induction p rule: path_next.induct)
  case (1 p)
  let ?q = "skip_slashes p"
  have le: "length (after_component ?q) \<le> length p"
    using after_component_le [of ?q] skip_slashes_le [of p] by simp
  show ?case
  proof (cases "component ?q = [dot] \<or> component ?q = [dot, dot]")
    case True
    then show ?thesis using 1(1) [OF refl refl refl True] le by (subst path_next.simps) (simp add: Let_def)
  next
    case False
    show ?thesis
    proof (cases "path_skip (after_component ?q) 1")
      case None
      then show ?thesis using False skip_slashes_le [of p] by (subst path_next.simps) (simp add: Let_def)
    next
      case (Some r)
      then show ?thesis
        using 1(2) [OF refl refl refl False Some] path_skip_less [OF Some] le False
        by (subst path_next.simps) (simp add: Let_def)
    qed
  qed
qed

function path_lookups :: "u8 list \<Rightarrow> u8 list list" where
  "path_lookups p = (let q = path_next p
     in if component q = [] then [] else component q # path_lookups (after_component q))"
  by pat_completeness auto
termination
  by (relation "measure length") (auto intro: order.strict_trans2 [OF after_component_less path_next_le])

declare path_lookups.simps [simp del]

definition path_step :: "u8 list \<Rightarrow> u8 list list \<Rightarrow> u8 list list" where
  "path_step nm st = (if nm = [dot, dot] then tl st else nm # st)"

text \<open>The look-ahead and the outer loop on lists of components.\<close>

fun comps_skip :: "u8 list list \<Rightarrow> nat \<Rightarrow> u8 list list option" where
  "comps_skip [] d = None"
| "comps_skip (x # xs) d =
     (if x = [dot, dot] then if d - 1 = 0 then Some xs else comps_skip xs (d - 1)
      else comps_skip xs (d + 1))"

lemma path_skip_components:
  "map_option components (path_skip p d) = comps_skip (components p) d"
proof (induction p d rule: path_skip.induct)
  case (1 p d)
  let ?q = "skip_slashes p"
  show ?case
  proof (cases "component ?q = []")
    case True
    then show ?thesis
      by (simp add: path_skip.simps [of p d] components.simps [of p] Let_def)
  next
    case ne: False
    then have c: "components p = component ?q # components (after_component ?q)"
      by (simp add: components.simps [of p] Let_def)
    show ?thesis
    proof (cases "component ?q = [dot, dot]")
      case True
      then show ?thesis
        using 1(1) [OF refl refl refl ne True] c by (simp add: path_skip.simps [of p d] Let_def)
    next
      case False
      then show ?thesis
        using 1(2) [OF refl refl refl ne False] c ne by (simp add: path_skip.simps [of p d] Let_def)
    qed
  qed
qed

lemma comps_skip_Some:
  "comps_skip cs (length ys) = Some r \<Longrightarrow> ys \<noteq> [] \<Longrightarrow>
     fold path_step cs (ys @ st) = fold path_step r st"
proof (induction cs arbitrary: ys)
  case (Cons x xs)
  then obtain y ys' where ys: "ys = y # ys'" by (cases ys) auto
  show ?case
  proof (cases "x = [dot, dot]")
    case True
    then show ?thesis
      using Cons.prems Cons.IH [of ys'] ys by (cases ys') (auto simp: path_step_def)
  next
    case False
    then show ?thesis
      using Cons.prems Cons.IH [of "x # ys"] by (simp add: path_step_def)
  qed
qed simp

lemma comps_skip_None:
  "comps_skip cs (Suc (length ys)) = None \<Longrightarrow>
     fold path_step cs (ys @ x # st) = fold path_step cs ys @ x # st"
proof (induction cs arbitrary: ys)
  case (Cons z zs)
  show ?case
  proof (cases "z = [dot, dot]")
    case True
    then have "ys \<noteq> []" using Cons.prems by auto
    then obtain y ys' where ys: "ys = y # ys'" by (cases ys) auto
    then show ?thesis using True Cons.prems Cons.IH [of ys'] by (simp add: path_step_def)
  next
    case False
    then show ?thesis using Cons.prems Cons.IH [of "z # ys"] by (simp add: path_step_def)
  qed
qed simp

lemma comps_skip_set: "comps_skip cs d = Some r \<Longrightarrow> set r \<subseteq> set cs"
  by (induction cs d rule: comps_skip.induct) (auto split: if_splits)

lemma component_skip_slashes [simp]: "skip_slashes (skip_slashes p) = skip_slashes p"
  by (induction p) (simp_all add: skip_slashes_def)

lemma component_skip_Nil: "component (skip_slashes p) = [] \<Longrightarrow> skip_slashes p = []"
proof (rule ccontr)
  assume c: "component (skip_slashes p) = []" and ne: "skip_slashes p \<noteq> []"
  from ne have "hd (skip_slashes p) \<noteq> slash"
    using hd_dropWhile [of "\<lambda>ch. ch = slash" p] by (simp add: skip_slashes_def)
  with c ne show False by (cases "skip_slashes p") (simp_all add: component_def)
qed

text \<open>One round: the components that are skipped cancel out.\<close>

lemma path_next_spec:
  "[dot] \<notin> set (components p) \<Longrightarrow> q = path_next p \<Longrightarrow>
     skip_slashes q = q \<and> set (components q) \<subseteq> set (components p) \<and>
     fold path_step (components p) [] = fold path_step (components q) [] \<and>
     (component q \<noteq> [] \<longrightarrow> component q \<noteq> [dot, dot] \<and>
        comps_skip (components (after_component q)) 1 = None)"
proof (induction p arbitrary: q rule: path_next.induct)
  case (1 p)
  let ?q = "skip_slashes p"
  show ?case
  proof (cases "component ?q = []")
    case True
    then have e: "?q = []" by (rule component_skip_Nil)
    then show ?thesis
      using True 1(4) by (simp add: path_next.simps [of p] components.simps [of p] Let_def)
  next
    case ne: False
    then have c: "components p = component ?q # components (after_component ?q)"
      by (simp add: components.simps [of p] Let_def)
    have nd: "component ?q \<noteq> [dot]" "[dot] \<notin> set (components (after_component ?q))"
      using 1(3) c by auto
    show ?thesis
    proof (cases "component ?q = [dot, dot]")
      case True
      then have "q = path_next (after_component ?q)"
        using 1(4) by (simp add: path_next.simps [of p] Let_def)
      note ih = 1(1) [OF refl refl refl disjI2 [OF True] nd(2) this]
      have "fold path_step (components p) [] = fold path_step (components (after_component ?q)) []"
        using True c by (simp add: path_step_def)
      then show ?thesis using ih c by auto
    next
      case nup: False
      show ?thesis
      proof (cases "path_skip (after_component ?q) 1")
        case None
        then have "path_next p = ?q" using nup nd by (simp add: path_next.simps [of p] Let_def)
        moreover have "comps_skip (components (after_component ?q)) 1 = None"
          using None path_skip_components [of "after_component ?q" 1] by simp
        moreover have "components ?q = components p"
          by (simp add: components.simps [of p] components.simps [of ?q])
        ultimately show ?thesis using 1(4) nup by simp
      next
        case (Some r)
        then have n: "path_next p = path_next r" using nup nd by (simp add: path_next.simps [of p] Let_def)
        have s: "comps_skip (components (after_component ?q)) (length [component ?q]) = Some (components r)"
          using Some path_skip_components [of "after_component ?q" 1] by simp
        have "fold path_step (components (after_component ?q)) ([component ?q] @ []) =
            fold path_step (components r) []"
          by (rule comps_skip_Some [OF s]) simp
        then have f: "fold path_step (components p) [] = fold path_step (components r) []"
          using c nup by (simp add: path_step_def)
        have sub: "set (components r) \<subseteq> set (components p)" using comps_skip_set [OF s] c by auto
        then have "[dot] \<notin> set (components r)" using 1(3) by auto
        moreover have "\<not> (component ?q = [dot] \<or> component ?q = [dot, dot])" using nup nd by simp
        ultimately show ?thesis
          using 1(2) [OF refl refl refl _ Some _ 1(4) [unfolded n]] f sub by auto
      qed
    qed
  qed
qed

text \<open>
  Without \<open>.\<close> components, the names looked up are those of the path with every \<open>..\<close> and the
  name it follows removed, and the leading \<open>..\<close> ignored.
\<close>

lemma path_lookups_spec:
  "[dot] \<notin> set (components p) \<Longrightarrow> path_lookups p = rev (fold path_step (components p) [])"
proof (induction p rule: path_lookups.induct)
  case (1 p)
  define q where "q = path_next p"
  note s = path_next_spec [OF 1(2) q_def]
  show ?case
  proof (cases "component q = []")
    case True
    then have "components q = []" using s by (simp add: components.simps [of q])
    then show ?thesis using True s by (simp add: path_lookups.simps [of p] q_def [symmetric])
  next
    case False
    then have c: "components q = component q # components (after_component q)"
      using s by (simp add: components.simps [of q] Let_def)
    have "[dot] \<notin> set (components (after_component q))" using 1(2) s c by auto
    then have "path_lookups (after_component q) = rev (fold path_step (components (after_component q)) [])"
      using 1(1) [OF q_def] False by simp
    moreover have "fold path_step (components p) [] =
        fold path_step (components (after_component q)) ([] @ component q # [])"
      using s c False by (simp add: path_step_def)
    moreover have "\<dots> = fold path_step (components (after_component q)) [] @ component q # []"
      by (rule comps_skip_None) (use s False in simp)
    ultimately show ?thesis
      using False by (simp add: path_lookups.simps [of p] q_def [symmetric] Let_def)
  qed
qed

section \<open>Looking up the components\<close>

text \<open>Compare a name with that of an entry on disk, then the lengths.\<close>

definition lfs_dir_find_match :: "'d lfs_config \<Rightarrow> u8 list \<Rightarrow> 'd fetch_cb" where
  "lfs_dir_find_match c name tag block off =
     (let sz = of_nat (length name); diff = lfs_min sz (lfs_tag_size tag)
      in bnd (on_rcache (lfs_bd_cmp c None diff block off name diff)) (\<lambda>res.
         if res \<noteq> LFS_CMP_EQ then ret res
         else if sz \<noteq> lfs_tag_size tag
         then ret (if sz < lfs_tag_size tag then LFS_CMP_LT else LFS_CMP_GT)
         else ret LFS_CMP_EQ))"

text \<open>
  The search for one name through the pairs of a directory.  The chain of hard tails is bounded
  by the number of blocks, which a chain without a cycle cannot exceed.
\<close>

fun find_in_dir ::
  "'d lfs_config \<Rightarrow> u8 list \<Rightarrow> bool \<Rightarrow> nat \<Rightarrow> lfs_mdir \<Rightarrow> u16 \<Rightarrow>
     ('d lfs, lfs_mdir \<times> u16 \<times> (lfs_error + u32)) cmd" where
  "find_in_dir c name islast 0 dir i = stuck Out_Of_Fuel"
| "find_in_dir c name islast (Suc n) dir i =
     bnd (lfs_dir_fetchmatch c dir (md_tail dir) (LFS_MKTAG 0x780 0 0)
            (LFS_MKTAG LFS_TYPE_NAME 0 (of_nat (length name))) (lfs_dir_find_match c name))
       (\<lambda>(dir', found, res).
        let i' = (case found of Some k \<Rightarrow> if islast then k else i | None \<Rightarrow> i)
        in case res of
             Inl e \<Rightarrow> ret (dir', i', Inl e)
           | Inr tag \<Rightarrow>
               if tag \<noteq> 0 then ret (dir', i', Inr tag)
               else if \<not> md_split dir' then ret (dir', i', Inl LFS_ERR_NOENT)
               else find_in_dir c name islast n dir' i')"

text \<open>
  Resolving a path: the directory of the last name, the rest of the path from the last name that
  was looked up, its id, and its tag or an error.
\<close>

fun dir_find_loop ::
  "'d lfs_config \<Rightarrow> nat \<Rightarrow> u8 list \<Rightarrow> lfs_mdir \<Rightarrow> u8 list \<Rightarrow> u16 \<Rightarrow> u32 \<Rightarrow>
     ('d lfs, lfs_mdir \<times> u8 list \<times> u16 \<times> (lfs_error + u32)) cmd" where
  "dir_find_loop c 0 name0 dir path i tag = stuck Out_Of_Fuel"
| "dir_find_loop c (Suc n) name0 dir path i tag =
     (let name = path_next name0 in
      if name = [] then ret (dir, path, i, Inr tag)
      else if lfs_tag_type3 tag \<noteq> LFS_TYPE_DIR then ret (dir, name, i, Inl LFS_ERR_NOTDIR)
      else
        bnd (if lfs_tag_id tag \<noteq> 0x3ff then
               bnd (attempt (lfs_dir_get c dir (LFS_MKTAG 0x700 0x3ff 0)
                      (LFS_MKTAG LFS_TYPE_STRUCT (lfs_tag_id tag) 8))) (\<lambda>r. case r of
                   Inl e \<Rightarrow> ret (dir, Some e)
                 | Inr (_, bs) \<Rightarrow>
                     ret (dir\<lparr>md_tail := lfs_pair_fromle32 (pair_of_bytes bs)\<rparr>, None))
             else ret (dir, None)) (\<lambda>(dir1, e).
        case e of
          Some err \<Rightarrow> ret (dir1, name, i, Inl err)
        | None \<Rightarrow>
            bnd (find_in_dir c (component name) (slash \<notin> set name)
                   (unat (cfg_block_count c) + 1) dir1 i) (\<lambda>(dir2, i', res).
            case res of
              Inl err \<Rightarrow> ret (dir2, name, i', Inl err)
            | Inr tag' \<Rightarrow> dir_find_loop c n (after_component name) dir2 name i' tag')))"

definition lfs_dir_find ::
  "'d lfs_config \<Rightarrow> lfs_mdir \<Rightarrow> u8 list \<Rightarrow>
     ('d lfs, lfs_mdir \<times> u8 list \<times> u16 \<times> (lfs_error + u32)) cmd" where
  "lfs_dir_find c dir path =
     bnd (gets lfs_root) (\<lambda>root.
     dir_find_loop c (length path + 1) path (dir\<lparr>md_tail := root\<rparr>) path 0x3ff
       (LFS_MKTAG LFS_TYPE_DIR 0x3ff 0))"

end
