(* ===== verification/LFS_Ctz.thy ===== *)
theory LFS_Ctz
  imports LFS_State
begin

text \<open>
  The index of a file, a backward skip list of blocks: \<^verbatim>\<open>lfs_ctz_index\<close>, \<^verbatim>\<open>lfs_ctz_find\<close> and
  \<^verbatim>\<open>lfs_ctz_traverse\<close> of \<^verbatim>\<open>src/src/lfs/lfs.c\<close>.  Block \<open>n \<ge> 1\<close> of a list starts with
  \<open>ctz n + 1\<close> pointers, the \<open>k\<close>-th one to block \<open>n - 2 ^ k\<close>.  The lemmas show that the closed
  formula of the code agrees with the layout, that the search ends at the right block, and that
  the traversal visits every block once.
\<close>

section \<open>The operations\<close>

text \<open>The index of the block of a position, and the offset in it (written through the pointer).\<close>

definition lfs_ctz_index :: "'z lfs_geometry_scheme \<Rightarrow> u32 \<Rightarrow> u32 \<times> u32" where
  "lfs_ctz_index c off =
     (let sz = off; b = cfg_block_size c - 2 * 4; i = sz div b
      in if i = 0 then (0, off)
         else let i' = (sz - 4 * (lfs_popc (i - 1) + 2)) div b
              in (i', sz - b * i' - 4 * lfs_popc i'))"

fun ctz_find_loop ::
  "'d lfs_config \<Rightarrow> lfs_cache option \<Rightarrow> u32 \<Rightarrow> nat \<Rightarrow> u32 \<Rightarrow> u32 \<Rightarrow> (lfs_cache \<times> 'd, u32) cmd" where
  "ctz_find_loop c pcache target 0 current head = stuck Out_Of_Fuel"
| "ctz_find_loop c pcache target (Suc n) current head =
     (if target < current then
        let skip = lfs_min (lfs_npw2 (current - target + 1) - 1) (lfs_ctz current)
        in bnd (lfs_bd_read c pcache 4 head (4 * skip) 4) (\<lambda>bs.
           ctz_find_loop c pcache target n (current - push_bit (unat skip) 1)
             (lfs_fromle32 (u32_of_bytes bs)))
      else ret head)"

definition lfs_ctz_find ::
  "'d lfs_config \<Rightarrow> lfs_cache option \<Rightarrow> u32 \<Rightarrow> u32 \<Rightarrow> u32 \<Rightarrow> (lfs_cache \<times> 'd, u32 \<times> u32) cmd" where
  "lfs_ctz_find c pcache head sz pos =
     (if sz = 0 then ret (LFS_BLOCK_NULL, 0)
      else
        let current = fst (lfs_ctz_index c (sz - 1)); (target, pos') = lfs_ctz_index c pos
        in bnd (ctz_find_loop c pcache target (unat current + 1) current head) (\<lambda>blk.
           ret (blk, pos')))"

text \<open>
  The traversal works on the file system and on the state of its callback.  \<open>heads\<close> are the
  first pointers of the block.
\<close>

fun ctz_traverse_loop ::
  "'d lfs_config \<Rightarrow> lfs_cache option \<Rightarrow> (u32 \<Rightarrow> ('d lfs \<times> 'x, unit) cmd) \<Rightarrow> nat \<Rightarrow> u32 \<Rightarrow> u32 \<Rightarrow>
     ('d lfs \<times> 'x, unit) cmd" where
  "ctz_traverse_loop c pcache cb 0 index head = stuck Out_Of_Fuel"
| "ctz_traverse_loop c pcache cb (Suc n) index head =
     bnd (cb head) (\<lambda>_.
     if index = 0 then ret ()
     else
       let count = 2 - (index AND 1)
       in bnd (on_fst (on_rcache (lfs_bd_read c pcache (count * 4) head 0 (count * 4)))) (\<lambda>bs.
          let head0 = lfs_fromle32 (u32_of_bytes (seg bs 0 4));
              head1 = lfs_fromle32 (u32_of_bytes (seg bs 4 4))
          in if count = 1 then ctz_traverse_loop c pcache cb n (index - count) head0
             else bnd (cb head0) (\<lambda>_. ctz_traverse_loop c pcache cb n (index - count) head1)))"

definition lfs_ctz_traverse ::
  "'d lfs_config \<Rightarrow> lfs_cache option \<Rightarrow> u32 \<Rightarrow> u32 \<Rightarrow> (u32 \<Rightarrow> ('d lfs \<times> 'x, unit) cmd) \<Rightarrow>
     ('d lfs \<times> 'x, unit) cmd" where
  "lfs_ctz_traverse c pcache head sz cb =
     (if sz = 0 then ret ()
      else let index = fst (lfs_ctz_index c (sz - 1))
           in ctz_traverse_loop c pcache cb (unat index + 1) index head)"

section \<open>The layout of the list\<close>

text \<open>The number of pointers of a block, and where its data starts in the file.\<close>

definition ctz_ptrs :: "nat \<Rightarrow> nat" where
  "ctz_ptrs i = (if i = 0 then 0 else tz i + 1)"

fun ctz_start :: "nat \<Rightarrow> nat \<Rightarrow> nat" where
  "ctz_start bs 0 = 0"
| "ctz_start bs (Suc i) = ctz_start bs i + (bs - 4 * ctz_ptrs i)"

text \<open>Summing the pointers gives the closed form that the code uses.\<close>

lemma ctz_ptrs_le: "0 < i \<Longrightarrow> ctz_ptrs i \<le> bitlen i"
proof -
  assume i: "0 < i"
  then have "2 ^ tz i < (2 :: nat) ^ bitlen i"
    using tz_le [of i] bitlen_upper [of i] by linarith
  then show ?thesis using i by (simp add: ctz_ptrs_def)
qed

lemma ctz_start_eq:
  "0 < n \<Longrightarrow> (\<And>i. i < n \<Longrightarrow> 4 * ctz_ptrs i \<le> bs) \<Longrightarrow> 8 \<le> bs \<Longrightarrow>
     ctz_start bs n = n * (bs - 8) + 4 * (pc (n - 1) + 2)"
proof (induction n)
  case (Suc n)
  show ?case
  proof (cases n)
    case 0
    then show ?thesis using Suc.prems by (simp add: ctz_ptrs_def)
  next
    case (Suc m)
    have p: "pc n + tz n = Suc (pc (n - 1))" using pc_Suc [of m] Suc by simp
    have le: "4 * (tz n + 1) \<le> bs" using Suc.prems(2) [of n] Suc by (simp add: ctz_ptrs_def)
    have "ctz_start bs n = n * (bs - 8) + 4 * (pc (n - 1) + 2)"
      using Suc.IH Suc.prems Suc by simp
    then have "ctz_start bs (Suc n) = n * (bs - 8) + 4 * (pc (n - 1) + 2) + (bs - 4 * (tz n + 1))"
      using Suc by (simp add: ctz_ptrs_def)
    moreover have "4 * (pc (n - 1) + 2) + (bs - 4 * (tz n + 1)) = (bs - 8) + 4 * (pc n + 2)"
      using p le Suc.prems(3) by arith
    ultimately show ?thesis by simp
  qed
qed simp

text \<open>
  The condition on the block size: the pointers of every block of a file of \<open>sz\<close> bytes fit,
  with room for two more.  A block size of 128 bytes is enough for all sizes.
\<close>

definition ctz_fits :: "nat \<Rightarrow> nat \<Rightarrow> bool" where
  "ctz_fits bs sz \<longleftrightarrow> 8 < bs \<and> 4 * (bitlen (sz div (bs - 8)) + 2) \<le> bs - 8"

lemma bitlen_mono: "m \<le> n \<Longrightarrow> bitlen m \<le> bitlen n"
  by (rule bitlen_less) (rule order.strict_trans1 [OF _ bitlen_upper])

lemma ctz_fits_128:
  assumes "128 \<le> bs" and "sz < 4294967296"
  shows "ctz_fits bs sz"
proof -
  have "sz div (bs - 8) \<le> sz div 120" using assms(1) by (intro div_le_mono2) auto
  also have "\<dots> < 2 ^ 26" using assms(2) by simp
  finally have "bitlen (sz div (bs - 8)) \<le> 26" by (rule bitlen_less)
  then show ?thesis using assms(1) by (simp add: ctz_fits_def)
qed

lemma ctz_fits_mono: "ctz_fits bs sz \<Longrightarrow> m \<le> sz \<Longrightarrow> ctz_fits bs m"
  using bitlen_mono [OF div_le_mono [of m sz "bs - 8"]] by (auto simp: ctz_fits_def)

text \<open>The index formula on natural numbers.\<close>

lemma ctz_index_nat:
  assumes f: "ctz_fits bs sz"
    and n: "n = (if sz div (bs - 8) = 0 then 0
                 else (sz - 4 * (pc (sz div (bs - 8) - 1) + 2)) div (bs - 8))"
  shows "ctz_start bs n \<le> sz" and "sz < ctz_start bs (Suc n)"
    and "0 < n \<Longrightarrow> (bs - 8) * n + 4 * pc n \<le> sz"
    and "0 < n \<Longrightarrow> sz - (bs - 8) * n - 4 * pc n = sz - ctz_start bs n + 4 * ctz_ptrs n"
    and "4 * ctz_ptrs n \<le> bs"
proof -
  define b where "b = bs - 8"
  define i where "i = sz div b"
  have b0: "0 < b" and fit: "4 * (bitlen i + 2) \<le> b" using f by (auto simp: ctz_fits_def b_def i_def)
  have i1: "i * b \<le> sz" "sz < Suc i * b"
    using dividend_less_div_times [OF b0, of sz] by (simp_all add: i_def)
  have pcb: "4 * (pc k + 2) \<le> b" if "k \<le> i" for k
    using fit pc_le_bitlen [of k] bitlen_mono [OF that] by arith
  have ptb: "4 * ctz_ptrs k \<le> bs" if "k \<le> i" for k
    using fit ctz_ptrs_le [of k] bitlen_mono [OF that] by (cases "k = 0") (auto simp: ctz_ptrs_def b_def)
  have st: "ctz_start bs k = k * b + 4 * (pc (k - 1) + 2)" if "0 < k" "k \<le> Suc i" for k
    unfolding b_def using that f ptb by (intro ctz_start_eq) (auto simp: ctz_fits_def)
  text \<open>The block is \<open>i\<close>, or the one before when the position is below its start.\<close>
  have n': "n = (if i = 0 then 0 else if sz < ctz_start bs i then i - 1 else i)"
  proof (cases "i = 0")
    case True
    then show ?thesis by (simp add: n i_def b_def)
  next
    case False
    define q where "q = 4 * (pc (i - 1) + 2)"
    have s: "ctz_start bs i = i * b + q" using st [of i] False by (simp add: q_def)
    have qb: "q \<le> b" using pcb [of "i - 1"] by (simp add: q_def)
    have nn: "n = (sz - q) div b" using False by (simp add: n i_def [symmetric] b_def [symmetric] q_def)
    show ?thesis
    proof (cases "sz < ctz_start bs i")
      case True
      have "0 < i * b" using False b0 by simp
      then have "sz - q < i * b" using True s by linarith
      then have "(i - 1) * b \<le> sz - q" "sz - q < Suc (i - 1) * b"
        using qb i1 False by (auto simp: diff_mult_distrib)
      then have "(sz - q) div b = i - 1" using b0
        by (intro div_nat_eqI) (simp_all add: mult.commute)
      then show ?thesis using True False nn by simp
    next
      case f2: False
      have "i * b \<le> sz - q" "sz - q < Suc i * b" using f2 s i1 by auto
      then have "(sz - q) div b = i" using b0
        by (intro div_nat_eqI) (simp_all add: mult.commute)
      then show ?thesis using f2 False nn by simp
    qed
  qed
  have S: "ctz_start bs n \<le> sz \<and> sz < ctz_start bs (Suc n)"
  proof (cases "i = 0")
    case True
    then have "sz < b" using i1 by simp
    then show ?thesis using True n' by (simp add: ctz_ptrs_def b_def)
  next
    case False
    show ?thesis
    proof (cases "sz < ctz_start bs i")
      case True
      have "ctz_start bs (i - 1) \<le> sz"
      proof (cases "i - 1 = 0")
        case False
        then show ?thesis
          using st [of "i - 1"] pcb [of "i - 1 - 1"] i1 by (auto simp: diff_mult_distrib)
      qed simp
      then show ?thesis using True False n' by simp
    next
      case f2: False
      then show ?thesis using False n' st [of "Suc i"] i1 by simp
    qed
  qed
  then show "ctz_start bs n \<le> sz" "sz < ctz_start bs (Suc n)" by simp_all
  have ni: "n \<le> i" using n' by auto
  then show "4 * ctz_ptrs n \<le> bs" by (rule ptb)
  assume n0: "0 < n"
  have sn: "ctz_start bs n = n * b + 4 * (pc (n - 1) + 2)" using st [of n] n0 ni by simp
  have p: "pc n + tz n = Suc (pc (n - 1))" using pc_Suc [of "n - 1"] n0 by simp
  show "(bs - 8) * n + 4 * pc n \<le> sz"
    using S sn p by (simp add: b_def [symmetric] mult.commute)
  show "sz - (bs - 8) * n - 4 * pc n = sz - ctz_start bs n + 4 * ctz_ptrs n"
    using S sn p n0 by (simp add: b_def [symmetric] mult.commute ctz_ptrs_def)
qed

lemma unat_minus_8: "8 < unat (b :: u32) \<Longrightarrow> unat (b - 2 * 4) = unat b - 8"
  using unat_sub_u32 [of "2 * 4" b] by simp

lemma popc_bound: "pc (unat (a :: u32)) \<le> 32"
  using pc_le_bitlen [of "unat a"] bitlen_u32 [of a] by linarith

text \<open>
  \<^const>\<open>lfs_ctz_index\<close> gives the block in whose range the position lies, and its offset behind the
  pointers of that block.
\<close>

lemma lfs_ctz_index_ok:
  assumes f: "ctz_fits (unat (cfg_block_size c)) (unat sz)"
    and r: "lfs_ctz_index c sz = (i, off)"
  shows "ctz_start (unat (cfg_block_size c)) (unat i) \<le> unat sz"
    and "unat sz < ctz_start (unat (cfg_block_size c)) (unat i + 1)"
    and "unat off = unat sz - ctz_start (unat (cfg_block_size c)) (unat i) + 4 * ctz_ptrs (unat i)"
    and "unat off < unat (cfg_block_size c)"
    and "4 * ctz_ptrs (unat i) \<le> unat (cfg_block_size c)"
proof -
  let ?bs = "unat (cfg_block_size c)"
  define b where "b = cfg_block_size c - 2 * 4"
  define i0 where "i0 = sz div b"
  define n where "n = (if unat sz div (?bs - 8) = 0 then 0
      else (unat sz - 4 * (pc (unat sz div (?bs - 8) - 1) + 2)) div (?bs - 8))"
  have b: "unat b = ?bs - 8" unfolding b_def using f by (intro unat_minus_8) (simp add: ctz_fits_def)
  have ui: "unat i0 = unat sz div (?bs - 8)" by (simp add: i0_def unat_div_u32 b)
  have z: "i0 = 0 \<longleftrightarrow> unat sz div (?bs - 8) = 0"
    using ui by (simp add: u32_eq)
  note N = ctz_index_nat [OF f n_def]
  have eq: "lfs_ctz_index c sz = (if i0 = 0 then (0, sz)
      else let i' = (sz - 4 * (lfs_popc (i0 - 1) + 2)) div b in (i', sz - b * i' - 4 * lfs_popc i'))"
    unfolding lfs_ctz_index_def Let_def i0_def b_def by (rule refl)
  have io: "unat i = n \<and> unat off = (if n = 0 then unat sz else unat sz - (?bs - 8) * n - 4 * pc n)"
  proof (cases "i0 = 0")
    case True
    then have "lfs_ctz_index c sz = (0, sz)" by (simp add: eq)
    moreover have "n = 0" unfolding n_def using True z by simp
    ultimately show ?thesis using r by auto
  next
    case False
    define q where "q = 4 * (lfs_popc (i0 - 1) + 2)"
    have i1: "unat (i0 - 1) = unat i0 - 1" using False by (simp add: unat_sub_u32 unat_gt_0 Suc_leI)
    have pb: "pc (unat (i0 - 1)) \<le> 32" by (rule popc_bound)
    have uq: "unat q = 4 * (pc (unat i0 - 1) + 2)"
      using pb by (simp add: q_def unat_mult_u32 unat_add_u32 unat_lfs_popc i1)
    have "unat q \<le> ?bs - 8"
    proof -
      have "pc (unat i0 - 1) \<le> bitlen (unat i0)"
        using pc_le_bitlen [of "unat i0 - 1"] bitlen_mono [of "unat i0 - 1" "unat i0"] by simp
      then show ?thesis using f uq by (simp add: ctz_fits_def ui)
    qed
    moreover have "?bs - 8 \<le> unat sz"
    proof -
      have "0 < unat sz div (?bs - 8)" using False z by simp
      then show ?thesis by (simp add: div_greater_zero_iff)
    qed
    ultimately have ql: "unat q \<le> unat sz" by linarith
    define i' where "i' = (sz - q) div b"
    have ui': "unat i' = n"
      using False z ql uq by (simp add: i'_def unat_div_u32 unat_sub_u32 b n_def ui)
    have res: "i = i'" "off = sz - b * i' - 4 * lfs_popc i'"
      using r unfolding eq if_not_P [OF False] Let_def q_def [symmetric] i'_def [symmetric]
      by auto
    have off: "unat off = unat sz - (?bs - 8) * n - 4 * pc n"
    proof (cases "n = 0")
      case True
      then have "i' = 0" using ui' by (simp only: u32_eq) simp
      moreover have "lfs_popc 0 = 0" using unat_lfs_popc [of 0] by (simp only: u32_eq) simp
      ultimately show ?thesis using res(2) True by simp
    next
      case n0: False
      have le: "(?bs - 8) * n + 4 * pc n \<le> unat sz" using N(3) n0 by simp
      have "(?bs - 8) * n < 4294967296" using le unat_less_u32 [of sz] by linarith
      then have m: "unat (b * i') = (?bs - 8) * n"
        by (subst unat_mult_u32) (simp_all add: b ui')
      have p: "unat (4 * lfs_popc i') = 4 * pc n"
        using popc_bound [of i'] by (simp add: unat_mult_u32 unat_lfs_popc ui')
      have s1: "unat (sz - b * i') = unat sz - (?bs - 8) * n"
        using le m by (subst unat_sub_u32) simp_all
      show ?thesis unfolding res(2) using le s1 p by (subst unat_sub_u32) simp_all
    qed
    then show ?thesis using res(1) ui' off unat_lfs_popc [of 0] by auto
  qed
  then show "ctz_start ?bs (unat i) \<le> unat sz" "unat sz < ctz_start ?bs (unat i + 1)"
    "4 * ctz_ptrs (unat i) \<le> ?bs"
    using N(1,2,5) by simp_all
  show o: "unat off = unat sz - ctz_start ?bs (unat i) + 4 * ctz_ptrs (unat i)"
    using io N(4) by (cases "n = 0") (auto simp: ctz_ptrs_def)
  show "unat off < ?bs"
    using o io N(1,2,5) by simp
qed

section \<open>Searching and traversing a list\<close>

text \<open>
  A list on the device: block \<open>blk n\<close> for each \<open>n \<le> lst\<close>, its pointers in the contents \<open>V\<close>.
\<close>

definition ctz_list ::
  "'z lfs_geometry_scheme \<Rightarrow> (u32 \<Rightarrow> u8 list) \<Rightarrow> (nat \<Rightarrow> u32) \<Rightarrow> nat \<Rightarrow> bool" where
  "ctz_list c V blk lst \<longleftrightarrow>
     (\<forall>n \<le> lst. blk n < cfg_block_count c \<and> 4 * ctz_ptrs n \<le> unat (cfg_block_size c) \<and>
        (\<forall>k < ctz_ptrs n. u32_of_bytes (seg (V (blk n)) (4 * k) 4) = lfs_tole32 (blk (n - 2 ^ k))))"

lemma ctz_listD:
  assumes "ctz_list c V blk lst" and "n \<le> lst"
  shows "blk n < cfg_block_count c"
    and "k < ctz_ptrs n \<Longrightarrow> lfs_fromle32 (u32_of_bytes (seg (V (blk n)) (4 * k) 4)) = blk (n - 2 ^ k)"
    and "k < ctz_ptrs n \<Longrightarrow> 4 * k + 4 \<le> unat (cfg_block_size c)"
  using assms by (auto simp: ctz_list_def)

text \<open>The jump of the search: a pointer that exists and does not pass the target.\<close>

lemma ctz_skip:
  assumes t: "(target :: u32) < current"
    and s: "skip = lfs_min (lfs_npw2 (current - target + 1) - 1) (lfs_ctz current)"
  shows "unat skip < ctz_ptrs (unat current)"
    and "unat (current - push_bit (unat skip) 1) = unat current - 2 ^ unat skip"
    and "unat target \<le> unat current - 2 ^ unat skip"
    and "unat (4 * skip) = 4 * unat skip"
proof -
  have tl: "unat target < unat current" using t by (simp add: u32_less)
  have c0: "current \<noteq> 0" "0 < unat current" using tl by (auto simp: unat_gt_0)
  have d: "unat (current - target) = unat current - unat target" using tl by (simp add: unat_sub_u32)
  define m where "m = unat current - unat target"
  have m: "0 < m" using tl by (simp add: m_def)
  have np: "unat (lfs_npw2 (current - target + 1)) = bitlen m"
    by (simp add: unat_lfs_npw2 d m_def)
  have b1: "1 \<le> bitlen m" using bitlen_pos [OF m] by simp
  have np1: "unat (lfs_npw2 (current - target + 1) - 1) = bitlen m - 1"
    using b1 np by (subst unat_sub_u32) simp_all
  have us: "unat skip = min (bitlen m - 1) (tz (unat current))"
    using np1 c0(1) by (simp add: s unat_lfs_min unat_lfs_ctz)
  then show "unat skip < ctz_ptrs (unat current)" using c0(2) by (simp add: ctz_ptrs_def)
  have "(2 :: nat) ^ unat skip \<le> 2 ^ (bitlen m - 1)" using us by (intro power_increasing) simp_all
  then have le: "2 ^ unat skip \<le> m" using bitlen_lower [OF m] by linarith
  have s32: "unat skip < 32" using us tz_less_32 [OF c0(1)] by simp
  then have p: "unat (push_bit (unat skip) 1 :: u32) = 2 ^ unat skip"
    using u32_pow2 [OF s32] by (simp add: push_bit_eq_mult)
  show "unat (current - push_bit (unat skip) 1) = unat current - 2 ^ unat skip"
    using le p by (subst unat_sub_u32) (simp_all add: m_def)
  show "unat target \<le> unat current - 2 ^ unat skip" using le tl by (simp add: m_def)
  show "unat (4 * skip) = 4 * unat skip" using s32 by (simp add: unat_mult_u32)
qed

text \<open>
  A callback of a traversal as a function on the state: it neither reads nor writes the read
  cache, and leaves the device alone.
\<close>

definition put_rcache :: "lfs_cache \<Rightarrow> 'd lfs \<times> 'x \<Rightarrow> 'd lfs \<times> 'x" where
  "put_rcache r y = ((fst y)\<lparr>lfs_rcache := r\<rparr>, snd y)"

definition visits :: "(u32 \<Rightarrow> ('d lfs \<times> 'x, unit) cmd) \<Rightarrow> (u32 \<Rightarrow> 'd lfs \<times> 'x \<Rightarrow> 'd lfs \<times> 'x) \<Rightarrow> bool" where
  "visits cb g \<longleftrightarrow> (\<forall>b y. cb b y = (Ok (), g b y)) \<and>
     (\<forall>b y. lfs_dev (fst (g b y)) = lfs_dev (fst y)) \<and>
     (\<forall>b r y. g b (put_rcache r y) = put_rcache r (g b y))"

lemma put_rcache_simps [simp]:
  "lfs_rcache (fst (put_rcache r y)) = r" "lfs_dev (fst (put_rcache r y)) = lfs_dev (fst y)"
  "put_rcache r (put_rcache r' y) = put_rcache r y"
  by (simp_all add: put_rcache_def)

text \<open>The blocks in the order of the visit.\<close>

definition ctz_blocks :: "(nat \<Rightarrow> u32) \<Rightarrow> nat \<Rightarrow> u32 list" where
  "ctz_blocks blk n = map blk (rev [0..<Suc n])"

lemma ctz_blocks_0: "ctz_blocks blk 0 = [blk 0]"
  by (simp add: ctz_blocks_def)

lemma ctz_blocks_Suc: "ctz_blocks blk (Suc n) = blk (Suc n) # ctz_blocks blk n"
  by (simp add: ctz_blocks_def)

lemma and_1_u32: "unat (x AND 1 :: u32) = unat x mod 2"
  by (simp only: and_one_eq unat_mod_u32) simp

context block_device begin

lemma ctz_find_loop_ok:
  assumes v: "valid d" and p: "\<And>p. pcache = Some p \<Longrightarrow> cache_inside c p"
    and l: "ctz_list c (overlay pcache (contents d)) blk lst"
  shows "cache_coherent c (contents d) r \<Longrightarrow> unat target \<le> unat current \<Longrightarrow> unat current \<le> lst \<Longrightarrow>
    unat current - unat target < n \<Longrightarrow> head = blk (unat current) \<Longrightarrow>
    wp (ctz_find_loop c pcache target n current head)
      (okp (\<lambda>b (r', d'). d' = d \<and> cache_coherent c (contents d) r' \<and> b = blk (unat target))) (r, d)"
proof (induction n arbitrary: current head r)
  case (Suc n)
  note w = wf_geometryD [OF geometry [OF v]]
  show ?case
  proof (cases "target < current")
    case False
    then have "unat current = unat target" using Suc.prems(2) by (simp add: u32_less)
    then show ?thesis using False Suc.prems by (simp add: wp_ret)
  next
    case True
    define skip where "skip = lfs_min (lfs_npw2 (current - target + 1) - 1) (lfs_ctz current)"
    note sk = ctz_skip [OF True skip_def]
    note ld = ctz_listD [OF l Suc.prems(3)]
    have ph: "head < cfg_block_count c" using ld(1) Suc.prems(5) by simp
    have "wp (lfs_bd_read c pcache 4 head (4 * skip) 4)
        (okp (\<lambda>xs (r', d'). d' = d \<and> cache_coherent c (contents d) r' \<and>
           lfs_fromle32 (u32_of_bytes xs) = blk (unat current - 2 ^ unat skip))) (r, d)"
      by (rule wp_okp_mono [OF bd_read_ok [OF v ph _ _ p Suc.prems(1)]])
        (use ld(3) [OF sk(1)] ld(2) [OF sk(1)] sk(4) w Suc.prems(5) in auto)
    moreover have "wp (ctz_find_loop c pcache target n (current - push_bit (unat skip) 1) h)
        (okp (\<lambda>b (r', d'). d' = d \<and> cache_coherent c (contents d) r' \<and> b = blk (unat target))) (r', d)"
      if "cache_coherent c (contents d) r'" "h = blk (unat current - 2 ^ unat skip)" for r' h
    proof (rule Suc.IH [OF that(1)])
      have "0 < (2 :: nat) ^ unat skip" by simp
      then have "unat current - 2 ^ unat skip - unat target < n"
        using Suc.prems(4) True sk(3) unfolding u32_less by linarith
      then show "unat (current - push_bit (unat skip) 1) - unat target < n"
        by (simp only: sk(2))
    qed (use sk(2,3) Suc.prems(3) that(2) in simp_all)
    ultimately show ?thesis
      using True by (simp add: Let_def skip_def [symmetric] wp_bnd)
        (erule wp_okp_mono, auto)
  qed
qed simp

text \<open>
  The search for a position of the file ends at the block of that position: the one whose range
  contains it.
\<close>

lemma ctz_find_ok:
  assumes v: "valid d" and p: "\<And>p. pcache = Some p \<Longrightarrow> cache_inside c p"
    and coh: "cache_coherent c (contents d) r"
    and l: "ctz_list c (overlay pcache (contents d)) blk lst"
    and f: "ctz_fits (unat (cfg_block_size c)) (unat sz - 1)"
    and sz: "0 < unat sz" "unat pos < unat sz"
    and cur: "lst = unat (fst (lfs_ctz_index c (sz - 1)))" and h: "head = blk lst"
  shows "wp (lfs_ctz_find c pcache head sz pos)
      (okp (\<lambda>(b, off) (r', d'). d' = d \<and> cache_coherent c (contents d) r' \<and>
         (\<exists>n \<le> lst. b = blk n \<and> ctz_start (unat (cfg_block_size c)) n \<le> unat pos \<and>
            unat pos < ctz_start (unat (cfg_block_size c)) (n + 1) \<and>
            unat off = unat pos - ctz_start (unat (cfg_block_size c)) n + 4 * ctz_ptrs n \<and>
            unat off < unat (cfg_block_size c)))) (r, d)"
proof -
  let ?S = "ctz_start (unat (cfg_block_size c))"
  obtain current x where ci: "lfs_ctz_index c (sz - 1) = (current, x)" by (cases "lfs_ctz_index c (sz - 1)")
  obtain target off where ti: "lfs_ctz_index c pos = (target, off)" by (cases "lfs_ctz_index c pos")
  have s1: "unat (sz - 1) = unat sz - 1" using sz(1) by (simp add: unat_sub_u32 Suc_leI)
  note C = lfs_ctz_index_ok [OF f [folded s1] ci]
  have fp: "ctz_fits (unat (cfg_block_size c)) (unat pos)"
    using f by (rule ctz_fits_mono) (use sz in linarith)
  note T = lfs_ctz_index_ok [OF fp ti]
  have mono: "?S m \<le> ?S k" if "m \<le> k" for m k
    using lift_Suc_mono_le [of ?S, OF _ that] by simp
  have tc: "unat target \<le> unat current"
  proof (rule ccontr)
    assume "\<not> unat target \<le> unat current"
    then have "?S (unat current + 1) \<le> ?S (unat target)" by (intro mono) simp
    then show False using C(2) T(1) s1 sz by linarith
  qed
  have lc: "lst = unat current" using cur ci by simp
  have nz: "sz \<noteq> 0" using sz(1) by auto
  have "wp (ctz_find_loop c pcache target (unat current + 1) current head)
      (okp (\<lambda>b (r', d'). d' = d \<and> cache_coherent c (contents d) r' \<and> b = blk (unat target))) (r, d)"
    by (rule ctz_find_loop_ok [OF v p l coh tc]) (use lc h in auto)
  then show ?thesis
    using nz
    by (simp add: lfs_ctz_find_def ci ti Let_def wp_bnd del: ctz_find_loop.simps ctz_start.simps)
      (erule wp_okp_mono, use T tc lc in
        \<open>auto simp: wp_ret simp del: ctz_start.simps intro!: exI [of _ "unat target"]\<close>)
qed

lemma ctz_traverse_loop_ok:
  assumes p: "\<And>p. pcache = Some p \<Longrightarrow> cache_inside c p" and cb: "visits cb g"
    and v: "valid d" and l: "ctz_list c (overlay pcache (contents d)) blk lst"
  shows "lfs_dev (fst y) = d \<Longrightarrow> cache_coherent c (contents d) (lfs_rcache (fst y)) \<Longrightarrow>
    unat index \<le> lst \<Longrightarrow> unat index < n \<Longrightarrow> head = blk (unat index) \<Longrightarrow>
    wp (ctz_traverse_loop c pcache cb n index head)
      (okp (\<lambda>_ y'. \<exists>r. cache_coherent c (contents d) r \<and>
         y' = put_rcache r (fold g (ctz_blocks blk (unat index)) y))) y"
proof (induction n arbitrary: index head y)
  case (Suc n)
  note w = wf_geometryD [OF geometry [OF v]]
  have g: "cb b z = (Ok (), g b z)" "lfs_dev (fst (g b z)) = lfs_dev (fst z)"
    "g b (put_rcache r z) = put_rcache r (g b z)" for b r z
    using cb unfolding visits_def by blast+
  have grc: "lfs_rcache (fst (g b z)) = lfs_rcache (fst z)" for b z
  proof -
    have "put_rcache (lfs_rcache (fst z)) z = z" by (simp add: put_rcache_def)
    then have "g b z = put_rcache (lfs_rcache (fst z)) (g b z)"
      using g(3) [of b "lfs_rcache (fst z)" z] by simp
    then show ?thesis by (metis put_rcache_simps(1))
  qed
  have gf: "fold g bs (put_rcache r z) = put_rcache r (fold g bs z)" for bs r z
    by (induction bs arbitrary: z) (simp_all add: g(3))
  note ld = ctz_listD [OF l Suc.prems(3)]
  show ?case
  proof (cases "index = 0")
    case True
    have "put_rcache (lfs_rcache (fst y)) (g head y) = g head y"
      unfolding put_rcache_def grc [of head y, symmetric] by simp
    then show ?thesis
      using True Suc.prems(2,5)
      by (simp add: wp_bnd_run [OF g(1)] wp_ret ctz_blocks_0 exI [of _ "lfs_rcache (fst y)"])
  next
    case False
    then have i0: "0 < unat index" by (simp add: unat_gt_0)
    define count where "count = 2 - (index AND 1)"
    have uc: "unat count = 2 - unat index mod 2" by (simp add: count_def unat_sub_u32 and_1_u32)
    have cp: "unat count - 1 < ctz_ptrs (unat index)"
      using uc i0 by (cases "even (unat index)") (auto simp: ctz_ptrs_def tz_even even_iff_mod_2_eq_zero)
    have c4: "unat (count * 4) = unat count * 4"
      using uc by (subst unat_mult_u32) (auto intro: le_less_trans [of _ 8])
    have "2 - i mod 2 \<le> i" if "0 < i" for i :: nat using that by presburger
    then have ci: "unat count \<le> unat index" using uc i0 by simp
    define z where "z = g head y"
    have zd: "lfs_dev (fst z) = d" "lfs_rcache (fst z) = lfs_rcache (fst y)"
      using g(2) grc Suc.prems(1) by (simp_all add: z_def)
    have hb: "head < cfg_block_count c" using ld(1) Suc.prems(5) by simp
    have fit: "4 * unat count \<le> unat (cfg_block_size c)" using ld(3) [OF cp] uc by auto
    let ?V = "overlay pcache (contents d) head"
    have rd: "wp (on_fst (on_rcache (lfs_bd_read c pcache (count * 4) head 0 (count * 4))))
        (okp (\<lambda>xs y'. \<exists>r. cache_coherent c (contents d) r \<and> y' = put_rcache r z \<and>
           xs = seg ?V 0 (4 * unat count))) z"
    proof -
      have "wp (lfs_bd_read c pcache (count * 4) head 0 (count * 4))
          (okp (\<lambda>xs (r', d'). d' = d \<and> cache_coherent c (contents d) r' \<and>
             xs = seg ?V (unat (0 :: u32)) (unat (count * 4)))) (lfs_rcache (fst z), d)"
        using fit c4 uc Suc.prems(2) zd by (intro bd_read_ok v hb p) auto
      then show ?thesis
        using zd c4 by (cases z) (simp add: wp_simps,
          erule wp_okp_mono, auto simp: put_rcache_def mult.commute)
    qed
    have h0: "lfs_fromle32 (u32_of_bytes (seg (seg ?V 0 (4 * unat count)) 0 4)) = blk (unat index - 1)"
      using ld(2) [of 0] Suc.prems(5) cp uc by (subst seg_seg) auto
    have rest: "wp (ctz_traverse_loop c pcache cb n (index - count) h)
        (okp (\<lambda>_ y'. \<exists>r. cache_coherent c (contents d) r \<and>
           y' = put_rcache r (fold g (ctz_blocks blk (unat index - unat count)) x))) (put_rcache r x)"
      if "cache_coherent c (contents d) r" "lfs_dev (fst x) = d" "h = blk (unat index - unat count)" for r x h
    proof -
      have s: "unat (index - count) = unat index - unat count" using ci by (rule unat_sub_u32)
      show ?thesis
        by (rule wp_okp_mono [OF Suc.IH [where y = "put_rcache r x"]])
          (use that s Suc.prems(3,4) i0 uc ci gf in auto)
    qed
    have step: "wp (ctz_traverse_loop c pcache cb (Suc n) index head) Q y =
        wp (bnd (on_fst (on_rcache (lfs_bd_read c pcache (count * 4) head 0 (count * 4)))) (\<lambda>bs.
          if count = 1
          then ctz_traverse_loop c pcache cb n (index - count) (lfs_fromle32 (u32_of_bytes (seg bs 0 4)))
          else bnd (cb (lfs_fromle32 (u32_of_bytes (seg bs 0 4)))) (\<lambda>_.
            ctz_traverse_loop c pcache cb n (index - count) (lfs_fromle32 (u32_of_bytes (seg bs 4 4)))))) Q z"
      for Q
      unfolding ctz_traverse_loop.simps wp_bnd_run [OF g(1)] if_not_P [OF False] Let_def
        count_def [symmetric] z_def [symmetric] by (rule refl)
    show ?thesis
    proof (cases "odd (unat index)")
      case True
      then have c1: "unat count = 1" "count = 1" using uc by (auto simp: u32_eq odd_iff_mod_2_eq_one)
      have e: "ctz_blocks blk (unat index) = head # ctz_blocks blk (unat index - 1)"
        using ctz_blocks_Suc [of blk "unat index - 1"] i0 Suc.prems(5) by simp
      show ?thesis
        unfolding step wp_bnd
      proof (rule wp_okp_mono [OF rd], elim exE conjE, unfold outcome.case, hypsubst)
        fix r assume r: "cache_coherent c (contents d) r"
        show "wp (if count = 1 then ctz_traverse_loop c pcache cb n (index - count)
              (lfs_fromle32 (u32_of_bytes (seg (seg ?V 0 (4 * unat count)) 0 4)))
            else bnd (cb (lfs_fromle32 (u32_of_bytes (seg (seg ?V 0 (4 * unat count)) 0 4))))
              (\<lambda>_. ctz_traverse_loop c pcache cb n (index - count)
                (lfs_fromle32 (u32_of_bytes (seg (seg ?V 0 (4 * unat count)) 4 4)))))
          (okp (\<lambda>_ y'. \<exists>r. cache_coherent c (contents d) r \<and>
            y' = put_rcache r (fold g (ctz_blocks blk (unat index)) y))) (put_rcache r z)"
          using rest [OF r zd(1)] h0 c1 e by (simp add: z_def)
      qed
    next
      case ev: False
      then have c2: "unat count = 2" "count \<noteq> 1" using uc by (auto simp: u32_eq)
      have i2: "2 \<le> unat index" using ci c2 by simp
      have e: "ctz_blocks blk (unat index) = head # blk (unat index - 1) # ctz_blocks blk (unat index - 2)"
        using ctz_blocks_Suc [of blk "unat index - 1"] ctz_blocks_Suc [of blk "unat index - 2"]
          i2 Suc.prems(5) by (simp add: Suc_diff_Suc numeral_2_eq_2)
      have h1: "lfs_fromle32 (u32_of_bytes (seg (seg ?V 0 (4 * unat count)) 4 4)) = blk (unat index - 2)"
        using ld(2) [of 1] Suc.prems(5) cp c2 by (subst seg_seg) auto
      show ?thesis
        unfolding step wp_bnd
      proof (rule wp_okp_mono [OF rd], elim exE conjE, unfold outcome.case, hypsubst)
        fix r assume r: "cache_coherent c (contents d) r"
        show "wp (if count = 1 then ctz_traverse_loop c pcache cb n (index - count)
              (lfs_fromle32 (u32_of_bytes (seg (seg ?V 0 (4 * unat count)) 0 4)))
            else bnd (cb (lfs_fromle32 (u32_of_bytes (seg (seg ?V 0 (4 * unat count)) 0 4))))
              (\<lambda>_. ctz_traverse_loop c pcache cb n (index - count)
                (lfs_fromle32 (u32_of_bytes (seg (seg ?V 0 (4 * unat count)) 4 4)))))
          (okp (\<lambda>_ y'. \<exists>r. cache_coherent c (contents d) r \<and>
            y' = put_rcache r (fold g (ctz_blocks blk (unat index)) y))) (put_rcache r z)"
          unfolding if_not_P [OF c2(2)] wp_bnd_run [OF g(1)] g(3)
          using rest [OF r, of "g (blk (unat index - 1)) z" "blk (unat index - 2)"] h0 h1 c2 e zd g(2)
          by (simp add: z_def)
      qed
    qed
  qed
qed simp

text \<open>The traversal calls the callback on every block of the list, from the last to the first.\<close>

lemma ctz_traverse_ok:
  assumes "valid d" and "\<And>p. pcache = Some p \<Longrightarrow> cache_inside c p" and "visits cb g"
    and "ctz_list c (overlay pcache (contents d)) blk lst"
    and "lfs_dev (fst y) = d" and "cache_coherent c (contents d) (lfs_rcache (fst y))"
    and "0 < unat sz" and "lst = unat (fst (lfs_ctz_index c (sz - 1)))" and "head = blk lst"
  shows "wp (lfs_ctz_traverse c pcache head sz cb)
      (okp (\<lambda>_ y'. \<exists>r. cache_coherent c (contents d) r \<and>
         y' = put_rcache r (fold g (ctz_blocks blk lst) y))) y"
proof -
  have "sz \<noteq> 0" using assms(7) by auto
  then show ?thesis
    unfolding lfs_ctz_traverse_def if_not_P [OF \<open>sz \<noteq> 0\<close>] Let_def assms(8)
    by (intro ctz_traverse_loop_ok assms) (use assms in auto)
qed

end

end
