(* ===== verification/LFS_Alloc.thy ===== *)
theory LFS_Alloc
  imports LFS_Ctz LFS_Mdir
begin

text \<open>
  The traversal of the blocks in use and the block allocator, \<^verbatim>\<open>lfs_fs_rawtraverse\<close>,
  \<^verbatim>\<open>lfs_fs_rawsize\<close>, \<^verbatim>\<open>lfs_alloc_lookahead\<close>, \<^verbatim>\<open>lfs_alloc_ack\<close>, \<^verbatim>\<open>lfs_alloc_drop\<close> and
  \<^verbatim>\<open>lfs_alloc\<close> of \<^verbatim>\<open>src/src/lfs/lfs.c\<close>.  The callbacks work on the file system and on a state of
  their own.
\<close>

section \<open>The blocks in use\<close>

type_synonym ('d, 'x) block_cb = "u32 \<Rightarrow> ('d lfs \<times> 'x, unit) cmd"

text \<open>One entry of a directory: the blocks of its file, or the pair of its directory.\<close>

definition rawtraverse_entry ::
  "'d lfs_config \<Rightarrow> ('d, 'x) block_cb \<Rightarrow> bool \<Rightarrow> lfs_mdir \<Rightarrow> u16 \<Rightarrow> ('d lfs \<times> 'x, unit) cmd" where
  "rawtraverse_entry c cb includeorphans dir i =
     bnd (attempt (on_fst (lfs_dir_get c dir (LFS_MKTAG 0x700 0x3ff 0)
                             (LFS_MKTAG LFS_TYPE_STRUCT (ucast i) 8)))) (\<lambda>r. case r of
         Inl e \<Rightarrow> if e = LFS_ERR_NOENT then ret () else throw e
       | Inr (tag, bs) \<Rightarrow>
           let ctz = lfs_ctz_fromle32 (ctz_of_bytes bs)
           in if lfs_tag_type3 tag = LFS_TYPE_CTZSTRUCT then
                lfs_ctz_traverse c None (ctz_head ctz) (ctz_size ctz) cb
              else if includeorphans \<and> lfs_tag_type3 tag = LFS_TYPE_DIRSTRUCT then
                for_each cb [ctz_head ctz, ctz_size ctz]
              else ret ())"

text \<open>The chain of metadata pairs, with the test for a cycle.\<close>

definition mdir_ids :: "lfs_mdir \<Rightarrow> u16 list" where
  "mdir_ids dir = map of_nat [0..<unat (md_count dir)]"

fun rawtraverse_chain ::
  "'d lfs_config \<Rightarrow> ('d, 'x) block_cb \<Rightarrow> bool \<Rightarrow> nat \<Rightarrow> u32 \<Rightarrow> lfs_mdir \<Rightarrow>
     ('d lfs \<times> 'x, unit) cmd" where
  "rawtraverse_chain c cb includeorphans 0 cycle dir = stuck Out_Of_Fuel"
| "rawtraverse_chain c cb includeorphans (Suc n) cycle dir =
     (if lfs_pair_isnull (md_tail dir) then ret ()
      else if cfg_block_count c div 2 \<le> cycle then throw LFS_ERR_CORRUPT
      else
        bnd (for_each cb [fst (md_tail dir), snd (md_tail dir)]) (\<lambda>_.
        bnd (on_fst (lfs_dir_fetch c dir (md_tail dir))) (\<lambda>(dir', e). case e of
            Some err \<Rightarrow> throw err
          | None \<Rightarrow>
              bnd (for_each (rawtraverse_entry c cb includeorphans dir') (mdir_ids dir')) (\<lambda>_.
              rawtraverse_chain c cb includeorphans n (cycle + 1) dir'))))"

text \<open>An open file: the blocks it has not written back to the disk yet.\<close>

definition rawtraverse_file ::
  "'d lfs_config \<Rightarrow> ('d, 'x) block_cb \<Rightarrow> obj_ref \<Rightarrow> ('d lfs \<times> 'x, unit) cmd" where
  "rawtraverse_file c cb x =
     bnd (on_fst (get_obj x)) (\<lambda>f.
     if ucast (obj_type f) \<noteq> LFS_TYPE_REG then ret ()
     else
       bnd (if has_flag f LFS_F_DIRTY \<and> \<not> has_flag f LFS_F_INLINE
            then lfs_ctz_traverse c (Some (file_cache f)) (ctz_head (file_ctz f)) (ctz_size (file_ctz f)) cb
            else ret ()) (\<lambda>_.
       if has_flag f LFS_F_WRITING \<and> \<not> has_flag f LFS_F_INLINE
       then lfs_ctz_traverse c (Some (file_cache f)) (file_block f) (file_pos f) cb
       else ret ()))"

definition lfs_fs_rawtraverse ::
  "'d lfs_config \<Rightarrow> ('d, 'x) block_cb \<Rightarrow> bool \<Rightarrow> ('d lfs \<times> 'x, unit) cmd" where
  "lfs_fs_rawtraverse c cb includeorphans =
     bnd (rawtraverse_chain c cb includeorphans (unat (cfg_block_count c div 2) + 2) 0
            (mdir_zero\<lparr>md_tail := (0, 1)\<rparr>)) (\<lambda>_.
     bnd (on_fst (gets lfs_mlist)) (for_each (rawtraverse_file c cb)))"

text \<open>
  A call with a local variable of the caller, which starts at \<open>x\<close>: the result comes with its last
  value.
\<close>

definition run_data :: "'x \<Rightarrow> ('s \<times> 'x, 'a) cmd \<Rightarrow> ('s, 'a \<times> 'x) cmd" where
  "run_data x m s = (case m (s, x) of
      (Ok a, (s', x')) \<Rightarrow> (Ok (a, x'), s')
    | (Err e, (s', _)) \<Rightarrow> (Err e, s')
    | (Fault y, (s', _)) \<Rightarrow> (Fault y, s'))"

definition with_data :: "'x \<Rightarrow> ('s \<times> 'x, unit) cmd \<Rightarrow> ('s, 'x) cmd" where
  "with_data x m = bnd (run_data x m) (\<lambda>(_, x'). ret x')"

definition lfs_fs_size_count :: "('d, u32) block_cb" where
  "lfs_fs_size_count block = modify (\<lambda>(s, sz). (s, sz + 1))"

definition lfs_fs_rawsize :: "'d lfs_config \<Rightarrow> ('d lfs, u32) cmd" where
  "lfs_fs_rawsize c = with_data 0 (lfs_fs_rawtraverse c lfs_fs_size_count False)"

section \<open>The lookahead buffer\<close>

definition lookahead_mark :: "'z lfs_geometry_scheme \<Rightarrow> u32 \<Rightarrow> (lfs_lookahead, unit) cmd" where
  "lookahead_mark c block =
     bnd (gets (\<lambda>fr. fr)) (\<lambda>fr.
     let off = (block - free_off fr + cfg_block_count c) mod cfg_block_count c; k = unat (off div 32)
     in if off < free_size fr then
          if k < length (free_buffer fr) then
            modify (\<lambda>fr. fr\<lparr>free_buffer := (free_buffer fr)[k := free_buffer fr ! k OR
                       push_bit (unat (off mod 32)) 1]\<rparr>)
          else stuck Out_Of_Bounds
        else ret ())"

definition on_free :: "(lfs_lookahead, 'a) cmd \<Rightarrow> ('d lfs, 'a) cmd" where
  "on_free m = zoom lfs_free (\<lambda>fr s. s\<lparr>lfs_free := fr\<rparr>) m"

definition lfs_alloc_lookahead :: "'d lfs_config \<Rightarrow> ('d, unit) block_cb" where
  "lfs_alloc_lookahead c block = on_fst (on_free (lookahead_mark c block))"

definition lfs_alloc_ack :: "'d lfs_config \<Rightarrow> ('d lfs, unit) cmd" where
  "lfs_alloc_ack c = on_free (modify (\<lambda>fr. fr\<lparr>free_ack := cfg_block_count c\<rparr>))"

definition lfs_alloc_drop :: "'d lfs_config \<Rightarrow> ('d lfs, unit) cmd" where
  "lfs_alloc_drop c =
     bnd (on_free (modify (\<lambda>fr. fr\<lparr>free_size := 0, free_i := 0\<rparr>))) (\<lambda>_. lfs_alloc_ack c)"

section \<open>The allocator\<close>

definition lookahead_bit :: "u32 \<Rightarrow> (lfs_lookahead, bool) cmd" where
  "lookahead_bit off =
     bnd (gets free_buffer) (\<lambda>buf.
     if unat (off div 32) < length buf then ret (bit (buf ! unat (off div 32)) (unat (off mod 32)))
     else stuck Out_Of_Bounds)"

definition lookahead_next :: "lfs_lookahead \<Rightarrow> lfs_lookahead" where
  "lookahead_next fr = fr\<lparr>free_i := free_i fr + 1, free_ack := free_ack fr - 1\<rparr>"

text \<open>Eagerly find the next free offset.\<close>

fun alloc_skip :: "nat \<Rightarrow> (lfs_lookahead, unit) cmd" where
  "alloc_skip 0 = stuck Out_Of_Fuel"
| "alloc_skip (Suc n) =
     bnd (gets (\<lambda>fr. fr)) (\<lambda>fr.
     if free_i fr \<noteq> free_size fr then
       bnd (lookahead_bit (free_i fr)) (\<lambda>used.
       if used then bnd (modify lookahead_next) (\<lambda>_. alloc_skip n) else ret ())
     else ret ())"

text \<open>The search through the buffer: the free block, or None at its end.\<close>

fun alloc_scan :: "'z lfs_geometry_scheme \<Rightarrow> nat \<Rightarrow> (lfs_lookahead, u32 option) cmd" where
  "alloc_scan c 0 = stuck Out_Of_Fuel"
| "alloc_scan c (Suc n) =
     bnd (gets (\<lambda>fr. fr)) (\<lambda>fr.
     if free_i fr \<noteq> free_size fr then
       let off = free_i fr
       in bnd (modify lookahead_next) (\<lambda>_.
          bnd (lookahead_bit off) (\<lambda>used.
          if \<not> used then
            bnd (alloc_skip n) (\<lambda>_. ret (Some ((free_off fr + off) mod cfg_block_count c)))
          else alloc_scan c n))
     else ret None)"

text \<open>The next window, with all of its blocks free.\<close>

definition alloc_window :: "'z lfs_geometry_scheme \<Rightarrow> (lfs_lookahead, unit) cmd" where
  "alloc_window c =
     bnd (modify (\<lambda>fr. fr\<lparr>free_off := (free_off fr + free_size fr) mod cfg_block_count c,
            free_size := lfs_min (8 * cfg_lookahead_size c) (free_ack fr), free_i := 0\<rparr>)) (\<lambda>_.
     bnd (gets free_buffer) (\<lambda>buf.
     let words = unat (cfg_lookahead_size c div 4)
     in if words \<le> length buf
        then modify (\<lambda>fr. fr\<lparr>free_buffer := patch buf 0 (replicate words 0)\<rparr>)
        else stuck Out_Of_Bounds))"

definition alloc_scan_fuel :: "lfs_lookahead \<Rightarrow> nat" where
  "alloc_scan_fuel fr = unat (free_size fr - free_i fr) + 1"

fun alloc_loop :: "'d lfs_config \<Rightarrow> nat \<Rightarrow> ('d lfs, u32) cmd" where
  "alloc_loop c 0 = stuck Out_Of_Fuel"
| "alloc_loop c (Suc n) =
     bnd (gets lfs_free) (\<lambda>fr.
     bnd (on_free (alloc_scan c (alloc_scan_fuel fr))) (\<lambda>found. case found of
         Some block \<Rightarrow> ret block
       | None \<Rightarrow>
           bnd (gets lfs_free) (\<lambda>fr'.
           if free_ack fr' = 0 then throw LFS_ERR_NOSPC
           else
             bnd (on_free (alloc_window c)) (\<lambda>_.
             bnd (attempt (with_data () (lfs_fs_rawtraverse c (lfs_alloc_lookahead c) True))) (\<lambda>r.
             case r of
               Inl e \<Rightarrow> bnd (lfs_alloc_drop c) (\<lambda>_. throw e)
             | Inr _ \<Rightarrow> alloc_loop c n)))))"

text \<open>
  A round without a free block lowers the count of unacknowledged blocks by the size of its
  window, so it is a bound for the number of rounds.
\<close>

definition lfs_alloc :: "'d lfs_config \<Rightarrow> ('d lfs, u32) cmd" where
  "lfs_alloc c = bnd (gets lfs_free) (\<lambda>fr. alloc_loop c (unat (free_ack fr) + 2))"

end
