(* ===== verification/LFS_Frame.thy ===== *)
theory LFS_Frame
  imports LFS_Alloc
begin

text \<open>
  Two notions that relate runs from different states.  \<open>simulates h m m'\<close>: a run of \<open>m\<close> from
  \<open>h y\<close> does what \<open>m'\<close> does from \<open>y\<close>.  \<open>unnoticed u m\<close>: the command \<open>m\<close> does the same before
  and after the change \<open>u\<close> of the state.  The operations that read metadata do not notice a change
  of the fields they do not use.
\<close>

section \<open>Simulation of commands\<close>

named_theorems sim_rules \<comment> \<open>simulation of the command combinators\<close>

definition simulates :: "('t \<Rightarrow> 's) \<Rightarrow> ('s, 'a) cmd \<Rightarrow> ('t, 'a) cmd \<Rightarrow> bool" where
  "simulates h m m' \<longleftrightarrow> (\<forall>y. m (h y) = apsnd h (m' y))"

lemma simulatesD: "simulates h m m' \<Longrightarrow> m (h y) = apsnd h (m' y)"
  by (simp add: simulates_def)

lemma sim_ret [sim_rules]: "simulates h (ret a) (ret a)"
  by (simp add: simulates_def ret_def)

lemma sim_throw [sim_rules]: "simulates h (throw e) (throw e)"
  by (simp add: simulates_def throw_def)

lemma sim_stuck [sim_rules]: "simulates h (stuck x) (stuck x)"
  by (simp add: simulates_def stuck_def)

lemma sim_assertion [sim_rules]: "simulates h (assertion b) (assertion b)"
  by (simp add: assertion_def sim_rules)

lemma sim_bnd [sim_rules]:
  assumes "simulates h m m'" and "\<And>a. simulates h (f a) (f' a)"
  shows "simulates h (bnd m f) (bnd m' f')"
  using assms
  by (fastforce simp: simulates_def bnd_def split: prod.splits outcome.splits)

lemma sim_attempt [sim_rules]:
  "simulates h m m' \<Longrightarrow> simulates h (attempt m) (attempt m')"
  by (fastforce simp: simulates_def attempt_def split: prod.splits outcome.splits)

lemma sim_gets [sim_rules]: "(\<And>y. f (h y) = f' y) \<Longrightarrow> simulates h (gets f) (gets f')"
  by (simp add: simulates_def gets_def)

lemma sim_modify [sim_rules]:
  "(\<And>y. f (h y) = h (f' y)) \<Longrightarrow> simulates h (modify f) (modify f')"
  by (simp add: simulates_def modify_def)

lemma sim_if [sim_rules]:
  "(b \<Longrightarrow> simulates h m m') \<Longrightarrow> (\<not> b \<Longrightarrow> simulates h k k') \<Longrightarrow>
     simulates h (if b then m else k) (if b then m' else k')"
  by simp

lemma sim_case_sum [sim_rules]:
  "(\<And>a. simulates h (f a) (f' a)) \<Longrightarrow> (\<And>b. simulates h (g b) (g' b)) \<Longrightarrow>
     simulates h (case x of Inl a \<Rightarrow> f a | Inr b \<Rightarrow> g b) (case x of Inl a \<Rightarrow> f' a | Inr b \<Rightarrow> g' b)"
  by (cases x) simp_all

lemma sim_case_option [sim_rules]:
  "simulates h m m' \<Longrightarrow> (\<And>a. simulates h (f a) (f' a)) \<Longrightarrow>
     simulates h (case x of None \<Rightarrow> m | Some a \<Rightarrow> f a) (case x of None \<Rightarrow> m' | Some a \<Rightarrow> f' a)"
  by (cases x) simp_all

lemma sim_case_prod [sim_rules]:
  "(\<And>a b. simulates h (f a b) (f' a b)) \<Longrightarrow>
     simulates h (case x of (a, b) \<Rightarrow> f a b) (case x of (a, b) \<Rightarrow> f' a b)"
  by (cases x) simp_all

lemma sim_Let [sim_rules]:
  "(\<And>a. simulates h (f a) (f' a)) \<Longrightarrow> simulates h (Let x f) (Let x f')"
  by simp

lemma sim_for_each [sim_rules]:
  "(\<And>x. simulates h (f x) (f' x)) \<Longrightarrow> simulates h (for_each f xs) (for_each f' xs)"
  by (induction xs) (auto intro!: sim_rules)

section \<open>Commands that do not notice a change\<close>

text \<open>
  The fields that the reading operations use: both caches, the device, the disk's global state
  and the seed.
\<close>

definition apart :: "('d lfs \<Rightarrow> 'd lfs) \<Rightarrow> bool" where
  "apart u \<longleftrightarrow> (\<forall>s. lfs_rcache (u s) = lfs_rcache s \<and> lfs_dev (u s) = lfs_dev s \<and>
     lfs_gdisk (u s) = lfs_gdisk s \<and> lfs_seed (u s) = lfs_seed s \<and>
     (\<forall>r d. u (s\<lparr>lfs_rcache := r, lfs_dev := d\<rparr>) = (u s)\<lparr>lfs_rcache := r, lfs_dev := d\<rparr>) \<and>
     (\<forall>w. u (s\<lparr>lfs_seed := w\<rparr>) = (u s)\<lparr>lfs_seed := w\<rparr>))"

abbreviation unnoticed :: "('d lfs \<Rightarrow> 'd lfs) \<Rightarrow> ('d lfs, 'a) cmd \<Rightarrow> bool" where
  "unnoticed u m \<equiv> simulates u m m"

lemma apart_free [simp]: "apart (\<lambda>s. s\<lparr>lfs_free := fr\<rparr>)"
  by (simp add: apart_def)

lemma unnoticed_on_rcache [sim_rules]: "apart u \<Longrightarrow> unnoticed u (on_rcache m)"
  by (auto simp: simulates_def apart_def on_rcache_def zoom_def split: prod.splits)

lemma unnoticed_read_u32 [sim_rules]: "apart u \<Longrightarrow> unnoticed u (read_u32 c hint block off)"
  unfolding read_u32_def by (intro sim_rules)

lemma unnoticed_stag_ret [sim_rules]: "unnoticed u (stag_ret t)"
  unfolding stag_ret_def by (intro sim_rules)

lemma unnoticed_getslice_match:
  assumes "apart u" and "unnoticed u k"
  shows "unnoticed u (getslice_match c dir gmask gtag goff gsize off tag gdiff k)"
  unfolding getslice_match_def by (intro sim_rules assms)

lemma unnoticed_getslice_loop:
  assumes u: "apart u"
  shows "unnoticed u (getslice_loop c dir gmask gtag goff gsize n off ntag gdiff)"
proof (induction n arbitrary: off ntag gdiff)
  case 0
  show ?case unfolding getslice_loop.simps by (rule sim_stuck)
next
  case (Suc n)
  show ?case
    unfolding getslice_loop.simps Let_def
    by (intro sim_rules unnoticed_getslice_match u Suc.IH)
qed

lemma unnoticed_dir_get [sim_rules]:
  assumes u: "apart u"
  shows "unnoticed u (lfs_dir_get c dir gmask gtag)"
  unfolding lfs_dir_get_def lfs_dir_getslice_def Let_def
  using u by (intro sim_rules unnoticed_getslice_loop) (auto simp: apart_def)

lemma unnoticed_fetch_read [sim_rules]: "apart u \<Longrightarrow> unnoticed u (fetch_read c st off sz)"
  unfolding fetch_read_def by (intro sim_rules)

lemma unnoticed_fetch_try [sim_rules]:
  "unnoticed u m \<Longrightarrow> (\<And>a. unnoticed u (k a)) \<Longrightarrow> unnoticed u (fetch_try st m k)"
  unfolding fetch_try_def by (intro sim_rules)

lemma unnoticed_fetch_crc [sim_rules]: "apart u \<Longrightarrow> unnoticed u (fetch_crc c tag st)"
  unfolding fetch_crc_def Let_def by (intro sim_rules) (auto simp: apart_def)

lemma unnoticed_fetch_entry_crc [sim_rules]:
  "apart u \<Longrightarrow> unnoticed u (fetch_entry_crc c dsz n j st)"
proof (induction n arbitrary: j st)
  case 0
  show ?case unfolding fetch_entry_crc.simps by (rule sim_stuck)
next
  case (Suc n)
  show ?case unfolding fetch_entry_crc.simps by (intro sim_rules Suc)
qed

lemma unnoticed_fetch_step [sim_rules]:
  assumes "apart u" and "\<And>t b off. unnoticed u (cb t b off)"
  shows "unnoticed u (fetch_step c fmask ftag cb st)"
  unfolding fetch_step_def fetch_entry_def fetch_modify_def fetch_match_def Let_def
  by (intro sim_rules assms)

lemma unnoticed_fetch_loop [sim_rules]:
  assumes "apart u" and "\<And>t b off. unnoticed u (cb t b off)"
  shows "unnoticed u (fetch_loop c fmask ftag cb n st)"
proof (induction n arbitrary: st)
  case 0
  show ?case unfolding fetch_loop.simps by (rule sim_stuck)
next
  case (Suc n)
  have "unnoticed u (case nx of Fetch_Next \<Rightarrow> fetch_loop c fmask ftag cb n st'
      | Fetch_Break \<Rightarrow> ret (st', None) | Fetch_Fail e \<Rightarrow> ret (st', Some e))" for st' nx
    by (cases nx) (simp_all add: Suc.IH sim_ret)
  then show ?case unfolding fetch_loop.simps by (intro sim_rules assms)
qed

lemma unnoticed_fetch_passes [sim_rules]:
  assumes "apart u" and "\<And>t b off. unnoticed u (cb t b off)"
  shows "unnoticed u (fetch_passes c fmask ftag cb orev n dir best)"
proof (induction n arbitrary: dir best)
  case 0
  show ?case unfolding fetch_passes.simps by (rule sim_ret)
next
  case (Suc n)
  show ?case unfolding fetch_passes.simps Let_def
    using assms(1) by (intro sim_rules assms Suc.IH) (simp add: apart_def)
qed

lemma unnoticed_dir_fetchmatch [sim_rules]:
  assumes "apart u" and "\<And>t b off. unnoticed u (cb t b off)"
  shows "unnoticed u (lfs_dir_fetchmatch c dir pair fmask ftag cb)"
  unfolding lfs_dir_fetchmatch_def fetch_rev_def Let_def by (intro sim_rules assms)

lemma unnoticed_dir_fetch [sim_rules]:
  assumes "apart u"
  shows "unnoticed u (lfs_dir_fetch c dir pair)"
  unfolding lfs_dir_fetch_def null_cb_def by (intro sim_rules assms)

section \<open>Traversals with simulating callbacks\<close>

text \<open>\<open>at_free g\<close> replaces the callback's data \<open>x\<close> by the lookahead buffer \<open>g x\<close>.\<close>

definition at_free :: "('x \<Rightarrow> lfs_lookahead) \<Rightarrow> 'd lfs \<times> 'x \<Rightarrow> 'd lfs \<times> unit" where
  "at_free g y = ((fst y)\<lparr>lfs_free := g (snd y)\<rparr>, ())"

lemma unnoticed_free_run:
  assumes "\<And>fr. unnoticed (\<lambda>s. s\<lparr>lfs_free := fr\<rparr>) m" and "m s = (r, s')"
  shows "m (s\<lparr>lfs_free := fr\<rparr>) = (r, s'\<lparr>lfs_free := fr\<rparr>)" and "lfs_free s' = lfs_free s"
proof -
  show run: "m (s\<lparr>lfs_free := fr\<rparr>) = (r, s'\<lparr>lfs_free := fr\<rparr>)" for fr
    using simulatesD [OF assms(1) [of fr], of s] assms(2) by simp
  show "lfs_free s' = lfs_free s"
    using run [of "lfs_free s"] assms(2) by (metis lfs.surjective lfs.select_convs(9) lfs.update_convs(9) prod.inject)
qed

lemma sim_at_free [sim_rules]:
  fixes m :: "('d lfs, 'a) cmd" and g :: "'x \<Rightarrow> lfs_lookahead"
  assumes "\<And>fr. unnoticed (\<lambda>s. s\<lparr>lfs_free := fr\<rparr>) m"
  shows "simulates (at_free g) (on_fst m) (on_fst m)"
  unfolding simulates_def
proof
  fix y :: "'d lfs \<times> 'x"
  obtain s x where y: "y = (s, x)" by fastforce
  obtain r s' where m: "m s = (r, s')" by fastforce
  show "on_fst m (at_free g y) = apsnd (at_free g) (on_fst m y)"
    using m unnoticed_free_run [OF assms m] by (simp add: y on_fst_def zoom_def at_free_def)
qed

lemma sim_ctz_traverse [sim_rules]:
  assumes "\<And>b. simulates (at_free g) (cb b) (cb' b)"
  shows "simulates (at_free g) (lfs_ctz_traverse c pcache head sz cb)
           (lfs_ctz_traverse c pcache head sz cb')"
proof -
  have "simulates (at_free g) (ctz_traverse_loop c pcache cb n index head)
      (ctz_traverse_loop c pcache cb' n index head)" for n index head
  proof (induction n arbitrary: index head)
    case 0
    show ?case unfolding ctz_traverse_loop.simps by (rule sim_stuck)
  next
    case (Suc n)
    show ?case unfolding ctz_traverse_loop.simps Let_def
      by (intro sim_rules apart_free assms Suc.IH)
  qed
  then show ?thesis unfolding lfs_ctz_traverse_def Let_def by (intro sim_rules)
qed

lemma sim_rawtraverse_chain:
  assumes "\<And>b. simulates (at_free g) (cb b) (cb' b)"
  shows "simulates (at_free g) (rawtraverse_chain c cb orphans n cycle dir)
           (rawtraverse_chain c cb' orphans n cycle dir)"
proof (induction n arbitrary: cycle dir)
  case 0
  show ?case unfolding rawtraverse_chain.simps by (rule sim_stuck)
next
  case (Suc n)
  show ?case unfolding rawtraverse_chain.simps rawtraverse_entry_def Let_def
    by (intro sim_rules apart_free assms Suc.IH)
qed

lemma sim_rawtraverse:
  assumes "\<And>b. simulates (at_free g) (cb b) (cb' b)"
  shows "simulates (at_free g) (lfs_fs_rawtraverse c cb orphans)
           (lfs_fs_rawtraverse c cb' orphans)"
  unfolding lfs_fs_rawtraverse_def rawtraverse_file_def get_obj_def
  by (intro sim_rules sim_rawtraverse_chain assms) simp_all

end
