(* ===== verification/LFS_Alloc_Props.thy ===== *)
theory LFS_Alloc_Props
  imports LFS_Frame
begin

text \<open>
  What the allocator hands out.  The lookahead buffer stands for a queue of free blocks,
  \<open>alloc_blocks\<close>: an allocation takes its head, and a refill makes it the next part of the ring of
  all blocks without those that a traversal reports.
\<close>

section \<open>The queue of free blocks\<close>

definition block_free :: "lfs_lookahead \<Rightarrow> nat \<Rightarrow> bool" where
  "block_free fr j \<longleftrightarrow> \<not> bit (free_buffer fr ! (j div 32)) (j mod 32)"

definition ring :: "'z lfs_geometry_scheme \<Rightarrow> u32 \<Rightarrow> nat \<Rightarrow> u32" where
  "ring c off j = (off + of_nat j) mod cfg_block_count c"

definition alloc_blocks :: "'z lfs_geometry_scheme \<Rightarrow> lfs_lookahead \<Rightarrow> u32 list" where
  "alloc_blocks c fr = map (ring c (free_off fr))
     (filter (block_free fr) [unat (free_i fr)..<unat (free_size fr)])"

text \<open>
  The invariant of the buffer: its bits cover the window, the position lies in the window, and
  the blocks left in the window are among those not acknowledged yet.
\<close>

definition window_fits :: "lfs_lookahead \<Rightarrow> bool" where
  "window_fits fr \<longleftrightarrow> unat (free_size fr) \<le> 32 * length (free_buffer fr)"

definition lookahead_ok :: "'z lfs_geometry_scheme \<Rightarrow> lfs_lookahead \<Rightarrow> bool" where
  "lookahead_ok c fr \<longleftrightarrow> window_fits fr \<and> unat (free_i fr) \<le> unat (free_size fr) \<and>
     unat (free_size fr) - unat (free_i fr) \<le> unat (free_ack fr) \<and>
     unat (free_ack fr) \<le> unat (cfg_block_count c) \<and>
     unat (cfg_lookahead_size c) \<le> 4 * length (free_buffer fr)"

text \<open>What \<^verbatim>\<open>lfs_init\<close> asserts of the lookahead size, and that 8 times it is a number of bits.\<close>

definition wf_lookahead :: "'z lfs_geometry_scheme \<Rightarrow> bool" where
  "wf_lookahead c \<longleftrightarrow> 0 < unat (cfg_lookahead_size c) \<and> unat (cfg_lookahead_size c) mod 8 = 0 \<and>
     unat (cfg_lookahead_size c) < 2 ^ 29 \<and> 0 < unat (cfg_block_count c) \<and>
     unat (cfg_block_count c) \<le> 2 ^ 31"

definition advanced :: "'z lfs_geometry_scheme \<Rightarrow> lfs_lookahead \<Rightarrow> lfs_lookahead \<Rightarrow> bool" where
  "advanced c fr fr' \<longleftrightarrow> lookahead_ok c fr' \<and> fr' = fr\<lparr>free_i := free_i fr', free_ack := free_ack fr'\<rparr> \<and>
     unat (free_i fr) \<le> unat (free_i fr') \<and>
     unat (free_ack fr') + unat (free_i fr') = unat (free_ack fr) + unat (free_i fr)"

lemma advanced_refl [simp]: "advanced c fr fr \<longleftrightarrow> lookahead_ok c fr"
  by (simp add: advanced_def)

lemma advanced_fields:
  "advanced c fr fr' \<Longrightarrow> free_size fr' = free_size fr \<and> free_off fr' = free_off fr \<and>
     free_buffer fr' = free_buffer fr"
  unfolding advanced_def by (elim conjE) (erule ssubst, simp)

lemma advanced_trans: "advanced c fr fr' \<Longrightarrow> advanced c fr' fr'' \<Longrightarrow> advanced c fr fr''"
  using advanced_fields [of c fr fr'] advanced_fields [of c fr' fr'']
  by (auto simp: advanced_def intro!: lfs_lookahead.equality)

lemma lookahead_next:
  assumes "lookahead_ok c fr" and "free_i fr \<noteq> free_size fr"
  shows "advanced c fr (lookahead_next fr)"
    and "unat (free_i (lookahead_next fr)) = Suc (unat (free_i fr))"
    and "alloc_blocks c fr =
      (if block_free fr (unat (free_i fr)) then [ring c (free_off fr) (unat (free_i fr))] else []) @
      alloc_blocks c (lookahead_next fr)"
proof -
  have lt: "unat (free_i fr) < unat (free_size fr)"
    using assms by (auto simp: lookahead_ok_def u32_eq)
  show i: "unat (free_i (lookahead_next fr)) = Suc (unat (free_i fr))"
    using lt order.strict_trans1 [OF Suc_leI [OF lt] unat_less_u32] unat_add_u32 [of "free_i fr" 1]
    by (simp add: lookahead_next_def)
  have pos: "0 < unat (free_ack fr)" using assms(1) lt unfolding lookahead_ok_def by linarith
  then have a: "unat (free_ack fr - 1) = unat (free_ack fr) - 1"
    using unat_sub_u32 [of 1 "free_ack fr"] by simp
  show "advanced c fr (lookahead_next fr)"
    using assms(1) lt a pos i
    by (auto simp: advanced_def lookahead_ok_def window_fits_def lookahead_next_def)
  have "[unat (free_i fr)..<unat (free_size fr)] =
      unat (free_i fr) # [Suc (unat (free_i fr))..<unat (free_size fr)]"
    using lt by (rule upt_conv_Cons)
  moreover have "block_free (lookahead_next fr) = block_free fr"
    "free_off (lookahead_next fr) = free_off fr" "free_size (lookahead_next fr) = free_size fr"
    by (auto simp: block_free_def lookahead_next_def)
  ultimately show "alloc_blocks c fr =
      (if block_free fr (unat (free_i fr)) then [ring c (free_off fr) (unat (free_i fr))] else []) @
      alloc_blocks c (lookahead_next fr)"
    using i by (simp add: alloc_blocks_def)
qed

lemma wp_lookahead_bit:
  assumes "window_fits fr" and "unat off < unat (free_size fr)"
  shows "wp (lookahead_bit off) Q fr = Q (Ok (\<not> block_free fr (unat off))) fr"
proof -
  have "unat off div 32 < length (free_buffer fr)" using assms by (simp add: window_fits_def)
  then show ?thesis
    by (simp add: lookahead_bit_def wp_simps u32_simps block_free_def)
qed

lemma alloc_blocks_end: "free_i fr = free_size fr \<Longrightarrow> alloc_blocks c fr = []"
  by (simp add: alloc_blocks_def)

lemma alloc_skip_ok:
  "lookahead_ok c fr \<Longrightarrow> unat (free_size fr) - unat (free_i fr) < n \<Longrightarrow>
     wp (alloc_skip n) (okp (\<lambda>_ fr'. advanced c fr fr' \<and> alloc_blocks c fr' = alloc_blocks c fr)) fr"
proof (induction n arbitrary: fr)
  case (Suc n)
  show ?case
  proof (cases "free_i fr = free_size fr")
    case True
    then show ?thesis using Suc.prems(1) by (simp add: wp_simps)
  next
    case False
    note nx = lookahead_next [OF Suc.prems(1) False]
    have lt: "unat (free_i fr) < unat (free_size fr)"
      using False Suc.prems(1) by (auto simp: lookahead_ok_def u32_eq)
    then have bit: "wp (lookahead_bit (free_i fr)) Q fr = Q (Ok (\<not> block_free fr (unat (free_i fr)))) fr" for Q
      using Suc.prems(1) by (intro wp_lookahead_bit) (simp_all add: lookahead_ok_def)
    show ?thesis
    proof (cases "block_free fr (unat (free_i fr))")
      case True
      then show ?thesis using Suc.prems(1) False by (simp add: bit wp_simps)
    next
      case used: False
      have ok: "lookahead_ok c (lookahead_next fr)" using nx(1) by (simp add: advanced_def)
      have "wp (alloc_skip n) (okp (\<lambda>_ fr'. advanced c (lookahead_next fr) fr' \<and>
          alloc_blocks c fr' = alloc_blocks c (lookahead_next fr))) (lookahead_next fr)"
        using Suc.prems(2) nx(2) lt by (intro Suc.IH ok) (simp add: lookahead_next_def)
      then show ?thesis
        using False used nx(3)
        by (simp add: bit wp_simps)
          (erule wp_okp_mono, auto intro: advanced_trans [OF nx(1)])
    qed
  qed
qed simp

lemma alloc_scan_ok:
  "lookahead_ok c fr \<Longrightarrow> unat (free_size fr) - unat (free_i fr) < n \<Longrightarrow>
     wp (alloc_scan c n) (okp (\<lambda>found fr'. advanced c fr fr' \<and> (case found of
        None \<Rightarrow> alloc_blocks c fr = [] \<and> free_i fr' = free_size fr'
      | Some b \<Rightarrow> alloc_blocks c fr = b # alloc_blocks c fr'))) fr"
proof (induction n arbitrary: fr)
  case (Suc n)
  show ?case
  proof (cases "free_i fr = free_size fr")
    case True
    then show ?thesis using Suc.prems(1) by (simp add: wp_simps alloc_blocks_end)
  next
    case False
    let ?fr = "lookahead_next fr"
    note nx = lookahead_next [OF Suc.prems(1) False]
    have lt: "unat (free_i fr) < unat (free_size fr)"
      using False Suc.prems(1) by (auto simp: lookahead_ok_def u32_eq)
    have ok: "lookahead_ok c ?fr" using nx(1) by (simp add: advanced_def)
    have bit: "wp (lookahead_bit (free_i fr)) Q ?fr = Q (Ok (\<not> block_free fr (unat (free_i fr)))) ?fr" for Q
      using wp_lookahead_bit [of ?fr "free_i fr"] ok lt
      by (simp add: lookahead_ok_def lookahead_next_def block_free_def)
    have n: "unat (free_size ?fr) - unat (free_i ?fr) < n"
      using Suc.prems(2) nx(2) lt by (simp add: lookahead_next_def)
    show ?thesis
    proof (cases "block_free fr (unat (free_i fr))")
      case True
      from alloc_skip_ok [OF ok n] show ?thesis
        using False True nx(3)
        by (simp add: bit wp_simps Let_def)
          (erule wp_okp_mono, auto simp: wp_simps ring_def intro: advanced_trans [OF nx(1)])
    next
      case used: False
      from Suc.IH [OF ok n] show ?thesis
        using False used nx(3)
        by (simp add: bit wp_simps Let_def)
          (erule wp_okp_mono, auto intro: advanced_trans [OF nx(1)] split: option.splits)
    qed
  qed
qed simp


section \<open>Marking the blocks in use\<close>

definition mark_block :: "'z lfs_geometry_scheme \<Rightarrow> u32 \<Rightarrow> lfs_lookahead \<Rightarrow> lfs_lookahead" where
  "mark_block c block fr =
     (let off = (block - free_off fr + cfg_block_count c) mod cfg_block_count c; k = unat (off div 32)
      in if off < free_size fr
         then fr\<lparr>free_buffer := (free_buffer fr)[k := free_buffer fr ! k OR push_bit (unat (off mod 32)) 1]\<rparr>
         else fr)"

definition mark_blocks :: "'z lfs_geometry_scheme \<Rightarrow> u32 list \<Rightarrow> lfs_lookahead \<Rightarrow> lfs_lookahead" where
  "mark_blocks c bs fr = fold (mark_block c) bs fr"

lemma mark_block_simps [simp]:
  "free_off (mark_block c b fr) = free_off fr" "free_size (mark_block c b fr) = free_size fr"
  "free_i (mark_block c b fr) = free_i fr" "free_ack (mark_block c b fr) = free_ack fr"
  "length (free_buffer (mark_block c b fr)) = length (free_buffer fr)"
  by (simp_all add: mark_block_def Let_def)

lemma mark_blocks_simps [simp]:
  "free_off (mark_blocks c bs fr) = free_off fr" "free_size (mark_blocks c bs fr) = free_size fr"
  "free_i (mark_blocks c bs fr) = free_i fr" "free_ack (mark_blocks c bs fr) = free_ack fr"
  "length (free_buffer (mark_blocks c bs fr)) = length (free_buffer fr)"
  unfolding mark_blocks_def by (induction bs arbitrary: fr) simp_all

lemma lookahead_mark_run:
  assumes "window_fits fr"
  shows "lookahead_mark c b fr = (Ok (), mark_block c b fr)"
  using assms by (auto simp: lookahead_mark_def mark_block_def cmd_simps Let_def window_fits_def u32_simps)

text \<open>A callback that collects the blocks it is given.\<close>

definition collect :: "u32 \<Rightarrow> 's \<times> u32 list \<Rightarrow> 's \<times> u32 list" where
  "collect b y = (fst y, snd y @ [b])"

definition collect_cb :: "u32 \<Rightarrow> ('s \<times> u32 list, unit) cmd" where
  "collect_cb b y = (Ok (), collect b y)"

lemma sim_lookahead:
  assumes "window_fits fr"
  shows "simulates (at_free (\<lambda>bs. mark_blocks c bs fr)) (lfs_alloc_lookahead c b) (collect_cb b)"
proof -
  have "window_fits (mark_blocks c bs fr)" for bs using assms by (simp add: window_fits_def)
  then show ?thesis
    by (simp add: simulates_def at_free_def lfs_alloc_lookahead_def on_free_def on_fst_def zoom_def
        collect_cb_def collect_def lookahead_mark_run split: prod.splits)
      (simp add: mark_blocks_def)
qed

text \<open>The traversal of the allocator marks the blocks that a collecting traversal returns.\<close>

lemma lookahead_traverse:
  assumes "window_fits fr"
    and "lfs_fs_rawtraverse c collect_cb orphans (s, []) = (r, (s', bs))"
  shows "lfs_fs_rawtraverse c (lfs_alloc_lookahead c) orphans (s\<lparr>lfs_free := fr\<rparr>, ()) =
           (r, (s'\<lparr>lfs_free := mark_blocks c bs fr\<rparr>, ()))"
proof -
  have "simulates (at_free (\<lambda>bs. mark_blocks c bs fr))
      (lfs_fs_rawtraverse c (lfs_alloc_lookahead c) orphans) (lfs_fs_rawtraverse c collect_cb orphans)"
    by (rule sim_rawtraverse) (rule sim_lookahead [OF assms(1)])
  then show ?thesis
    using assms(2) by (auto dest!: simulatesD [where y = "(s, [])"] simp: at_free_def mark_blocks_def)
qed

text \<open>The bits of a buffer with marks.\<close>

definition lookahead_off :: "'z lfs_geometry_scheme \<Rightarrow> lfs_lookahead \<Rightarrow> u32 \<Rightarrow> nat" where
  "lookahead_off c fr b = unat ((b - free_off fr + cfg_block_count c) mod cfg_block_count c)"

lemma block_free_mark:
  assumes "window_fits fr" and "j < unat (free_size fr)"
  shows "block_free (mark_block c b fr) j \<longleftrightarrow> block_free fr j \<and> lookahead_off c fr b \<noteq> j"
proof -
  define k where "k = lookahead_off c fr b"
  have len: "j div 32 < length (free_buffer fr)" using assms by (simp add: window_fits_def)
  have mk: "mark_block c b fr = (if k < unat (free_size fr)
      then fr\<lparr>free_buffer := (free_buffer fr)[k div 32 := free_buffer fr ! (k div 32) OR push_bit (k mod 32) 1]\<rparr>
      else fr)"
    by (simp add: mark_block_def k_def lookahead_off_def Let_def u32_simps)
  have bits: "bit (push_bit (k mod 32) 1 :: u32) (j mod 32) \<longleftrightarrow> k mod 32 = j mod 32"
    by (auto simp: bit_simps)
  have eq: "k = j \<longleftrightarrow> k div 32 = j div 32 \<and> k mod 32 = j mod 32"
    by (metis div_mult_mod_eq)
  have upd: "(free_buffer fr)[k div 32 := x] ! (j div 32) =
      (if k div 32 = j div 32 then x else free_buffer fr ! (j div 32))" for x
    using len by (simp add: nth_list_update)
  show ?thesis
    using assms(2) eq bits
    by (cases "k div 32 = j div 32")
      (auto simp: mk block_free_def k_def [symmetric] upd bit_or_iff len)
qed

lemma block_free_marks:
  "window_fits fr \<Longrightarrow> j < unat (free_size fr) \<Longrightarrow>
     block_free (mark_blocks c bs fr) j \<longleftrightarrow> block_free fr j \<and> j \<notin> lookahead_off c fr ` set bs"
proof (induction bs arbitrary: fr)
  case (Cons b bs)
  have "window_fits (mark_block c b fr)" using Cons.prems by (simp add: window_fits_def)
  moreover have "lookahead_off c (mark_block c b fr) = lookahead_off c fr"
    by (auto simp: lookahead_off_def)
  ultimately show ?case
    using Cons.IH [of "mark_block c b fr"] Cons.prems block_free_mark [OF Cons.prems]
    by (auto simp: mark_blocks_def)
qed (simp add: mark_blocks_def)

text \<open>The offset of a block in the window is where the ring comes to it.\<close>

lemma lookahead_off_ring:
  assumes "wf_lookahead c" and "unat b < unat (cfg_block_count c)"
    and "unat (free_off fr) < unat (cfg_block_count c)" and "j < unat (cfg_block_count c)"
  shows "lookahead_off c fr b = j \<longleftrightarrow> ring c (free_off fr) j = b"
proof -
  let ?n = "unat (cfg_block_count c)" and ?f = "unat (free_off fr)"
  have n: "?n \<le> 2147483648" using assms(1) by (simp add: wf_lookahead_def)
  have off: "lookahead_off c fr b = (unat b + ?n - ?f) mod ?n"
  proof -
    have eq: "b - free_off fr + cfg_block_count c = (b + cfg_block_count c) - free_off fr" by simp
    have s: "unat (b + cfg_block_count c) = unat b + ?n" using assms(2) n by (intro unat_add_u32) simp
    have "unat (b + cfg_block_count c - free_off fr) = unat b + ?n - ?f"
      using s assms(3) by (simp add: unat_sub_u32)
    then show ?thesis unfolding lookahead_off_def eq by (simp add: u32_simps)
  qed
  have r: "unat (ring c (free_off fr) j) = (?f + j) mod ?n"
  proof -
    have j: "unat (of_nat j :: u32) = j" using assms(4) n by (intro unat_of_nat_u32) simp
    then have "unat (free_off fr + of_nat j) = ?f + j" using assms(3,4) n by (subst unat_add_u32) simp_all
    then show ?thesis by (simp add: ring_def u32_simps)
  qed
  have mod_less: "k mod ?n = (if k < ?n then k else k - ?n)" if "k < 2 * ?n" for k
    using that by (simp add: mod_if)
  have "(unat b + ?n - ?f) mod ?n = (if unat b < ?f then unat b + ?n - ?f else unat b - ?f)"
    using assms(2,3) by (subst mod_less) auto
  moreover have "(?f + j) mod ?n = (if ?f + j < ?n then ?f + j else ?f + j - ?n)"
    using assms(3,4) by (intro mod_less) simp
  ultimately show ?thesis using off r assms(2-4) by (auto simp: u32_eq split: if_splits)
qed


section \<open>Refilling the buffer\<close>

text \<open>
  The blocks not acknowledged yet when the window is used up, and the part of the ring that the
  next window covers.
\<close>

definition alloc_left :: "lfs_lookahead \<Rightarrow> nat" where
  "alloc_left fr = unat (free_ack fr) - (unat (free_size fr) - unat (free_i fr))"

definition next_window :: "'z lfs_geometry_scheme \<Rightarrow> lfs_lookahead \<Rightarrow> u32 list" where
  "next_window c fr = map (ring c ((free_off fr + free_size fr) mod cfg_block_count c))
     [0..<min (8 * unat (cfg_lookahead_size c)) (alloc_left fr)]"

lemma alloc_window_ok:
  assumes wf: "wf_lookahead c" and ok: "lookahead_ok c fr" and e: "free_i fr = free_size fr"
  obtains fr' where "alloc_window c fr = (Ok (), fr')" and "lookahead_ok c fr'" and "free_i fr' = 0"
    and "free_ack fr' = free_ack fr" and "unat (free_off fr') < unat (cfg_block_count c)"
    and "free_off fr' = (free_off fr + free_size fr) mod cfg_block_count c"
    and "next_window c fr = map (ring c (free_off fr')) [0..<unat (free_size fr')]"
    and "\<And>j. j < unat (free_size fr') \<Longrightarrow> block_free fr' j"
    and "unat (free_size fr') = min (8 * unat (cfg_lookahead_size c)) (unat (free_ack fr))"
proof -
  let ?la = "cfg_lookahead_size c" and ?buf = "free_buffer fr"
  let ?z = "replicate (unat ?la div 4) 0 :: u32 list"
  define fr' where "fr' = fr\<lparr>free_off := (free_off fr + free_size fr) mod cfg_block_count c,
    free_size := lfs_min (8 * ?la) (free_ack fr), free_i := 0, free_buffer := patch ?buf 0 ?z\<rparr>"
  have la: "unat ?la div 4 \<le> length ?buf" "unat ?la = 4 * (unat ?la div 4)"
    "unat (8 * ?la) = 8 * unat ?la" "0 < unat ?la"
  proof -
    show "unat ?la div 4 \<le> length ?buf" using ok by (auto simp: lookahead_ok_def)
    show "unat ?la = 4 * (unat ?la div 4)" "unat (8 * ?la) = 8 * unat ?la" "0 < unat ?la"
      using wf unat_mult_u32 [of 8 ?la] by (auto simp: wf_lookahead_def)
  qed
  have run: "alloc_window c fr = (Ok (), fr')"
    using la(1) by (simp add: alloc_window_def cmd_simps fr'_def Let_def u32_simps)
  have size: "unat (free_size fr') = min (8 * unat ?la) (unat (free_ack fr))"
    using la(3) by (simp add: fr'_def unat_lfs_min)
  have free: "block_free fr' j" if "j < unat (free_size fr')" for j
  proof -
    have "j div 32 < unat ?la div 4" using that size la(2) by linarith
    then have "free_buffer fr' ! (j div 32) = 0" using la(1) by (simp add: fr'_def nth_patch)
    then show ?thesis by (simp add: block_free_def)
  qed
  have left: "alloc_left fr = unat (free_ack fr)" using e by (simp add: alloc_left_def)
  have ok': "lookahead_ok c fr'"
    using ok la size by (simp add: lookahead_ok_def window_fits_def fr'_def)
  have nw: "next_window c fr = map (ring c (free_off fr')) [0..<unat (free_size fr')]"
    using left size by (simp add: next_window_def fr'_def)
  have "unat (free_off fr') < unat (cfg_block_count c)"
    using wf by (simp add: fr'_def u32_simps wf_lookahead_def)
  then show thesis using that [OF run ok' _ _ _ _ nw free size] by (simp add: fr'_def)
qed

text \<open>The marks take the blocks in use out of the queue.\<close>

lemma alloc_blocks_marked:
  assumes wf: "wf_lookahead c" and ok: "lookahead_ok c fr" and "free_i fr = 0"
    and off: "unat (free_off fr) < unat (cfg_block_count c)"
    and nw: "win = map (ring c (free_off fr)) [0..<unat (free_size fr)]"
    and free: "\<And>j. j < unat (free_size fr) \<Longrightarrow> block_free fr j"
    and used: "\<forall>b \<in> set used. b < cfg_block_count c"
  shows "lookahead_ok c (mark_blocks c used fr)"
    and "alloc_blocks c (mark_blocks c used fr) = filter (\<lambda>b. b \<notin> set used) win"
proof -
  have fits: "window_fits fr" using ok by (simp add: lookahead_ok_def)
  show "lookahead_ok c (mark_blocks c used fr)"
    using ok by (simp add: lookahead_ok_def window_fits_def)
  have "block_free (mark_blocks c used fr) j \<longleftrightarrow> ring c (free_off fr) j \<notin> set used"
    if j: "j < unat (free_size fr)" for j
  proof -
    have "j < unat (cfg_block_count c)" using j ok assms(3) by (simp add: lookahead_ok_def)
    then have "j = lookahead_off c fr b \<longleftrightarrow> ring c (free_off fr) j = b" if "b \<in> set used" for b
      using lookahead_off_ring [OF wf _ off, of b j] used that by (auto simp: u32_less)
    then show ?thesis using block_free_marks [OF fits j] free [OF j] by blast
  qed
  then have "filter (block_free (mark_blocks c used fr)) [0..<unat (free_size fr)] =
      filter (\<lambda>j. ring c (free_off fr) j \<notin> set used) [0..<unat (free_size fr)]"
    by (intro filter_cong) auto
  then show "alloc_blocks c (mark_blocks c used fr) = filter (\<lambda>b. b \<notin> set used) win"
    using assms(3) by (simp add: alloc_blocks_def nw filter_map comp_def)
qed

text \<open>One round of the allocator.\<close>

lemma alloc_scan_run:
  assumes "lookahead_ok c fr"
  obtains found fr' where "alloc_scan c (alloc_scan_fuel fr) fr = (Ok found, fr')" and "advanced c fr fr'"
    and "found = None \<Longrightarrow> alloc_blocks c fr = [] \<and> free_i fr' = free_size fr'"
    and "\<And>b. found = Some b \<Longrightarrow> alloc_blocks c fr = b # alloc_blocks c fr'"
proof -
  have "unat (free_size fr) - unat (free_i fr) < alloc_scan_fuel fr"
    using assms unat_sub_u32 [of "free_i fr" "free_size fr"]
    by (simp add: alloc_scan_fuel_def lookahead_ok_def)
  from wp_okpD [OF alloc_scan_ok [OF assms this]] obtain a fr' where
    "alloc_scan c (alloc_scan_fuel fr) fr = (Ok a, fr')" "advanced c fr fr'"
    "case a of None \<Rightarrow> alloc_blocks c fr = [] \<and> free_i fr' = free_size fr'
      | Some b \<Rightarrow> alloc_blocks c fr = b # alloc_blocks c fr'" by auto
  then show thesis using that by (cases a) auto
qed

text \<open>
  The blocks the allocator will hand out before it gives up, when the traversals report \<open>used\<close>:
  those of the window, then the free ones of the rest of the ring.
\<close>

definition alloc_candidates :: "'z lfs_geometry_scheme \<Rightarrow> u32 list \<Rightarrow> lfs_lookahead \<Rightarrow> u32 list" where
  "alloc_candidates c used fr = alloc_blocks c fr @ filter (\<lambda>b. b \<notin> set used)
     (map (ring c ((free_off fr + free_size fr) mod cfg_block_count c)) [0..<alloc_left fr])"

lemma ring_ring:
  assumes "wf_lookahead c" and "unat off < unat (cfg_block_count c)" and "k + j \<le> unat (cfg_block_count c)"
  shows "ring c ((off + of_nat k) mod cfg_block_count c) j = ring c off (k + j)"
proof -
  let ?n = "unat (cfg_block_count c)"
  have n: "?n \<le> 2147483648" "0 < ?n" using assms(1) by (simp_all add: wf_lookahead_def)
  have nat: "unat (of_nat m :: u32) = m" if "m \<le> ?n" for m using that n by (intro unat_of_nat_u32) simp
  have add: "unat (x + of_nat m :: u32) = unat x + m" if "unat x < ?n" "m \<le> ?n" for x m
    using that n nat [OF that(2)] by (subst unat_add_u32) simp_all
  have "unat ((off + of_nat k) mod cfg_block_count c) = (unat off + k) mod ?n"
    using assms(2,3) add by (simp add: u32_simps)
  moreover have "\<dots> < ?n" using n by simp
  ultimately have "unat (ring c ((off + of_nat k) mod cfg_block_count c) j) = ((unat off + k) mod ?n + j) mod ?n"
    using assms(3) add by (simp add: ring_def u32_simps)
  also have "\<dots> = (unat off + (k + j)) mod ?n" by (simp add: mod_add_left_eq add.assoc)
  also have "\<dots> = unat (ring c off (k + j))" using assms(2,3) add [of off "k + j"] by (simp add: ring_def u32_simps)
  finally show ?thesis by (simp add: u32_eq)
qed

lemma advanced_ack:
  "advanced c fr fr' \<Longrightarrow> unat (free_ack fr') + unat (free_i fr') = unat (free_ack fr) + unat (free_i fr)"
  unfolding advanced_def by (elim conjE)

lemma advanced_ok: "advanced c fr fr' \<Longrightarrow> lookahead_ok c fr'"
  unfolding advanced_def by (elim conjE)

lemma advanced_left:
  assumes "advanced c fr fr'" and "lookahead_ok c fr"
  shows "alloc_left fr' = alloc_left fr"
  using advanced_ack [OF assms(1)] advanced_ok [OF assms(1)] assms(2) advanced_fields [OF assms(1)]
  by (auto simp: alloc_left_def lookahead_ok_def)

lemma alloc_loop_found:
  assumes "lookahead_ok c (lfs_free s)" and "alloc_blocks c (lfs_free s) = b # rest"
  shows "\<exists>fr'. alloc_loop c (Suc n) s = (Ok b, s\<lparr>lfs_free := fr'\<rparr>) \<and> advanced c (lfs_free s) fr' \<and>
    alloc_blocks c fr' = rest"
proof -
  obtain found fr' where f: "alloc_scan c (alloc_scan_fuel (lfs_free s)) (lfs_free s) = (Ok found, fr')"
    "advanced c (lfs_free s) fr'" "found = None \<Longrightarrow> alloc_blocks c (lfs_free s) = []"
    "\<And>b. found = Some b \<Longrightarrow> alloc_blocks c (lfs_free s) = b # alloc_blocks c fr'"
    using alloc_scan_run [OF assms(1)] by metis
  then have "found = Some b" "alloc_blocks c fr' = rest" using assms(2) by (cases found; simp)+
  then show ?thesis
    using f(1,2) by (auto simp: cmd_simps on_free_def)
qed

text \<open>A window without a free block: the scan runs to its end.\<close>

lemma alloc_scan_none:
  assumes "lookahead_ok c fr" and "alloc_blocks c fr = []"
  obtains fr' where "alloc_scan c (alloc_scan_fuel fr) fr = (Ok None, fr')" and "advanced c fr fr'"
    and "free_i fr' = free_size fr'" and "alloc_left fr = unat (free_ack fr')"
    and "next_window c fr = next_window c fr'" and "free_off fr' = free_off fr"
    and "free_size fr' = free_size fr"
proof -
  obtain found fr1 where f: "alloc_scan c (alloc_scan_fuel fr) fr = (Ok found, fr1)"
    "advanced c fr fr1" "found = None \<Longrightarrow> free_i fr1 = free_size fr1"
    "\<And>b. found = Some b \<Longrightarrow> alloc_blocks c fr = b # alloc_blocks c fr1"
    using alloc_scan_run [OF assms(1)] by metis
  then have none: "found = None" using assms(2) by (cases found) auto
  then have e: "free_i fr1 = free_size fr1" using f(3) by simp
  note same = advanced_fields [OF f(2)]
  have l: "alloc_left fr = unat (free_ack fr1)"
    using e advanced_left [OF f(2) assms(1)] by (simp add: alloc_left_def [of fr1])
  have "next_window c fr = next_window c fr1"
    using same advanced_left [OF f(2) assms(1)] by (simp add: next_window_def)
  then show thesis using that f(1,2) none e l same by simp
qed

lemma alloc_loop_refill:
  assumes wf: "wf_lookahead c" and ok: "lookahead_ok c (lfs_free s)"
    and empty: "alloc_blocks c (lfs_free s) = []" and left: "alloc_left (lfs_free s) \<noteq> 0"
    and tr: "lfs_fs_rawtraverse c collect_cb True (s, []) = (Ok (), (s', used))"
    and used: "\<forall>b \<in> set used. b < cfg_block_count c"
  shows "\<exists>fr'. alloc_loop c (Suc n) s = alloc_loop c n (s'\<lparr>lfs_free := fr'\<rparr>) \<and> lookahead_ok c fr' \<and>
    alloc_blocks c fr' = filter (\<lambda>b. b \<notin> set used) (next_window c (lfs_free s)) \<and>
    alloc_candidates c used fr' = alloc_candidates c used (lfs_free s) \<and>
    alloc_left fr' < alloc_left (lfs_free s)"
proof -
  let ?fr = "lfs_free s" and ?la = "8 * unat (cfg_lookahead_size c)"
  from alloc_scan_none [OF ok empty] obtain fr1 where f: "alloc_scan c (alloc_scan_fuel ?fr) ?fr = (Ok None, fr1)"
    "advanced c ?fr fr1" "free_i fr1 = free_size fr1" "alloc_left ?fr = unat (free_ack fr1)"
    "next_window c ?fr = next_window c fr1" "free_off fr1 = free_off ?fr" "free_size fr1 = free_size ?fr"
    by metis
  have ok1: "lookahead_ok c fr1" using f(2) by (rule advanced_ok)
  from alloc_window_ok [OF wf ok1 f(3)] obtain fr2 where w: "alloc_window c fr1 = (Ok (), fr2)"
    "lookahead_ok c fr2" "free_i fr2 = 0" "free_ack fr2 = free_ack fr1"
    "unat (free_off fr2) < unat (cfg_block_count c)"
    "next_window c fr1 = map (ring c (free_off fr2)) [0..<unat (free_size fr2)]"
    "\<And>j. j < unat (free_size fr2) \<Longrightarrow> block_free fr2 j"
    "free_off fr2 = (free_off fr1 + free_size fr1) mod cfg_block_count c"
    "unat (free_size fr2) = min ?la (unat (free_ack fr1))" by metis
  define fr3 where "fr3 = mark_blocks c used fr2"
  note m = alloc_blocks_marked [OF wf w(2,3,5,6,7) used, folded fr3_def]
  have fits: "window_fits fr2" using w(2) by (simp add: lookahead_ok_def)
  have run: "alloc_loop c (Suc n) s = alloc_loop c n (s'\<lparr>lfs_free := fr3\<rparr>)"
    using f(1,4) w(1) left lookahead_traverse [OF fits tr]
    by (simp add: cmd_simps on_free_def with_data_def run_data_def unat_eq_0 [symmetric] fr3_def)
  let ?k = "unat (free_size fr2)" and ?l = "alloc_left ?fr"
  have l: "alloc_left fr3 = ?l - ?k" "?k \<le> ?l" "0 < ?k" "?l \<le> unat (cfg_block_count c)"
    using w(2,3,4,9) f(4) left wf by (auto simp: alloc_left_def fr3_def wf_lookahead_def lookahead_ok_def)
  have "ring c ((free_off fr2 + free_size fr2) mod cfg_block_count c) j = ring c (free_off fr2) (?k + j)"
    if "j < ?l - ?k" for j
    using ring_ring [OF wf w(5), of ?k j] that l(4) by simp
  then have "map (ring c ((free_off fr2 + free_size fr2) mod cfg_block_count c)) [0..<?l - ?k] =
      map (ring c (free_off fr2) \<circ> (\<lambda>j. ?k + j)) [0..<?l - ?k]" by simp
  also have "\<dots> = map (ring c (free_off fr2)) [?k..<?l]"
    using l(2) map_add_upt [of ?k "?l - ?k"] by (simp flip: map_map add: add.commute)
  finally have "map (ring c (free_off fr2)) [0..<?l] = next_window c fr1 @
      map (ring c ((free_off fr2 + free_size fr2) mod cfg_block_count c)) [0..<?l - ?k]"
    using w(6) l(2) by (metis le_add_diff_inverse map_append upt_add_eq_append zero_le)
  then have "alloc_candidates c used fr3 = alloc_candidates c used ?fr"
    using m(2) empty l(1) w(8) f(6,7) by (simp add: alloc_candidates_def fr3_def)
  then show ?thesis using run m f(5) l by (intro exI [of _ fr3]) simp
qed

text \<open>
  The allocator as a queue: it takes the first candidate, and fails only when there is none.
  \<open>good\<close> is a property of the states in which the traversal reports the blocks \<open>used\<close>.
\<close>

lemma alloc_loop_queue:
  assumes wf: "wf_lookahead c" and used: "\<forall>b \<in> set used. b < cfg_block_count c"
    and tr: "\<And>s. good s \<Longrightarrow> \<exists>s'. lfs_fs_rawtraverse c collect_cb True (s, []) = (Ok (), (s', used)) \<and> good s'"
    and free: "\<And>s fr. good s \<Longrightarrow> good (s\<lparr>lfs_free := fr\<rparr>)"
  shows "good s \<Longrightarrow> lookahead_ok c (lfs_free s) \<Longrightarrow> alloc_left (lfs_free s) < n \<Longrightarrow>
    \<exists>s'. good s' \<and> lookahead_ok c (lfs_free s') \<and> (case alloc_candidates c used (lfs_free s) of
        [] \<Rightarrow> alloc_loop c n s = (Err LFS_ERR_NOSPC, s')
      | b # rest \<Rightarrow> alloc_loop c n s = (Ok b, s') \<and> alloc_candidates c used (lfs_free s') = rest)"
proof (induction n arbitrary: s)
  case (Suc n)
  note s = Suc.prems
  show ?case
  proof (cases "alloc_blocks c (lfs_free s)")
    case (Cons b rest)
    from alloc_loop_found [OF s(2) Cons] obtain fr' where f: "alloc_loop c (Suc n) s = (Ok b, s\<lparr>lfs_free := fr'\<rparr>)"
      "advanced c (lfs_free s) fr'" "alloc_blocks c fr' = rest" by blast
    then have "alloc_candidates c used (lfs_free s) = b # alloc_candidates c used fr'"
      using Cons advanced_left [OF f(2) s(2)] advanced_fields [OF f(2)] by (simp add: alloc_candidates_def)
    then show ?thesis
      using f free [OF s(1)] by (intro exI [of _ "s\<lparr>lfs_free := fr'\<rparr>"]) (simp add: advanced_ok)
  next
    case Nil
    show ?thesis
    proof (cases "alloc_left (lfs_free s) = 0")
      case True
      from alloc_scan_none [OF s(2) Nil] obtain fr1 where
        "alloc_scan c (alloc_scan_fuel (lfs_free s)) (lfs_free s) = (Ok None, fr1)"
        "advanced c (lfs_free s) fr1" "alloc_left (lfs_free s) = unat (free_ack fr1)" by metis
      then show ?thesis
        using True Nil free [OF s(1)]
        by (intro exI [of _ "s\<lparr>lfs_free := fr1\<rparr>"])
          (simp add: cmd_simps on_free_def alloc_candidates_def advanced_ok unat_eq_0)
    next
      case False
      from tr [OF s(1)] obtain s1 where t: "lfs_fs_rawtraverse c collect_cb True (s, []) = (Ok (), (s1, used))"
        "good s1" by blast
      from alloc_loop_refill [OF wf s(2) Nil False t(1) used, of n] obtain fr' where
        r: "alloc_loop c (Suc n) s = alloc_loop c n (s1\<lparr>lfs_free := fr'\<rparr>)" "lookahead_ok c fr'"
        "alloc_candidates c used fr' = alloc_candidates c used (lfs_free s)"
        "alloc_left fr' < alloc_left (lfs_free s)" by blast
      have "\<exists>s'. good s' \<and> lookahead_ok c (lfs_free s') \<and> (case alloc_candidates c used fr' of
          [] \<Rightarrow> alloc_loop c n (s1\<lparr>lfs_free := fr'\<rparr>) = (Err LFS_ERR_NOSPC, s')
        | b # rest \<Rightarrow> alloc_loop c n (s1\<lparr>lfs_free := fr'\<rparr>) = (Ok b, s') \<and>
            alloc_candidates c used (lfs_free s') = rest)"
        using Suc.IH [of "s1\<lparr>lfs_free := fr'\<rparr>"] free [OF t(2)] r(2,4) s(3) by simp
      then show ?thesis by (simp only: r(1,3))
    qed
  qed
qed simp


section \<open>The invariant\<close>

text \<open>An allocation keeps the invariant of the buffer whatever its outcome, also when the traversal fails.\<close>

lemma alloc_drop_ok:
  "lookahead_ok c (lfs_free s) \<Longrightarrow>
     \<exists>fr. lfs_alloc_drop c s = (Ok (), s\<lparr>lfs_free := fr\<rparr>) \<and> lookahead_ok c fr"
  by (intro exI [of _ "(lfs_free s)\<lparr>free_size := 0, free_i := 0, free_ack := cfg_block_count c\<rparr>"])
    (simp add: lfs_alloc_drop_def lfs_alloc_ack_def on_free_def cmd_simps lookahead_ok_def window_fits_def)

lemma alloc_loop_keeps:
  assumes wf: "wf_lookahead c"
  shows "lookahead_ok c (lfs_free s) \<Longrightarrow>
    wp (alloc_loop c n) (\<lambda>r s'. lookahead_ok c (lfs_free s') \<and> (\<forall>b. r = Ok b \<longrightarrow> b < cfg_block_count c)) s"
proof (induction n arbitrary: s)
  case 0
  then show ?case by (simp add: wp_simps)
next
  case (Suc n)
  note ok = Suc.prems
  show ?case
  proof (cases "alloc_blocks c (lfs_free s)")
    case (Cons b rest)
    then have "b < cfg_block_count c"
      using wf by (auto simp: alloc_blocks_def ring_def wf_lookahead_def u32_simps Cons_eq_map_conv)
    then show ?thesis
      using alloc_loop_found [OF ok Cons, of n] advanced_ok by (auto simp: wp_def)
  next
    case Nil
    from alloc_scan_none [OF ok Nil] obtain fr1 where f:
      "alloc_scan c (alloc_scan_fuel (lfs_free s)) (lfs_free s) = (Ok None, fr1)"
      "advanced c (lfs_free s) fr1" "free_i fr1 = free_size fr1" by metis
    note ok1 = advanced_ok [OF f(2)]
    show ?thesis
    proof (cases "free_ack fr1 = 0")
      case True
      then show ?thesis using f(1) ok1 by (simp add: wp_def cmd_simps on_free_def)
    next
      case False
      from alloc_window_ok [OF wf ok1 f(3)] obtain fr2 where
        w: "alloc_window c fr1 = (Ok (), fr2)" "lookahead_ok c fr2" by metis
      obtain r s1 used where t: "lfs_fs_rawtraverse c collect_cb True (s, []) = (r, (s1, used))"
        by (metis prod.exhaust)
      define s2 where "s2 = s1\<lparr>lfs_free := mark_blocks c used fr2\<rparr>"
      have "lookahead_ok c (lfs_free s2)" using w(2) by (simp add: s2_def lookahead_ok_def window_fits_def)
      moreover have "with_data () (lfs_fs_rawtraverse c (lfs_alloc_lookahead c) True) (s\<lparr>lfs_free := fr2\<rparr>) =
          (case r of Ok _ \<Rightarrow> Ok () | Err e \<Rightarrow> Err e | Fault y \<Rightarrow> Fault y, s2)"
        using lookahead_traverse [OF _ t, of fr2] w(2)
        by (cases r) (simp_all add: with_data_def run_data_def bnd_def ret_def s2_def lookahead_ok_def)
      ultimately show ?thesis
        using f(1) w(1) False Suc.IH [of s2] alloc_drop_ok [of c s2]
        by (cases r) (auto simp: wp_def bnd_def attempt_def gets_def on_free_def zoom_def throw_def)
    qed
  qed
qed

lemma alloc_left_fuel: "alloc_left fr < unat (free_ack fr) + 2"
  by (simp add: alloc_left_def)

end
