(* ===== verification/LFS_Examples.thy ===== *)
theory LFS_Examples
  imports LFS_Path LFS_Alloc_Props
begin

text \<open>
  A small concrete file-system geometry, devices and caches for it, on which the theorems of the
  root theory are evaluated.
\<close>

definition demo_geometry :: lfs_geometry where
  "demo_geometry = \<lparr>cfg_read_size = 4, cfg_prog_size = 4, cfg_block_size = 128,
     cfg_block_count = 4, cfg_block_cycles = 100, cfg_cache_size = 16, cfg_lookahead_size = 8,
     cfg_name_max = 0, cfg_file_max = 0, cfg_attr_max = 0, cfg_metadata_max = 0\<rparr>"

text \<open>A device whose bytes count up, and that may be programmed anywhere.\<close>

definition demo_device :: lfs_rambd where
  "demo_device = \<lparr>rambd_buffer = map of_nat [0..<512],
     rambd_cfg = \<lparr>rbcfg_erase_value = - 1, rbcfg_buffer = None\<rparr>\<rparr>"

definition demo_cache :: lfs_cache where
  "demo_cache = \<lparr>cache_block = LFS_BLOCK_NULL, cache_off = 0, cache_size = 0,
     cache_buffer = replicate 16 0xff\<rparr>"

lemma demo_geometry_simps [simp]:
  "cfg_read_size demo_geometry = 4" "cfg_prog_size demo_geometry = 4"
  "cfg_block_size demo_geometry = 128" "cfg_block_count demo_geometry = 4"
  "cfg_cache_size demo_geometry = 16" "cfg_lookahead_size demo_geometry = 8" "cfg_metadata_max demo_geometry = 0"
  by (simp_all add: demo_geometry_def)

lemma demo_wf [simp]: "wf_geometry demo_geometry"
  by (simp add: wf_geometry_def LFS_BLOCK_INLINE_def)

lemma demo_valid [simp]: "rambd_valid demo_geometry demo_device"
  by (simp add: rambd_valid_def demo_device_def)

lemma demo_erased [simp]: "rambd_erased demo_geometry demo_device b i"
  by (simp add: rambd_erased_def demo_device_def)

lemma demo_cache_coherent [simp]: "cache_coherent (rambd_config demo_geometry) cont demo_cache"
  by (simp add: cache_coherent_def cache_inside_def demo_cache_def LFS_BLOCK_NULL_def)

lemma demo_cursor [simp]:
  "er = rambd_erased demo_geometry demo_device b \<Longrightarrow> unat off mod 4 = 0 \<Longrightarrow>
     prog_cursor (rambd_config demo_geometry) er b off demo_cache"
  by (auto simp: prog_cursor_def demo_cache_def)

lemma demo_rcache_ok [simp]:
  "b \<noteq> LFS_BLOCK_NULL \<Longrightarrow> rcache_ok (rambd_config demo_geometry) cont validate b demo_cache"
  by (simp add: rcache_ok_def) (simp add: demo_cache_def)

lemma demo_contents:
  "rambd_contents demo_geometry demo_device 1 = map of_nat [128..<256]"
  by (simp add: rambd_contents_def demo_device_def seg_def take_map drop_map take_upt drop_upt
      del: upt_Suc upt_rec_numeral)

text \<open>A device that fails every read.\<close>

definition broken_config :: "lfs_geometry \<Rightarrow> unit lfs_config" where
  "broken_config g = lfs_geometry.extend g
     \<lparr>cfg_read = (\<lambda>block off sz. throw LFS_ERR_IO), cfg_prog = (\<lambda>block off xs. throw LFS_ERR_IO),
      cfg_erase = (\<lambda>block. throw LFS_ERR_IO), cfg_sync = throw LFS_ERR_IO\<rparr>"

lemma broken_config_simps [simp]:
  "cfg_read (broken_config g) b off sz d = (Err LFS_ERR_IO, d)"
  "cfg_read_size (broken_config g) = cfg_read_size g"
  "cfg_block_size (broken_config g) = cfg_block_size g"
  "cfg_block_count (broken_config g) = cfg_block_count g"
  "cfg_cache_size (broken_config g) = cfg_cache_size g"
  by (simp_all add: broken_config_def lfs_geometry.defs throw_def)

lemma broken_region:
  "lfs_min (lfs_min (lfs_alignup 16 4) 128) 16 = 16" "lfs_aligndown 0 4 = 0"
  by (simp_all add: lfs_min_def lfs_alignup_def lfs_aligndown_def)

text \<open>A file of two blocks: block 1, then block 2, which starts with the address of block 1.\<close>

definition demo_list_device :: lfs_rambd where
  "demo_list_device = \<lparr>rambd_buffer = replicate 256 7 @ [1, 0, 0, 0] @ replicate 252 7,
     rambd_cfg = \<lparr>rbcfg_erase_value = - 1, rbcfg_buffer = None\<rparr>\<rparr>"

definition demo_blocks :: "nat \<Rightarrow> u32" where
  "demo_blocks n = of_nat n + 1"

lemma demo_blocks_1 [simp]: "demo_blocks (Suc 0) = 2" "demo_blocks 0 = 1"
  by (simp_all add: demo_blocks_def)

lemma demo_list_valid [simp]: "rambd_valid demo_geometry demo_list_device"
  by (simp add: rambd_valid_def demo_list_device_def)

lemma lfs_popc_small: "lfs_popc 0 = 0" "lfs_popc 1 = 1"
  using unat_lfs_popc [of 0] unat_lfs_popc [of 1] pc_odd [of 1] by (simp_all add: u32_eq)

lemma demo_ctz_index [simp]:
  "lfs_ctz_index demo_geometry 199 = (1, 75)"
  "lfs_ctz_index (rambd_config demo_geometry) 199 = (1, 75)"
  by (simp_all add: lfs_ctz_index_def lfs_popc_small Let_def)

lemma demo_ctz_layout [simp]: "ctz_start 128 1 = 128" "ctz_start 128 2 = 252" "ctz_ptrs 1 = 1"
  by (simp_all add: ctz_ptrs_def numeral_2_eq_2)

lemma demo_ctz_list [simp]:
  "ctz_list (rambd_config demo_geometry) (rambd_contents demo_geometry demo_list_device) demo_blocks (Suc 0)"
proof -
  have seg: "seg (rambd_contents demo_geometry demo_list_device 2) 0 4 = [1, 0, 0, 0]"
    by (simp add: rambd_contents_def demo_list_device_def seg_def)
  have ptrs: "ctz_ptrs (Suc 0) = 1" "ctz_ptrs 0 = 0" by (simp_all add: ctz_ptrs_def)
  have bytes: "u32_of_bytes [1, 0, 0, 0] = 1" by simp
  show ?thesis
    unfolding ctz_list_def
  proof (intro allI impI)
    fix n :: nat assume "n \<le> Suc 0"
    then have "n = 0 \<or> n = Suc 0" by auto
    then show "demo_blocks n < cfg_block_count (rambd_config demo_geometry) \<and>
        4 * ctz_ptrs n \<le> unat (cfg_block_size (rambd_config demo_geometry)) \<and>
        (\<forall>k < ctz_ptrs n. u32_of_bytes (seg (rambd_contents demo_geometry demo_list_device (demo_blocks n))
           (4 * k) 4) = lfs_tole32 (demo_blocks (n - 2 ^ k)))"
      using seg ptrs bytes by (elim disjE) (simp_all add: lfs_tole32_def lfs_fromle32_def)
  qed
qed

lemma demo_cache_replicate [simp]:
  "cache_block demo_cache = LFS_BLOCK_NULL" "length (cache_buffer demo_cache) = 16"
  "seg (cache_buffer demo_cache) 0 4 = [255, 255, 255, 255]"
  by (simp_all add: demo_cache_def seg_def numeral_eq_Suc)

lemma block_null_neq [simp]: "LFS_BLOCK_NULL \<noteq> 1" "LFS_BLOCK_NULL \<noteq> 2"
  by (simp_all add: LFS_BLOCK_NULL_def)

text \<open>A file system state around a device.\<close>

definition demo_lfs :: "'d \<Rightarrow> 'd lfs" where
  "demo_lfs d = \<lparr>lfs_rcache = demo_cache, lfs_pcache = demo_cache, lfs_root = (0, 1), lfs_mlist = [],
     lfs_seed = 0, lfs_gstate = gstate_zero, lfs_gdisk = gstate_zero, lfs_gdelta = gstate_zero,
     lfs_free = \<lparr>free_off = 0, free_size = 0, free_i = 0, free_ack = 0, free_buffer = [0, 0]\<rparr>,
     lfs_name_max = 255, lfs_file_max = 0x7fffffff, lfs_attr_max = 1022,
     lfs_objs = (\<lambda>_. \<lparr>obj_id = 0, obj_type = 0, obj_m = mdir_zero, dir_pos = 0, dir_head = (0, 0),
        file_ctz = \<lparr>ctz_head = 0, ctz_size = 0\<rparr>, file_flags = 0, file_pos = 0, file_block = 0,
        file_off = 0, file_cache = demo_cache, file_attrs = []\<rparr>),
     lfs_dev = d\<rparr>"

lemma demo_lfs_simps [simp]:
  "lfs_rcache (demo_lfs d) = demo_cache" "lfs_dev (demo_lfs d) = d"
  by (simp_all add: demo_lfs_def)

lemma visits_collect [simp]: "visits collect_cb collect"
  by (simp add: visits_def collect_cb_def collect_def put_rcache_def)

lemmas path_eval = path_lookups.simps path_next.simps path_skip.simps components.simps slash_def
  dot_def Let_def skip_slashes_def component_def after_component_def

text \<open>A reader of the file of two blocks, eight bytes before the border.\<close>

definition demo_reader :: obj_ref where
  "demo_reader = Handle 0"

definition demo_reader_lfs :: "lfs_rambd lfs" where
  "demo_reader_lfs = (let s = demo_lfs demo_list_device in
     s\<lparr>lfs_objs := (\<lambda>x. (lfs_objs s x)\<lparr>file_flags := LFS_O_RDONLY, file_pos := 120,
         file_ctz := \<lparr>ctz_head = 2, ctz_size = 200\<rparr>\<rparr>)\<rparr>)"

lemma demo_reader_simps [simp]:
  "lfs_dev demo_reader_lfs = demo_list_device" "file_flags (lfs_objs demo_reader_lfs x) = 1"
  "file_pos (lfs_objs demo_reader_lfs x) = 120" "file_cache (lfs_objs demo_reader_lfs x) = demo_cache"
  "file_ctz (lfs_objs demo_reader_lfs x) = \<lparr>ctz_head = 2, ctz_size = 200\<rparr>"
  by (simp_all add: demo_reader_lfs_def demo_lfs_def Let_def LFS_O_RDONLY_def)

lemma demo_list_blocks:
  "rambd_contents demo_geometry demo_list_device 1 = replicate 128 7"
  "rambd_contents demo_geometry demo_list_device 2 = [1, 0, 0, 0] @ replicate 124 7"
  by (simp_all add: rambd_contents_def demo_list_device_def seg_def)


text \<open>An open file whose data is in its buffer, as \<^verbatim>\<open>lfs_file_rawopencfg\<close> leaves a new one.\<close>

definition demo_inline_lfs :: "lfs_rambd lfs" where
  "demo_inline_lfs = (let s = demo_lfs demo_list_device in
     s\<lparr>lfs_objs := (\<lambda>x. (lfs_objs s x)\<lparr>file_flags := LFS_F_INLINE OR LFS_O_RDONLY OR LFS_O_WRONLY,
         file_ctz := \<lparr>ctz_head = LFS_BLOCK_INLINE, ctz_size = 0\<rparr>,
         file_cache := demo_cache\<lparr>cache_block := LFS_BLOCK_INLINE, cache_size := 16\<rparr>\<rparr>)\<rparr>)"


text \<open>A block with a log: an entry with a name and two bytes of data, and another one created before it.\<close>

definition demo_log :: "(u32 \<times> u8 list) list" where
  "demo_log = [(0x40100000, []), (0x20100002, [104, 105]), (0x00100001, [97]), (0x40100000, [])]"

definition demo_log_bytes :: "u8 list" where
  "demo_log_bytes = [1, 0, 0, 0,  0xbf, 0xef, 0xff, 0xff,  0x40, 0, 0, 1, 97,  0x20, 0, 0, 3, 104, 105,  0x60, 0, 0, 2]"

definition demo_log_device :: lfs_rambd where
  "demo_log_device = \<lparr>rambd_buffer = demo_log_bytes @ replicate 489 0,
     rambd_cfg = \<lparr>rbcfg_erase_value = - 1, rbcfg_buffer = None\<rparr>\<rparr>"

definition demo_log_dir :: lfs_mdir where
  "demo_log_dir = mdir_zero\<lparr>md_pair := (0, 1), md_off := 23, md_etag := 0x40100000, md_count := 2\<rparr>"

lemma demo_log_valid [simp]: "rambd_valid demo_geometry demo_log_device"
  by (simp add: rambd_valid_def demo_log_device_def demo_log_bytes_def)

lemma demo_log_block: "rambd_contents demo_geometry demo_log_device 0 = demo_log_bytes @ replicate 105 0"
  by (simp add: rambd_contents_def demo_log_device_def demo_log_bytes_def seg_def)


text \<open>The same file, open for writing.\<close>

definition demo_writer :: "obj_ref \<Rightarrow> lfs_object" where
  "demo_writer x = (lfs_objs demo_reader_lfs x)\<lparr>file_flags := 3\<rparr>"

lemma demo_writer_simps [simp]:
  "file_flags (demo_writer x) = 3" "file_pos (demo_writer x) = 120" "file_cache (demo_writer x) = demo_cache"
  "file_ctz (demo_writer x) = \<lparr>ctz_head = 2, ctz_size = 200\<rparr>"
  by (simp_all add: demo_writer_def)

end
