(* ===== verification/LFS_Fs.thy ===== *)
theory LFS_Fs
  imports LFS_Mdir
begin

text \<open>
  Searching the chain of metadata pairs and preparing changes of the global state:
  \<^verbatim>\<open>lfs_fs_pred\<close>, \<^verbatim>\<open>lfs_fs_parent\<close>, \<^verbatim>\<open>lfs_fs_preporphans\<close> and \<^verbatim>\<open>lfs_fs_prepmove\<close> of
  \<^verbatim>\<open>src/src/lfs/lfs.c\<close>.  The searches write the directory of their caller on every path, so they
  return it with the result.
\<close>

section \<open>Predecessor and parent\<close>

fun pred_loop ::
  "'d lfs_config \<Rightarrow> pair \<Rightarrow> nat \<Rightarrow> u32 \<Rightarrow> lfs_mdir \<Rightarrow> ('d lfs, lfs_mdir \<times> lfs_error option) cmd" where
  "pred_loop c pair 0 cycle pdir = stuck Out_Of_Fuel"
| "pred_loop c pair (Suc n) cycle pdir =
     (if lfs_pair_isnull (md_tail pdir) then ret (pdir, Some LFS_ERR_NOENT)
      else if cfg_block_count c div 2 \<le> cycle then ret (pdir, Some LFS_ERR_CORRUPT)
      else if \<not> lfs_pair_cmp (md_tail pdir) pair then ret (pdir, None)
      else
        bnd (lfs_dir_fetch c pdir (md_tail pdir)) (\<lambda>(pdir', e). case e of
            Some err \<Rightarrow> ret (pdir', Some err)
          | None \<Rightarrow> pred_loop c pair n (cycle + 1) pdir'))"

definition lfs_fs_pred ::
  "'d lfs_config \<Rightarrow> pair \<Rightarrow> lfs_mdir \<Rightarrow> ('d lfs, lfs_mdir \<times> lfs_error option) cmd" where
  "lfs_fs_pred c pair pdir =
     pred_loop c pair (unat (cfg_block_count c div 2) + 2) 0 (pdir\<lparr>md_tail := (0, 1)\<rparr>)"

text \<open>The callback of the search for a parent: an entry that holds the pair.\<close>

definition lfs_fs_parent_match :: "'d lfs_config \<Rightarrow> pair \<Rightarrow> 'd fetch_cb" where
  "lfs_fs_parent_match c pair tag block off =
     bnd (gets lfs_pcache) (\<lambda>p.
     bnd (on_rcache (lfs_bd_read c (Some p) (cfg_block_size c) block off 8)) (\<lambda>bs.
     ret (if \<not> lfs_pair_cmp (lfs_pair_fromle32 (pair_of_bytes bs)) pair then LFS_CMP_EQ else LFS_CMP_LT)))"

fun parent_loop ::
  "'d lfs_config \<Rightarrow> pair \<Rightarrow> nat \<Rightarrow> u32 \<Rightarrow> lfs_mdir \<Rightarrow>
     ('d lfs, lfs_mdir \<times> (lfs_error + u32)) cmd" where
  "parent_loop c pair 0 cycle parent = stuck Out_Of_Fuel"
| "parent_loop c pair (Suc n) cycle parent =
     (if lfs_pair_isnull (md_tail parent) then ret (parent, Inl LFS_ERR_NOENT)
      else if cfg_block_count c div 2 \<le> cycle then ret (parent, Inl LFS_ERR_CORRUPT)
      else
        bnd (lfs_dir_fetchmatch c parent (md_tail parent) (LFS_MKTAG 0x7ff 0 0x3ff)
               (LFS_MKTAG LFS_TYPE_DIRSTRUCT 0 8) (lfs_fs_parent_match c pair)) (\<lambda>(parent', _, res).
        if res \<noteq> Inr 0 \<and> res \<noteq> Inl LFS_ERR_NOENT then ret (parent', res)
        else parent_loop c pair n (cycle + 1) parent'))"

definition lfs_fs_parent ::
  "'d lfs_config \<Rightarrow> pair \<Rightarrow> lfs_mdir \<Rightarrow> ('d lfs, lfs_mdir \<times> (lfs_error + u32)) cmd" where
  "lfs_fs_parent c pair parent =
     parent_loop c pair (unat (cfg_block_count c div 2) + 2) 0 (parent\<lparr>md_tail := (0, 1)\<rparr>)"

section \<open>Preparing the global state\<close>

text \<open>
  The number of orphans is in the size field of the tag, the top bit says that there are some; a
  pending move is the rest of the tag with the pair.  \<open>orphans\<close> is an int8.
\<close>

definition gstate_orphans :: "u8 \<Rightarrow> lfs_gstate \<Rightarrow> lfs_gstate" where
  "gstate_orphans orphans g =
     (let g' = g\<lparr>gs_tag := gs_tag g + scast orphans\<rparr>
      in g'\<lparr>gs_tag := (gs_tag g' AND NOT (LFS_MKTAG 0x800 0 0)) OR
              push_bit 31 (if lfs_gstate_hasorphans g' then 1 else 0)\<rparr>)"

definition lfs_fs_preporphans :: "u8 \<Rightarrow> ('d lfs, unit) cmd" where
  "lfs_fs_preporphans orphans =
     bnd (gets lfs_gstate) (\<lambda>g.
     bnd (assertion (0 < lfs_tag_size (gs_tag g) \<or> 0 \<le> sint orphans)) (\<lambda>_.
     modify (\<lambda>s. s\<lparr>lfs_gstate := gstate_orphans orphans (lfs_gstate s)\<rparr>)))"

definition gstate_move :: "u16 \<Rightarrow> pair \<Rightarrow> lfs_gstate \<Rightarrow> lfs_gstate" where
  "gstate_move i pair g =
     \<lparr>gs_tag = (gs_tag g AND NOT (LFS_MKTAG 0x7ff 0x3ff 0)) OR
        (if i \<noteq> 0x3ff then LFS_MKTAG LFS_TYPE_DELETE (ucast i) 0 else 0),
      gs_pair = (if i \<noteq> 0x3ff then pair else (0, 0))\<rparr>"

definition lfs_fs_prepmove :: "u16 \<Rightarrow> pair \<Rightarrow> ('d lfs, unit) cmd" where
  "lfs_fs_prepmove i pair = modify (\<lambda>s. s\<lparr>lfs_gstate := gstate_move i pair (lfs_gstate s)\<rparr>)"

end
