(* ===== verification/LFS_Steady.thy ===== *)
theory LFS_Steady
  imports LFS_Alloc_Props LFS_Fs
begin

text \<open>
  Reading an arbitrary disk.  A command is steady when it never faults, keeps what a relation \<open>F\<close>
  says, and gives the same result from states that a relation \<open>R\<close> takes for the same.  The
  operations that read metadata are steady for states with the same disk: on any contents of a
  block device they end without a fault, leave the disk alone, and what they return depends on the
  contents only, not on what the read cache happens to hold.
\<close>

section \<open>Steady commands\<close>

named_theorems steady_rules \<comment> \<open>steadiness of the command combinators and of the operations\<close>

definition steady :: "('s \<Rightarrow> 's \<Rightarrow> bool) \<Rightarrow> ('s \<Rightarrow> 's \<Rightarrow> bool) \<Rightarrow> ('a \<Rightarrow> bool) \<Rightarrow> ('s, 'a) cmd \<Rightarrow> bool" where
  "steady R F Q m \<longleftrightarrow> (\<forall>s t. R s t \<longrightarrow> (\<exists>r s' t'. m s = (r, s') \<and> m t = (r, t') \<and> R s' t' \<and> F s s' \<and>
     (case r of Ok a \<Rightarrow> Q a | Err e \<Rightarrow> True | Fault x \<Rightarrow> False)))"

definition any :: "'a \<Rightarrow> bool" where
  "any x \<longleftrightarrow> True"

lemma any [simp]: "any x"
  by (simp add: any_def)

lemma steadyE:
  assumes "steady R F Q m" and "R s t"
  obtains r s' t' where "m s = (r, s')" and "m t = (r, t')" and "R s' t'" and "F s s'"
    and "\<And>a. r = Ok a \<Longrightarrow> Q a" and "\<And>x. r \<noteq> Fault x"
proof -
  from assms obtain r s' t' where *: "m s = (r, s')" "m t = (r, t')" "R s' t'" "F s s'"
    "case r of Ok a \<Rightarrow> Q a | Err e \<Rightarrow> True | Fault x \<Rightarrow> False"
    unfolding steady_def by blast
  show ?thesis by (rule that [OF *(1-4)]) (use *(5) in \<open>auto split: outcome.splits\<close>)
qed

lemma steady_weaken:
  assumes "steady R F P m" and "\<And>a. P a \<Longrightarrow> Q a"
  shows "steady R F Q m"
  unfolding steady_def
proof (intro allI impI)
  fix s t assume "R s t"
  then show "\<exists>r s' t'. m s = (r, s') \<and> m t = (r, t') \<and> R s' t' \<and> F s s' \<and>
      (case r of Ok a \<Rightarrow> Q a | Err e \<Rightarrow> True | Fault x \<Rightarrow> False)"
    by (rule steadyE [OF assms(1)]) (auto split: outcome.splits intro: assms(2))
qed

lemma steady_any: "steady R F Q m \<Longrightarrow> steady R F any m"
  by (erule steady_weaken) simp

lemma steady_if [steady_rules]:
  "(b \<Longrightarrow> steady R F Q m) \<Longrightarrow> (\<not> b \<Longrightarrow> steady R F Q k) \<Longrightarrow> steady R F Q (if b then m else k)"
  by simp

lemma steady_case_sum [steady_rules]:
  "(\<And>a. x = Inl a \<Longrightarrow> steady R F Q (f a)) \<Longrightarrow> (\<And>b. x = Inr b \<Longrightarrow> steady R F Q (g b)) \<Longrightarrow>
     steady R F Q (case x of Inl a \<Rightarrow> f a | Inr b \<Rightarrow> g b)"
  by (cases x) simp_all

lemma steady_case_option [steady_rules]:
  "(x = None \<Longrightarrow> steady R F Q m) \<Longrightarrow> (\<And>a. x = Some a \<Longrightarrow> steady R F Q (f a)) \<Longrightarrow>
     steady R F Q (case x of None \<Rightarrow> m | Some a \<Rightarrow> f a)"
  by (cases x) simp_all

lemma steady_case_prod [steady_rules]:
  "(\<And>a b. x = (a, b) \<Longrightarrow> steady R F Q (f a b)) \<Longrightarrow> steady R F Q (case x of (a, b) \<Rightarrow> f a b)"
  by (cases x) simp_all

text \<open>What the relations need: \<open>F\<close> is reflexive where \<open>R\<close> holds, and transitive.\<close>

locale steady_frame =
  fixes R F :: "'s \<Rightarrow> 's \<Rightarrow> bool"
  assumes frame_refl: "R s t \<Longrightarrow> F s s"
    and frame_trans: "F s t \<Longrightarrow> F t u \<Longrightarrow> F s u"
begin

lemma ret [steady_rules]: "Q a \<Longrightarrow> steady R F Q (ret a)"
  by (simp add: steady_def ret_def frame_refl)

lemma throw [steady_rules]: "steady R F Q (throw e)"
  by (simp add: steady_def throw_def frame_refl)

lemma assertion [steady_rules]: "b \<Longrightarrow> steady R F any (assertion b)"
  by (simp add: assertion_def ret)

lemma gets: "(\<And>s t. R s t \<Longrightarrow> f s = f t \<and> Q (f s)) \<Longrightarrow> steady R F Q (gets f)"
  by (fastforce simp: steady_def gets_def frame_refl)

lemma modify: "(\<And>s t. R s t \<Longrightarrow> R (f s) (f t) \<and> F s (f s)) \<Longrightarrow> steady R F any (modify f)"
  by (simp add: steady_def modify_def)

lemma bnd:
  assumes m: "steady R F P m" and k: "\<And>a. P a \<Longrightarrow> steady R F Q (k a)"
  shows "steady R F Q (bnd m k)"
  unfolding steady_def
proof (intro allI impI)
  fix s t assume st: "R s t"
  show "\<exists>r s' t'. bnd m k s = (r, s') \<and> bnd m k t = (r, t') \<and> R s' t' \<and> F s s' \<and>
      (case r of Ok a \<Rightarrow> Q a | Err e \<Rightarrow> True | Fault x \<Rightarrow> False)"
  proof (rule steadyE [OF m st])
    fix r s' t'
    assume r: "m s = (r, s')" "m t = (r, t')" "R s' t'" "F s s'" "\<And>a. r = Ok a \<Longrightarrow> P a" "\<And>x. r \<noteq> Fault x"
    show ?thesis
    proof (cases r)
      case (Ok a)
      show ?thesis
        by (rule steadyE [OF k [OF r(5) [OF Ok]] r(3)])
          (use r(1,2) Ok frame_trans [OF r(4)] in \<open>auto simp: bnd_def split: outcome.splits\<close>)
    qed (use r in \<open>auto simp: bnd_def\<close>)
  qed
qed

lemma bnd_any [steady_rules]:
  "steady R F any m \<Longrightarrow> (\<And>a. steady R F Q (k a)) \<Longrightarrow> steady R F Q (bnd m k)"
  by (rule bnd)

lemma attempt:
  assumes "steady R F P m"
  shows "steady R F (\<lambda>x. case x of Inl e \<Rightarrow> True | Inr a \<Rightarrow> P a) (attempt m)"
  unfolding steady_def
proof (intro allI impI)
  fix s t assume "R s t"
  then show "\<exists>r s' t'. attempt m s = (r, s') \<and> attempt m t = (r, t') \<and> R s' t' \<and> F s s' \<and>
      (case r of Ok x \<Rightarrow> case x of Inl e \<Rightarrow> True | Inr a \<Rightarrow> P a | Err e \<Rightarrow> True | Fault x \<Rightarrow> False)"
    by (rule steadyE [OF assms]) (auto simp: attempt_def split: outcome.splits)
qed

lemma attempt_any [steady_rules]: "steady R F any m \<Longrightarrow> steady R F any (attempt m)"
  by (rule steady_any) (rule attempt)

lemma for_each [steady_rules]:
  "(\<And>x. x \<in> set xs \<Longrightarrow> steady R F any (f x)) \<Longrightarrow> steady R F any (for_each f xs)"
  by (induction xs) (auto intro!: ret bnd_any)

end

text \<open>Restricting the states to those with a property \<open>K\<close> that \<open>F\<close> keeps, for example of one state.\<close>

lemma steady_restrict:
  assumes "steady R F Q m" and "\<And>s s'. F s s' \<Longrightarrow> K s \<Longrightarrow> K s'"
  shows "steady (\<lambda>s t. R s t \<and> K s) F Q m"
  using assms unfolding steady_def by blast

lemma steady_local:
  assumes "\<And>u. steady (\<lambda>s t. R s t \<and> K u s) F Q m" and "\<And>s. K s s"
  shows "steady R F Q m"
  using assms unfolding steady_def by blast

lemma on_fst_gets: "on_fst (gets f) = gets (f \<circ> fst)"
  by (rule ext) (auto simp: on_fst_def zoom_def gets_def)

section \<open>The same disk\<close>

text \<open>
  A state with a valid device, a read cache that is coherent with it, and program caches inside
  their blocks.  Two states have the same disk when their devices have the same contents and
  they agree up to the read cache, the seed and the lookahead buffer.
\<close>

definition files_inside :: "'z lfs_geometry_scheme \<Rightarrow> 'd lfs \<Rightarrow> bool" where
  "files_inside c s \<longleftrightarrow> (\<forall>x \<in> set (lfs_mlist s). ucast (obj_type (lfs_objs s x)) = LFS_TYPE_REG \<longrightarrow>
     cache_inside c (file_cache (lfs_objs s x)))"

definition on_disk ::
  "'z lfs_geometry_scheme \<Rightarrow> ('d \<Rightarrow> u32 \<Rightarrow> u8 list) \<Rightarrow> ('d \<Rightarrow> bool) \<Rightarrow> 'd lfs \<Rightarrow> bool" where
  "on_disk c contents valid s \<longleftrightarrow> valid (lfs_dev s) \<and>
     cache_coherent c (contents (lfs_dev s)) (lfs_rcache s) \<and>
     cache_inside c (lfs_pcache s) \<and> files_inside c s"

definition same_disk ::
  "'z lfs_geometry_scheme \<Rightarrow> ('d \<Rightarrow> u32 \<Rightarrow> u8 list) \<Rightarrow> ('d \<Rightarrow> bool) \<Rightarrow> 'd lfs \<Rightarrow> 'd lfs \<Rightarrow> bool" where
  "same_disk c contents valid s t \<longleftrightarrow> on_disk c contents valid s \<and> on_disk c contents valid t \<and>
     (\<forall>b < cfg_block_count c. contents (lfs_dev s) b = contents (lfs_dev t) b) \<and>
     t = s\<lparr>lfs_rcache := lfs_rcache t, lfs_seed := lfs_seed t, lfs_free := lfs_free t, lfs_dev := lfs_dev t\<rparr>"

lemma same_disk_refl: "on_disk c contents valid s \<Longrightarrow> same_disk c contents valid s s"
  by (simp add: same_disk_def)

lemma same_disk_on: "same_disk c contents valid s t \<Longrightarrow> on_disk c contents valid s"
  by (simp add: same_disk_def)

lemma same_disk_fields:
  assumes "same_disk c contents valid s t"
  shows "lfs_pcache t = lfs_pcache s" "lfs_root t = lfs_root s" "lfs_mlist t = lfs_mlist s"
    "lfs_gstate t = lfs_gstate s" "lfs_gdisk t = lfs_gdisk s" "lfs_gdelta t = lfs_gdelta s"
    "lfs_name_max t = lfs_name_max s" "lfs_file_max t = lfs_file_max s"
    "lfs_attr_max t = lfs_attr_max s" "lfs_objs t = lfs_objs s"
proof -
  obtain r w fr d where "t = s\<lparr>lfs_rcache := r, lfs_seed := w, lfs_free := fr, lfs_dev := d\<rparr>"
    using assms unfolding same_disk_def by blast
  then show "lfs_pcache t = lfs_pcache s" "lfs_root t = lfs_root s" "lfs_mlist t = lfs_mlist s"
    "lfs_gstate t = lfs_gstate s" "lfs_gdisk t = lfs_gdisk s" "lfs_gdelta t = lfs_gdelta s"
    "lfs_name_max t = lfs_name_max s" "lfs_file_max t = lfs_file_max s"
    "lfs_attr_max t = lfs_attr_max s" "lfs_objs t = lfs_objs s"
    by simp_all
qed

lemma same_diskI:
  assumes "on_disk c contents valid s" and "on_disk c contents valid t"
    and "\<And>b. b < cfg_block_count c \<Longrightarrow> contents (lfs_dev s) b = contents (lfs_dev t) b"
    and "lfs_pcache t = lfs_pcache s" "lfs_root t = lfs_root s" "lfs_mlist t = lfs_mlist s"
    "lfs_gstate t = lfs_gstate s" "lfs_gdisk t = lfs_gdisk s" "lfs_gdelta t = lfs_gdelta s"
    "lfs_name_max t = lfs_name_max s" "lfs_file_max t = lfs_file_max s"
    "lfs_attr_max t = lfs_attr_max s" "lfs_objs t = lfs_objs s"
  shows "same_disk c contents valid s t"
  using assms by (simp add: same_disk_def lfs.equality)

lemma same_disk_contents:
  "same_disk c contents valid s t \<Longrightarrow> b < cfg_block_count c \<Longrightarrow>
     contents (lfs_dev t) b = contents (lfs_dev s) b"
  by (simp add: same_disk_def)

lemma same_disk_trans:
  assumes "same_disk c contents valid s t" and "same_disk c contents valid t u"
  shows "same_disk c contents valid s u"
  by (rule same_diskI)
    (use assms same_disk_fields [OF assms(1)] same_disk_fields [OF assms(2)] in \<open>auto simp: same_disk_def\<close>)

lemma same_disk_sym:
  assumes "same_disk c contents valid s t"
  shows "same_disk c contents valid t s"
  by (rule same_diskI) (use assms same_disk_fields [OF assms] in \<open>auto simp: same_disk_def\<close>)

text \<open>For commands with data of their own, the data are the same.\<close>

definition same_data ::
  "'z lfs_geometry_scheme \<Rightarrow> ('d \<Rightarrow> u32 \<Rightarrow> u8 list) \<Rightarrow> ('d \<Rightarrow> bool) \<Rightarrow> 'd lfs \<times> 'x \<Rightarrow> 'd lfs \<times> 'x \<Rightarrow> bool" where
  "same_data c contents valid y z \<longleftrightarrow> same_disk c contents valid (fst y) (fst z) \<and> snd y = snd z"

definition kept_disk ::
  "'z lfs_geometry_scheme \<Rightarrow> ('d \<Rightarrow> u32 \<Rightarrow> u8 list) \<Rightarrow> ('d \<Rightarrow> bool) \<Rightarrow> 'd lfs \<times> 'x \<Rightarrow> 'd lfs \<times> 'x \<Rightarrow> bool" where
  "kept_disk c contents valid y z \<longleftrightarrow> same_disk c contents valid (fst y) (fst z)"

interpretation disk: steady_frame "same_disk c contents valid" "same_disk c contents valid"
  for c :: "'z lfs_geometry_scheme" and contents :: "'d \<Rightarrow> u32 \<Rightarrow> u8 list" and valid
  by unfold_locales (blast intro: same_disk_refl same_disk_on same_disk_trans)+

interpretation data: steady_frame "same_data c contents valid" "kept_disk c contents valid"
  for c :: "'z lfs_geometry_scheme" and contents :: "'d \<Rightarrow> u32 \<Rightarrow> u8 list" and valid
  by unfold_locales
    (auto simp: same_data_def kept_disk_def intro: same_disk_refl same_disk_on same_disk_trans)

text \<open>The same with the list of open objects and the objects of a state \<open>u\<close>.\<close>

definition same_objs :: "'d lfs \<times> 'x \<Rightarrow> 'd lfs \<times> 'x \<Rightarrow> bool" where
  "same_objs u y \<longleftrightarrow> lfs_mlist (fst y) = lfs_mlist (fst u) \<and> lfs_objs (fst y) = lfs_objs (fst u)"

lemma same_objs_kept: "kept_disk c contents valid y z \<Longrightarrow> same_objs u y \<Longrightarrow> same_objs u z"
  by (simp add: kept_disk_def same_objs_def same_disk_fields)

interpretation objs: steady_frame "\<lambda>y z. same_data c contents valid y z \<and> same_objs u y" "kept_disk c contents valid"
  for c :: "'z lfs_geometry_scheme" and contents :: "'d \<Rightarrow> u32 \<Rightarrow> u8 list" and valid
    and u :: "'d lfs \<times> 'x"
  by unfold_locales (auto simp: same_data_def kept_disk_def intro: same_disk_refl same_disk_on same_disk_trans)

lemma steady_on_fst [steady_rules]:
  fixes contents :: "'d \<Rightarrow> u32 \<Rightarrow> u8 list" and m :: "('d lfs, 'a) cmd"
  assumes "steady (same_disk c contents valid) (same_disk c contents valid) Q m"
  shows "steady (same_data c contents valid) (kept_disk c contents valid) Q
    (on_fst m :: ('d lfs \<times> 'x, 'a) cmd)"
  unfolding steady_def
proof (intro allI impI)
  fix y z :: "'d lfs \<times> 'x"
  obtain s x t x' where yz: "y = (s, x)" "z = (t, x')" by fastforce
  assume "same_data c contents valid y z"
  then have st: "same_disk c contents valid s t" and x: "x' = x" by (simp_all add: same_data_def yz)
  show "\<exists>r y' z'. on_fst m y = (r, y') \<and> on_fst m z = (r, z') \<and> same_data c contents valid y' z' \<and>
      kept_disk c contents valid y y' \<and> (case r of Ok a \<Rightarrow> Q a | Err e \<Rightarrow> True | Fault x \<Rightarrow> False)"
  proof (rule steadyE [OF assms st])
    fix r s' t'
    assume r: "m s = (r, s')" "m t = (r, t')" "same_disk c contents valid s' t'"
      "same_disk c contents valid s s'" "\<And>a. r = Ok a \<Longrightarrow> Q a" "\<And>x. r \<noteq> Fault x"
    then have "on_fst m y = (r, (s', x))" "on_fst m z = (r, (t', x))"
      by (simp_all add: yz x on_fst_def zoom_def)
    then show ?thesis
      using r(3-6) by (cases r) (auto simp: yz same_data_def kept_disk_def)
  qed
qed

end
