(* ===== verification/LFS_Reads.thy ===== *)
theory LFS_Reads
  imports LFS_Steady
begin

text \<open>
  The operations that read metadata are steady on every block device: looking up tags, scanning a
  metadata pair, following the list of pairs, traversing the blocks in use.  The contents of the
  disk are arbitrary.
\<close>

abbreviation reads ::
  "'d lfs_config \<Rightarrow> ('d \<Rightarrow> u32 \<Rightarrow> u8 list) \<Rightarrow> ('d \<Rightarrow> bool) \<Rightarrow> ('a \<Rightarrow> bool) \<Rightarrow> ('d lfs, 'a) cmd \<Rightarrow> bool" where
  "reads c contents valid \<equiv> steady (same_disk c contents valid) (same_disk c contents valid)"

abbreviation reads_data ::
  "'d lfs_config \<Rightarrow> ('d \<Rightarrow> u32 \<Rightarrow> u8 list) \<Rightarrow> ('d \<Rightarrow> bool) \<Rightarrow> ('a \<Rightarrow> bool) \<Rightarrow> ('d lfs \<times> 'x, 'a) cmd \<Rightarrow> bool" where
  "reads_data c contents valid \<equiv> steady (same_data c contents valid) (kept_disk c contents valid)"

section \<open>Reads of the device\<close>

lemma same_disk_put:
  assumes "on_disk c contents valid s" and "cache_coherent c (contents (lfs_dev s)) r"
  shows "same_disk c contents valid s (s\<lparr>lfs_rcache := r\<rparr>)"
  using assms by (intro same_diskI) (auto simp: on_disk_def files_inside_def)

lemma same_disk_cong:
  assumes "same_disk c contents valid s t" and "same_disk c contents valid s s'"
    and "same_disk c contents valid t t'"
  shows "same_disk c contents valid s' t'"
  by (blast intro: assms same_disk_sym same_disk_trans)

lemma same_disk_seed:
  assumes "same_disk c contents valid s t"
  shows "same_disk c contents valid (s\<lparr>lfs_seed := w\<rparr>) (t\<lparr>lfs_seed := v\<rparr>)"
    and "same_disk c contents valid s (s\<lparr>lfs_seed := w\<rparr>)"
  by (rule same_diskI; use assms same_disk_fields [OF assms] in
      \<open>auto simp: same_disk_def on_disk_def files_inside_def\<close>)+

context block_device begin

lemma steady_bd_read:
  assumes sz: "0 < unat sz \<Longrightarrow> 0 < unat hint" "unat hint \<le> unat (cfg_block_size c)"
    "unat off + unat sz < 4294967296"
    and p: "\<And>p. pcache = Some p \<Longrightarrow> cache_inside c p"
  shows "reads c contents valid (\<lambda>xs. length xs = unat sz) (on_rcache (lfs_bd_read c pcache hint b off sz))"
  unfolding steady_def
proof (intro allI impI)
  fix s t assume st: "same_disk c contents valid s t"
  then have on: "on_disk c contents valid s" "on_disk c contents valid t"
    by (simp_all add: same_disk_def)
  let ?m = "on_rcache (lfs_bd_read c pcache hint b off sz)"
  have no: "unat (off + sz) = unat off + unat sz" using sz(3) by (rule unat_add_u32)
  show "\<exists>r s' t'. ?m s = (r, s') \<and> ?m t = (r, t') \<and> same_disk c contents valid s' t' \<and>
      same_disk c contents valid s s' \<and> (case r of Ok xs \<Rightarrow> length xs = unat sz | Err e \<Rightarrow> True | Fault x \<Rightarrow> False)"
  proof (cases "cfg_block_count c \<le> b \<or> cfg_block_size c < off + sz")
    case True
    have "?m s = (Err LFS_ERR_CORRUPT, s)" for s
      by (simp add: on_rcache_def zoom_def bd_read_corrupt [OF True])
    then show ?thesis using st on by (auto intro: same_disk_refl)
  next
    case False
    then have b: "b < cfg_block_count c" "unat off + unat sz \<le> unat (cfg_block_size c)"
      using no by (auto simp: u32_simps)
    let ?v = "\<lambda>s. seg (overlay pcache (contents (lfs_dev s)) b) (unat off) (unat sz)"
    have run: "\<exists>r. ?m s = (Ok (?v s), s\<lparr>lfs_rcache := r\<rparr>) \<and> same_disk c contents valid s (s\<lparr>lfs_rcache := r\<rparr>)"
      if "on_disk c contents valid s" for s
    proof -
      have "wp (lfs_bd_read c pcache hint b off sz)
          (okp (\<lambda>xs (r', d'). d' = lfs_dev s \<and> cache_coherent c (contents (lfs_dev s)) r' \<and> xs = ?v s))
          (lfs_rcache s, lfs_dev s)"
        using that b sz(1,2) p by (intro bd_read_ok) (auto simp: on_disk_def)
      from wp_okpD [OF this] obtain r where r: "lfs_bd_read c pcache hint b off sz (lfs_rcache s, lfs_dev s) =
          (Ok (?v s), (r, lfs_dev s))" "cache_coherent c (contents (lfs_dev s)) r" by auto
      then show ?thesis
        using same_disk_put [OF that r(2)] by (auto simp: on_rcache_def zoom_def)
    qed
    have v: "?v t = ?v s"
      using same_disk_contents [OF st b(1)] by (simp only: overlay_def)
    have len: "length (?v s) = unat sz"
      using b length_overlay [where cont = "contents (lfs_dev s)" and pcache = pcache and b = b and c = c] length_contents [of "lfs_dev s" b] on(1) p
        geometry [of "lfs_dev s"]
      by (simp add: on_disk_def)
    from run [OF on(1)] run [OF on(2)] show ?thesis
      using v len same_disk_cong [OF st] by fastforce
  qed
qed

lemma steady_read:
  assumes "0 < unat sz \<Longrightarrow> 0 < unat hint" "unat hint \<le> unat (cfg_block_size c)"
    "unat off + unat sz < 4294967296" "\<And>p. pcache = Some p \<Longrightarrow> cache_inside c p"
  shows "reads c contents valid any (on_rcache (lfs_bd_read c pcache hint b off sz))"
  by (rule steady_any, rule steady_bd_read) (use assms in auto)

end

section \<open>Looking up tags\<close>

text \<open>
  A directory whose log ends in its block, as the scan of a pair leaves it; the blocks are large
  enough for the pointers of a file index.
\<close>

definition log_inside :: "'z lfs_geometry_scheme \<Rightarrow> lfs_mdir \<Rightarrow> bool" where
  "log_inside c dir \<longleftrightarrow> unat (md_off dir) \<le> unat (cfg_block_size c)"

lemma unat_min_u32: "unat (lfs_min a b) = min (unat a) (unat b)"
  by (simp add: lfs_min_def u32_simps min_def)

locale readable_device = block_device +
  assumes room: "valid d \<Longrightarrow> 8 \<le> unat (cfg_block_size c)"
begin

lemma sizes:
  assumes "same_disk c contents valid s t"
  shows "8 \<le> unat (cfg_block_size c)" "unat (cfg_block_size c) < 1073741824"
  using assms room geometry wf_geometryD(9) by (auto simp: same_disk_def on_disk_def)

text \<open>A command is steady if it is when there is a state with a valid device.\<close>

lemma steady_sizes:
  assumes "8 \<le> unat (cfg_block_size c) \<Longrightarrow> unat (cfg_block_size c) < 1073741824 \<Longrightarrow> reads c contents valid Q m"
  shows "reads c contents valid Q m"
  using sizes assms unfolding steady_def by blast

lemma steady_read_u32 [steady_rules]:
  "unat off + 4 < 4294967296 \<Longrightarrow> reads c contents valid any (read_u32 c 4 b off)"
  unfolding read_u32_def by (rule steady_sizes) (intro steady_rules steady_read, auto)

lemma steady_stag_ret [steady_rules]: "reads c contents valid any (stag_ret t)"
  unfolding stag_ret_def by (intro steady_rules) simp

lemma steady_getslice_loop:
  assumes "8 \<le> unat (cfg_block_size c)" "unat (cfg_block_size c) < 1073741824"
  shows "unat off \<le> unat (cfg_block_size c) \<Longrightarrow> unat off < n \<Longrightarrow>
    reads c contents valid any (getslice_loop c dir gmask gtag 0 gsize n off ntag gdiff)"
proof (induction n arbitrary: off ntag gdiff)
  case (Suc n)
  note d = lfs_tag_dsize_bounds [of ntag]
  show ?case
  proof (cases "4 + lfs_tag_dsize ntag \<le> off")
    case True
    then have le: "4 + unat (lfs_tag_dsize ntag) \<le> unat off"
      using d by (simp add: u32_simps unat_add_u32)
    then have off': "unat (off - lfs_tag_dsize ntag) = unat off - unat (lfs_tag_dsize ntag)"
      by (intro unat_sub_u32) simp
    have dsz: "unat (lfs_tag_dsize ntag) = 4 + unat (lfs_tag_size ntag)" if "\<not> lfs_tag_isdelete ntag"
      using that lfs_tag_size_bound [of ntag] by (simp add: lfs_tag_dsize_def unat_add_u32)
    have "unat (off - lfs_tag_dsize ntag + 4 + 0) = unat off - unat (lfs_tag_dsize ntag) + 4"
      using off' le assms Suc.prems by (simp add: unat_add_u32)
    then have match: "reads c contents valid any (getslice_match c dir gmask gtag 0 gsize
        (off - lfs_tag_dsize ntag) ntag gdiff' k)"
      if "reads c contents valid any k" for k gdiff'
      unfolding getslice_match_def Let_def
      by (intro steady_rules steady_read that)
        (use dsz le assms Suc.prems in \<open>auto simp: unat_min_u32\<close>)
    have "reads c contents valid any (getslice_loop c dir gmask gtag 0 gsize n
        (off - lfs_tag_dsize ntag) ntag' gdiff')" for ntag' gdiff'
      by (rule Suc.IH) (use off' le d Suc.prems in auto)
    then show ?thesis
      unfolding getslice_loop.simps Let_def
      by (intro steady_rules match) (use True off' le assms Suc.prems in auto)
  qed (simp add: steady_rules)
qed simp

lemma steady_dir_get [steady_rules]:
  assumes "log_inside c dir"
  shows "reads c contents valid any (lfs_dir_get c dir gmask gtag)"
  unfolding lfs_dir_get_def lfs_dir_getslice_def Let_def
  by (rule steady_sizes, intro steady_rules disk.gets conjI steady_getslice_loop)
    (use assms in \<open>auto simp: log_inside_def same_disk_fields\<close>)

end

section \<open>Scanning a pair\<close>

lemma lfs_tag_dsize_cong: "lfs_tag_size a = lfs_tag_size b \<Longrightarrow> lfs_tag_dsize a = lfs_tag_dsize b"
  using lfs_tag_dsize_delete [of a] lfs_tag_dsize_delete [of b]
  by (cases "lfs_tag_isdelete a") (simp_all add: lfs_tag_dsize_def lfs_tag_isdelete_iff)

lemma lfs_tag_dsize_flip: "lfs_tag_dsize (tag XOR push_bit 31 w) = lfs_tag_dsize tag"
proof (rule lfs_tag_dsize_cong)
  have "take_bit 10 (push_bit 31 w) = (0 :: u32)" by (simp add: take_bit_push_bit)
  then show "lfs_tag_size (tag XOR push_bit 31 w) = lfs_tag_size tag"
    by (simp add: lfs_tag_size_take take_bit_xor)
qed

lemma lfs_tag_dsize_flip_bit: "lfs_tag_dsize (tag XOR push_bit 31 w AND 2147483648) = lfs_tag_dsize tag"
  using lfs_tag_dsize_flip [of tag "w AND 1"] by (simp add: push_bit_and)

text \<open>A part of the scan that stays at its tag, and one that ends the turn at the tag.\<close>

definition at_tag :: "fetch_state \<Rightarrow> fetch_state \<Rightarrow> bool" where
  "at_tag st st' \<longleftrightarrow> fs_off st' = fs_off st \<and> fs_ptag st' = fs_ptag st \<and>
     md_off (fs_dir st') = md_off (fs_dir st)"

definition scan_post :: "'z lfs_geometry_scheme \<Rightarrow> u32 \<Rightarrow> fetch_state \<times> fetch_next \<Rightarrow> bool" where
  "scan_post c off x \<longleftrightarrow> log_inside c (fs_dir (fst x)) \<and>
     (snd x = Fetch_Next \<longrightarrow> fs_off (fst x) = off \<and>
        unat off + unat (lfs_tag_dsize (fs_ptag (fst x))) \<le> unat (cfg_block_size c))"

definition scan_at :: "'z lfs_geometry_scheme \<Rightarrow> u32 \<Rightarrow> fetch_state \<Rightarrow> bool" where
  "scan_at c tag st \<longleftrightarrow> log_inside c (fs_dir st) \<and> fs_ptag st = tag \<and>
     unat (fs_off st) + unat (lfs_tag_dsize tag) \<le> unat (cfg_block_size c)"

lemma scan_at_tag: "scan_at c tag st \<Longrightarrow> at_tag st st' \<Longrightarrow> scan_at c tag st'"
  by (simp add: scan_at_def at_tag_def log_inside_def)

lemma scan_at_post: "scan_at c tag st \<Longrightarrow> scan_post c (fs_off st) (st, nx)"
  by (simp add: scan_at_def scan_post_def)

lemma scan_post_break:
  "log_inside c (fs_dir st) \<Longrightarrow> nx \<noteq> Fetch_Next \<Longrightarrow>
     scan_post c off (st\<lparr>fs_dir := (fs_dir st)\<lparr>md_erased := e\<rparr>\<rparr>, nx)"
  by (simp add: scan_post_def log_inside_def)

lemma scan_post_error: "log_inside c (fs_dir st) \<Longrightarrow> scan_post c off (fetch_error st e)"
  by (simp add: fetch_error_def scan_post_def log_inside_def)

text \<open>What the callback of a scan is called with.\<close>

definition cb_reads ::
  "'d lfs_config \<Rightarrow> ('d \<Rightarrow> u32 \<Rightarrow> u8 list) \<Rightarrow> ('d \<Rightarrow> bool) \<Rightarrow> u32 \<Rightarrow> u32 \<Rightarrow> 'd fetch_cb \<Rightarrow> bool" where
  "cb_reads c contents valid fmask ftag cb \<longleftrightarrow> (\<forall>tag b off.
     lfs_tag_isvalid tag \<longrightarrow> fmask AND tag = fmask AND ftag \<longrightarrow>
     unat off \<le> unat (cfg_block_size c) \<longrightarrow> reads c contents valid any (cb tag b off))"

context readable_device begin

lemma steady_fetch_try:
  assumes "reads c contents valid any m" and "\<And>a. reads c contents valid Q (k a)"
    and "\<And>e. Q (fetch_error st e)"
  shows "reads c contents valid Q (fetch_try st m k)"
  unfolding fetch_try_def by (intro steady_rules assms)

lemma steady_fetch_read:
  assumes "unat sz \<le> 8" and "unat off \<le> unat (cfg_block_size c) + 8"
  shows "reads c contents valid any (fetch_read c st off sz)"
  unfolding fetch_read_def by (rule steady_sizes, rule steady_read) (use assms in auto)

lemma steady_fetch_crc:
  assumes st: "scan_at c tag st"
  shows "reads c contents valid (scan_post c (fs_off st)) (fetch_crc c tag st)"
proof (rule steady_sizes)
  assume bs: "8 \<le> unat (cfg_block_size c)" "unat (cfg_block_size c) < 1073741824"
  have off: "unat (fs_off st) + 4 \<le> unat (cfg_block_size c)"
    using st lfs_tag_dsize_bounds(1) [of tag] by (simp add: scan_at_def)
  then have off4: "unat (fs_off st + 4) = unat (fs_off st) + 4"
    using bs by (simp add: unat_add_u32)
  have add: "unat (fs_off st + lfs_tag_dsize tag) = unat (fs_off st) + unat (lfs_tag_dsize tag)"
    using st bs by (intro unat_add_u32) (simp add: scan_at_def)
  show ?thesis
    unfolding fetch_crc_def Let_def
    by (intro steady_fetch_try steady_fetch_read steady_rules disk.modify conjI scan_post_break scan_post_error
        same_disk_seed)
      (use st off off4 bs add in \<open>auto simp: scan_at_def scan_post_def log_inside_def lfs_tag_dsize_flip_bit\<close>)
qed

lemma steady_fetch_entry_crc:
  assumes bs: "unat (cfg_block_size c) < 1073741824" and at: "scan_at c tag st"
  shows "at_tag st st' \<Longrightarrow> unat j \<le> unat (lfs_tag_dsize tag) \<Longrightarrow> unat (lfs_tag_dsize tag) < n + unat j \<Longrightarrow>
    reads c contents valid (\<lambda>(st'', nx). at_tag st st'' \<and> nx \<noteq> Fetch_Break)
      (fetch_entry_crc c (lfs_tag_dsize tag) n j st')"
proof (induction n arbitrary: j st')
  case (Suc n)
  show ?case
  proof (cases "j < lfs_tag_dsize tag")
    case True
    note off = at [unfolded scan_at_def]
    have "unat (fs_off st' + j) \<le> unat (cfg_block_size c) + 8"
      using True Suc.prems(1) off bs by (simp add: at_tag_def u32_simps unat_add_u32)
    moreover have "unat (j + 1) = unat j + 1"
      using True lfs_tag_dsize_bounds(2) [of tag] unat_add_u32 [of j 1] by (simp add: u32_simps)
    ultimately show ?thesis
      unfolding fetch_entry_crc.simps
      by (intro steady_rules steady_fetch_read Suc.IH) (use Suc.prems True in \<open>auto simp: at_tag_def u32_simps\<close>)
  qed (use Suc.prems in \<open>auto simp: steady_rules\<close>)
qed simp

lemma steady_fetch_match:
  assumes bs: "unat (cfg_block_size c) < 1073741824" and at: "scan_at c tag st"
    and v: "lfs_tag_isvalid tag" and cb: "cb_reads c contents valid fmask ftag cb"
  shows "reads c contents valid (scan_post c (fs_off st)) (fetch_match c fmask ftag cb tag st)"
proof -
  have off: "unat (fs_off st) + 4 \<le> unat (cfg_block_size c)"
    using at lfs_tag_dsize_bounds(1) [of tag] by (simp add: scan_at_def)
  have "at_tag st (fetch_verdict tag res st)" for res
    by (simp add: fetch_verdict_def at_tag_def Let_def)
  then have "scan_post c (fs_off st) (fetch_verdict tag res st, Fetch_Next)" for res
    using scan_at_post [OF scan_at_tag [OF at]] by (metis at_tag_def)
  moreover have "unat (fs_off st + 4) \<le> unat (cfg_block_size c)"
    using off bs by (simp add: unat_add_u32)
  ultimately show ?thesis
    unfolding fetch_match_def
    by (intro steady_rules steady_fetch_try) (use at v cb in \<open>auto simp: cb_reads_def scan_at_def
      intro: scan_post_error scan_at_post\<close>)
qed

lemma steady_fetch_modify:
  assumes bs: "unat (cfg_block_size c) < 1073741824" and at: "scan_at c tag st"
    and k: "\<And>st'. at_tag st st' \<Longrightarrow> reads c contents valid (scan_post c (fs_off st)) (k st')"
  shows "reads c contents valid (scan_post c (fs_off st)) (fetch_modify c tag st k)"
proof -
  have off: "unat (fs_off st + 4) \<le> unat (cfg_block_size c) + 8"
    using at bs by (simp add: scan_at_def unat_add_u32)
  show ?thesis
    unfolding fetch_modify_def Let_def
    by (intro steady_rules steady_fetch_try steady_fetch_read k scan_post_error)
      (use at off in \<open>auto simp: at_tag_def fetch_splice_def Let_def scan_at_def log_inside_def\<close>)
qed

lemma steady_fetch_entry:
  assumes bs: "unat (cfg_block_size c) < 1073741824" and at: "scan_at c tag st"
    and v: "lfs_tag_isvalid tag" and cb: "cb_reads c contents valid fmask ftag cb"
  shows "reads c contents valid (scan_post c (fs_off st)) (fetch_entry c fmask ftag cb tag st)"
  unfolding fetch_entry_def
proof (rule disk.bnd [OF steady_fetch_entry_crc [OF bs at]])
  fix x :: "fetch_state \<times> fetch_next"
  obtain st' nx where x: "x = (st', nx)" by fastforce
  assume "case x of (st'', nx) \<Rightarrow> at_tag st st'' \<and> nx \<noteq> Fetch_Break"
  then have st': "at_tag st st'" "nx \<noteq> Fetch_Break" by (simp_all add: x)
  note at' = scan_at_tag [OF at st'(1)]
  have "reads c contents valid (scan_post c (fs_off st')) (fetch_modify c tag st' (fetch_match c fmask ftag cb tag))"
  proof (rule steady_fetch_modify [OF bs at'])
    fix st2 assume s: "at_tag st' st2"
    then have "fs_off st2 = fs_off st'" by (simp add: at_tag_def)
    then show "reads c contents valid (scan_post c (fs_off st')) (fetch_match c fmask ftag cb tag st2)"
      using steady_fetch_match [OF bs scan_at_tag [OF at' s] v cb] by simp
  qed
  moreover have "fs_off st' = fs_off st" using st'(1) by (simp add: at_tag_def)
  ultimately have "reads c contents valid (scan_post c (fs_off st))
      (fetch_modify c tag st' (fetch_match c fmask ftag cb tag))" by simp
  then show "reads c contents valid (scan_post c (fs_off st)) (case x of (st', nx) \<Rightarrow>
      if nx \<noteq> Fetch_Next then ret (st', nx) else fetch_modify c tag st' (fetch_match c fmask ftag cb tag))"
    using at' by (auto simp: x scan_post_def scan_at_def intro: steady_rules)
next
  show "at_tag st st" by (simp add: at_tag_def)
  show "unat (4 :: u32) \<le> unat (lfs_tag_dsize tag)" using lfs_tag_dsize_bounds(1) [of tag] by simp
  show "unat (lfs_tag_dsize tag) < unat (lfs_tag_dsize tag) + unat (4 :: u32)" by simp
qed

lemma steady_fetch_step:
  assumes bs: "8 \<le> unat (cfg_block_size c)" "unat (cfg_block_size c) < 1073741824"
    and cb: "cb_reads c contents valid fmask ftag cb" and dir: "log_inside c (fs_dir st)"
    and off: "unat (fs_off st) + unat (lfs_tag_dsize (fs_ptag st)) \<le> unat (cfg_block_size c)"
  shows "reads c contents valid (scan_post c (fs_off st + lfs_tag_dsize (fs_ptag st))) (fetch_step c fmask ftag cb st)"
proof -
  let ?off = "fs_off st + lfs_tag_dsize (fs_ptag st)"
  have o: "unat ?off \<le> unat (cfg_block_size c)"
    using off bs by (simp add: unat_add_u32)
  have fits: "unat ?off + unat (lfs_tag_dsize tag) \<le> unat (cfg_block_size c)"
    if "\<not> cfg_block_size c < ?off + lfs_tag_dsize tag" for tag
    using that o bs lfs_tag_dsize_bounds(2) [of tag] by (simp add: u32_simps unat_add_u32)
  show ?thesis
    unfolding fetch_step_def Let_def
    apply (intro steady_fetch_try steady_fetch_read steady_rules)
    subgoal by simp
    subgoal using o by simp
    subgoal using dir by (simp add: scan_post_def log_inside_def)
    subgoal using dir by (simp add: scan_post_def log_inside_def)
    subgoal for bs
      using steady_fetch_crc [of "lfs_frombe32 (u32_of_bytes bs) XOR fs_ptag st"
          "st\<lparr>fs_off := ?off, fs_crc := lfs_crc (fs_crc st) bs, fs_ptag := lfs_frombe32 (u32_of_bytes bs) XOR fs_ptag st\<rparr>"]
        dir fits by (simp add: scan_at_def)
    subgoal for bs
      using steady_fetch_entry [OF \<open>unat (cfg_block_size c) < 1073741824\<close>,
          of "lfs_frombe32 (u32_of_bytes bs) XOR fs_ptag st"
          "st\<lparr>fs_off := ?off, fs_crc := lfs_crc (fs_crc st) bs, fs_ptag := lfs_frombe32 (u32_of_bytes bs) XOR fs_ptag st\<rparr>"]
        dir fits cb by (simp add: scan_at_def)
    subgoal using dir by (intro scan_post_error) simp
    done
qed

text \<open>Every turn moves on by a tag, and the tags are inside the block.\<close>

lemma steady_fetch_loop:
  assumes bs: "8 \<le> unat (cfg_block_size c)" "unat (cfg_block_size c) < 1073741824"
    and cb: "cb_reads c contents valid fmask ftag cb"
  shows "log_inside c (fs_dir st) \<Longrightarrow>
    unat (fs_off st) + unat (lfs_tag_dsize (fs_ptag st)) \<le> unat (cfg_block_size c) \<Longrightarrow>
    unat (cfg_block_size c) < unat (fs_off st) + n \<Longrightarrow>
    reads c contents valid (\<lambda>x. log_inside c (fs_dir (fst x))) (fetch_loop c fmask ftag cb n st)"
proof (induction n arbitrary: st)
  case (Suc n)
  note d = lfs_tag_dsize_bounds(1) [of "fs_ptag st"]
  have o: "unat (fs_off st + lfs_tag_dsize (fs_ptag st)) = unat (fs_off st) + unat (lfs_tag_dsize (fs_ptag st))"
    using Suc.prems(2) bs by (intro unat_add_u32) simp
  show ?case
    unfolding fetch_loop.simps
  proof (rule disk.bnd [OF steady_fetch_step [OF bs cb Suc.prems(1,2)]])
    fix x :: "fetch_state \<times> fetch_next"
    obtain st' nx where x: "x = (st', nx)" by fastforce
    assume "scan_post c (fs_off st + lfs_tag_dsize (fs_ptag st)) x"
    then have l: "log_inside c (fs_dir st')" and n: "nx = Fetch_Next \<Longrightarrow>
        reads c contents valid (\<lambda>x. log_inside c (fs_dir (fst x))) (fetch_loop c fmask ftag cb n st')"
      using o d Suc.prems(3) by (auto simp: scan_post_def x intro!: Suc.IH)
    show "reads c contents valid (\<lambda>x. log_inside c (fs_dir (fst x)))
        (case x of (st', nx) \<Rightarrow> case nx of Fetch_Next \<Rightarrow> fetch_loop c fmask ftag cb n st'
         | Fetch_Break \<Rightarrow> ret (st', None) | Fetch_Fail e \<Rightarrow> ret (st', Some e))"
      using l n by (cases nx) (auto simp: x intro: disk.ret)
  qed
qed simp

lemma steady_fetch_passes:
  assumes bs: "8 \<le> unat (cfg_block_size c)" "unat (cfg_block_size c) < 1073741824"
    and cb: "cb_reads c contents valid fmask ftag cb"
  shows "log_inside c dir \<Longrightarrow>
    reads c contents valid (\<lambda>x. log_inside c (fst x)) (fetch_passes c fmask ftag cb orev i dir best)"
proof (induction i arbitrary: dir best)
  case 0
  then show ?case by (auto intro: disk.ret)
next
  case (Suc i)
  have start: "unat (fs_off (fetch_start dir best)) + unat (lfs_tag_dsize (fs_ptag (fetch_start dir best))) \<le>
      unat (cfg_block_size c)"
    using bs by (simp add: fetch_start_def lfs_tag_dsize_delete lfs_tag_isdelete_iff lfs_tag_size_take)
  show ?case
    unfolding fetch_passes.simps
  proof (rule disk.bnd [OF steady_fetch_loop [OF bs cb _ start]])
    fix x :: "fetch_state \<times> lfs_error option"
    obtain st e where x: "x = (st, e)" by fastforce
    assume "log_inside c (fs_dir (fst x))"
    then have l: "log_inside c (fs_dir st)" by (simp add: x)
    then have "log_inside c ((fs_dir st)\<lparr>md_pair := lfs_pair_swap (md_pair (fs_dir st)), md_rev := orev\<rparr>)"
      by (simp add: log_inside_def)
    note again = Suc.IH [OF this]
    show "reads c contents valid (\<lambda>x. log_inside c (fst x)) (case x of (st, e) \<Rightarrow> case e of
        None \<Rightarrow> if 0 < md_off (fs_dir st) then
             bnd (gets lfs_gdisk) (\<lambda>gdisk. let (i, res) = fetch_result gdisk st in ret (fs_dir st, Some i, res))
           else fetch_passes c fmask ftag cb orev i
             ((fs_dir st)\<lparr>md_pair := lfs_pair_swap (md_pair (fs_dir st)), md_rev := orev\<rparr>) (fs_best st)
      | Some err \<Rightarrow> ret (fs_dir st, None, Inl err))"
      using l again by (cases e) (auto simp: x same_disk_fields split: prod.split intro!: steady_rules disk.gets)
  qed (use Suc.prems in \<open>simp_all add: fetch_start_def\<close>)
qed

lemma steady_fetch_rev: "reads c contents valid any (fetch_rev c block)"
  unfolding fetch_rev_def by (intro steady_rules) simp_all

lemma steady_fetchmatch:
  assumes cb: "cb_reads c contents valid fmask ftag cb" and "log_inside c dir"
  shows "reads c contents valid (\<lambda>x. log_inside c (fst x)) (lfs_dir_fetchmatch c dir pair fmask ftag cb)"
  unfolding lfs_dir_fetchmatch_def Let_def
  by (rule steady_sizes, intro steady_rules steady_fetch_rev steady_fetch_passes cb)
    (use assms(2) in \<open>auto simp: log_inside_def\<close>)

lemma steady_fetch:
  assumes "log_inside c dir"
  shows "reads c contents valid (\<lambda>x. log_inside c (fst x)) (lfs_dir_fetch c dir pair)"
proof -
  have cb: "cb_reads c contents valid (- 1) (- 1) null_cb"
    by (simp add: cb_reads_def lfs_tag_isvalid_def)
  show ?thesis
    unfolding lfs_dir_fetch_def
    by (rule disk.bnd [OF steady_fetchmatch [OF cb assms]]) (auto intro: disk.ret)
qed

lemma steady_getgstate:
  "log_inside c dir \<Longrightarrow> reads c contents valid any (lfs_dir_getgstate c dir g)"
  unfolding lfs_dir_getgstate_def by (intro steady_rules) simp_all

end

section \<open>The list of metadata pairs and the blocks in use\<close>

lemma log_inside_zero [simp]: "log_inside c (mdir_zero\<lparr>md_tail := p\<rparr>)" "log_inside c mdir_zero"
  by (simp_all add: log_inside_def mdir_zero_def)

lemma log_inside_tail [simp]: "log_inside c (dir\<lparr>md_tail := p\<rparr>) = log_inside c dir"
  by (simp add: log_inside_def)

text \<open>A callback that works on any block address.\<close>

definition cb_steady ::
  "'d lfs_config \<Rightarrow> ('d \<Rightarrow> u32 \<Rightarrow> u8 list) \<Rightarrow> ('d \<Rightarrow> bool) \<Rightarrow> (u32 \<Rightarrow> ('d lfs \<times> 'x, unit) cmd) \<Rightarrow> bool" where
  "cb_steady c contents valid cb \<longleftrightarrow> (\<forall>b. reads_data c contents valid any (cb b))"

text \<open>The fuel of a walk along the list of pairs: half as many turns as there are blocks are left.\<close>

definition chain_fuel :: "'z lfs_geometry_scheme \<Rightarrow> nat \<Rightarrow> u32 \<Rightarrow> bool" where
  "chain_fuel c n cycle \<longleftrightarrow> unat (cfg_block_count c) div 2 < n + unat cycle \<and> 0 < n"

lemma chain_fuel_0: "chain_fuel c (unat (cfg_block_count c div 2) + 2) 0"
  by (simp add: chain_fuel_def u32_simps)

lemma chain_fuel_Suc:
  assumes "chain_fuel c (Suc n) cycle" and "\<not> cfg_block_count c div 2 \<le> cycle"
  shows "chain_fuel c n (cycle + 1)"
proof -
  have "unat cycle < unat (cfg_block_count c) div 2" using assms(2) by (simp add: u32_simps)
  moreover from this have "unat cycle < 4294967295" using unat_less_u32 [of "cfg_block_count c"] by linarith
  then have "unat (cycle + 1) = unat cycle + 1" using unat_add_u32 [of cycle 1] by simp
  ultimately show ?thesis using assms(1) by (simp add: chain_fuel_def)
qed

context readable_device begin

lemma steady_ctz_traverse_loop:
  assumes cb: "cb_steady c contents valid cb" and p: "\<And>p. pcache = Some p \<Longrightarrow> cache_inside c p"
    and bs: "8 \<le> unat (cfg_block_size c)" "unat (cfg_block_size c) < 1073741824"
  shows "unat index < n \<Longrightarrow> reads_data c contents valid any (ctz_traverse_loop c pcache cb n index head)"
proof (induction n arbitrary: index head)
  case (Suc n)
  have odd: "index AND 1 = 0 \<or> index AND 1 = 1"
    by (simp add: and_one_eq mod2_eq_if)
  show ?case
  proof (cases "index = 0")
    case False
    then have "unat (2 - (index AND 1)) \<le> unat index \<and> 0 < unat (2 - (index AND 1)) \<and> unat (2 - (index AND 1)) \<le> 2"
      using odd
    proof (elim disjE)
      assume e: "index AND 1 = 0"
      then have "index \<noteq> 1" by auto
      then have "unat index \<noteq> 1" by (metis of_nat_1 u32_of_nat_unat)
      moreover have "unat index \<noteq> 0" using False by (simp add: unat_eq_0)
      ultimately have "2 \<le> unat index" by linarith
      then show ?thesis using e by simp
    next
      assume "index AND 1 = 1"
      then show ?thesis using False by (simp add: unat_gt_0 Suc_le_eq)
    qed
    moreover from this have "unat (index - (2 - (index AND 1))) = unat index - unat (2 - (index AND 1))"
      by (intro unat_sub_u32) simp
    moreover from calculation have "unat (index - (2 - (index AND 1))) < n"
      using Suc.prems by arith
    moreover have "0 < unat ((2 - (index AND 1)) * 4) \<and> unat ((2 - (index AND 1)) * 4) \<le> 8"
      using odd by (elim disjE) simp_all
    ultimately show ?thesis
      unfolding ctz_traverse_loop.simps Let_def
      by (intro steady_rules steady_read p Suc.IH)
        (use False cb bs in \<open>auto simp: cb_steady_def\<close>)
  qed (use cb in \<open>auto simp: cb_steady_def intro!: steady_rules\<close>)
qed simp

lemma steady_ctz_traverse:
  assumes "cb_steady c contents valid cb" and "\<And>p. pcache = Some p \<Longrightarrow> cache_inside c p"
    and "8 \<le> unat (cfg_block_size c)" "unat (cfg_block_size c) < 1073741824"
  shows "reads_data c contents valid any (lfs_ctz_traverse c pcache head sz cb)"
  unfolding lfs_ctz_traverse_def Let_def
  by (intro steady_rules steady_ctz_traverse_loop assms) simp_all

lemma steady_rawtraverse_chain:
  assumes cb: "cb_steady c contents valid cb"
    and bs: "8 \<le> unat (cfg_block_size c)" "unat (cfg_block_size c) < 1073741824"
  shows "chain_fuel c n cycle \<Longrightarrow> log_inside c dir \<Longrightarrow>
    reads_data c contents valid any (rawtraverse_chain c cb orphans n cycle dir)"
proof (induction n arbitrary: cycle dir)
  case (Suc n)
  have entry: "reads_data c contents valid any (rawtraverse_entry c cb orphans dir' i)" if "log_inside c dir'" for dir' i
    unfolding rawtraverse_entry_def Let_def
    by (intro steady_rules steady_ctz_traverse cb bs that) (use cb in \<open>auto simp: cb_steady_def\<close>)
  have rest: "reads_data c contents valid any (case x of (dir', e) \<Rightarrow> case e of Some err \<Rightarrow> throw err
      | None \<Rightarrow> bnd (for_each (rawtraverse_entry c cb orphans dir') (mdir_ids dir')) (\<lambda>_.
          rawtraverse_chain c cb orphans n (cycle + 1) dir'))"
    if "log_inside c (fst x)" and "\<not> cfg_block_count c div 2 \<le> cycle" for x
    using that chain_fuel_Suc [OF Suc.prems(1) that(2)]
    by (cases x) (auto intro!: steady_rules entry Suc.IH)
  show ?case
    unfolding rawtraverse_chain.simps
    by (intro steady_rules data.bnd [OF steady_on_fst [OF steady_fetch [OF Suc.prems(2)]]] rest)
      (use cb in \<open>auto simp: cb_steady_def\<close>)
qed (simp add: chain_fuel_def)

text \<open>The traversal of a state with a valid device, also over the files that are open.\<close>

lemma steady_rawtraverse:
  fixes cb :: "u32 \<Rightarrow> ('a lfs \<times> 'x, unit) cmd"
  assumes cb: "cb_steady c contents valid cb"
  shows "reads_data c contents valid any (lfs_fs_rawtraverse c cb orphans)"
proof -
  let ?R = "\<lambda>u s t. same_data c contents valid s t \<and> same_objs u s" and ?F = "kept_disk c contents valid"
  note restrict = steady_restrict [OF _ same_objs_kept]
  have opened: "steady (?R u) ?F any (rawtraverse_file c cb x)"
    if x: "x \<in> set (lfs_mlist (fst u))" and bs: "8 \<le> unat (cfg_block_size c)" "unat (cfg_block_size c) < 1073741824"
    for u :: "'a lfs \<times> 'x" and x
  proof -
    have g: "steady (?R u) ?F (\<lambda>f. ucast (obj_type f) = LFS_TYPE_REG \<longrightarrow> cache_inside c (file_cache f))
        (on_fst (get_obj x) :: ('a lfs \<times> 'x, lfs_object) cmd)"
      unfolding get_obj_def on_fst_gets
    proof (rule objs.gets)
      fix s t :: "'a lfs \<times> 'x" assume "?R u s t"
      then have d: "same_disk c contents valid (fst s) (fst t)" and o: "same_objs u s"
        by (simp_all add: same_data_def)
      have "x \<in> set (lfs_mlist (fst s))" using o x by (simp add: same_objs_def)
      then show "((\<lambda>s. lfs_objs s x) \<circ> fst) s = ((\<lambda>s. lfs_objs s x) \<circ> fst) t \<and>
          (ucast (obj_type (((\<lambda>s. lfs_objs s x) \<circ> fst) s)) = LFS_TYPE_REG \<longrightarrow>
           cache_inside c (file_cache (((\<lambda>s. lfs_objs s x) \<circ> fst) s)))"
        using same_disk_fields(10) [OF d] same_disk_on [OF d] by (simp add: on_disk_def files_inside_def)
    qed
    have t: "steady (?R u) ?F any (lfs_ctz_traverse c (Some p) head sz cb)" if "cache_inside c p" for p head sz
      by (rule restrict, rule steady_ctz_traverse) (use cb bs that in auto)
    show ?thesis
      unfolding rawtraverse_file_def by (rule objs.bnd [OF g]) (auto intro!: steady_rules t)
  qed
  have "steady (?R u) ?F any (lfs_fs_rawtraverse c cb orphans)"
    if bs: "8 \<le> unat (cfg_block_size c)" "unat (cfg_block_size c) < 1073741824" for u :: "'a lfs \<times> 'x"
  proof -
    have g: "steady (?R u) ?F (\<lambda>ml. ml = lfs_mlist (fst u)) (on_fst (gets lfs_mlist) :: ('a lfs \<times> 'x, obj_ref list) cmd)"
      unfolding on_fst_gets
      by (rule objs.gets) (auto simp: same_data_def same_objs_def same_disk_fields)
    have "steady (?R u) ?F any (bnd (on_fst (gets lfs_mlist)) (for_each (rawtraverse_file c cb)))"
      by (rule objs.bnd [OF g]) (auto intro: objs.for_each opened bs)
    moreover have "steady (?R u) ?F any (rawtraverse_chain c cb orphans (unat (cfg_block_count c div 2) + 2) 0
        (mdir_zero\<lparr>md_tail := (0, 1)\<rparr>))"
      by (intro restrict steady_rawtraverse_chain cb bs chain_fuel_0 log_inside_zero)
    ultimately show ?thesis unfolding lfs_fs_rawtraverse_def by - (rule objs.bnd_any; assumption)
  qed
  note all = this
  show ?thesis
  proof (rule steady_local [where K = same_objs])
    fix u :: "'a lfs \<times> 'x"
    show "steady (?R u) ?F any (lfs_fs_rawtraverse c cb orphans)"
      unfolding steady_def
    proof (intro allI impI)
      fix s t assume st: "?R u s t"
      then have "same_disk c contents valid (fst s) (fst t)" by (simp add: same_data_def)
      from all [OF sizes [OF this]] st show "\<exists>r s' t'. lfs_fs_rawtraverse c cb orphans s = (r, s') \<and>
          lfs_fs_rawtraverse c cb orphans t = (r, t') \<and> ?R u s' t' \<and> ?F s s' \<and>
          (case r of Ok a \<Rightarrow> any a | Err e \<Rightarrow> True | Fault x \<Rightarrow> False)"
        unfolding steady_def by blast
    qed
  qed (simp add: same_objs_def)
qed

end

section \<open>The RAM device\<close>

lemma block_device_restrict: "block_device c k e v \<Longrightarrow> block_device c k e (\<lambda>d. v d \<and> P)"
  by (cases P) (simp_all add: block_device_def)

definition rambd_usable :: "lfs_geometry \<Rightarrow> lfs_rambd \<Rightarrow> bool" where
  "rambd_usable g d \<longleftrightarrow> rambd_valid g d \<and> 8 \<le> unat (cfg_block_size g)"

interpretation rambd_read: readable_device "rambd_config g" "rambd_contents g" "rambd_erased g" "rambd_usable g" for g
proof (rule readable_device.intro)
  show "block_device (rambd_config g) (rambd_contents g) (rambd_erased g) (rambd_usable g)"
    unfolding rambd_usable_def by (rule block_device_restrict) (rule rambd.block_device_axioms)
qed (unfold_locales, simp add: rambd_usable_def)

end
