(* ===== verification/LFS_Traverse.thy ===== *)
theory LFS_Traverse
  imports LFS_Mdir
begin

text \<open>
  The traversal of a metadata log and of the attributes that are about to be added to it,
  \<^verbatim>\<open>lfs_dir_traverse\<close> of \<^verbatim>\<open>src/src/lfs/lfs.c\<close>.  The C function simulates its recursion with an
  array of frames; the model is the machine that it is, with one step per turn of its loop and
  per arrival at the label \<^verbatim>\<open>popped\<close>.
\<close>

section \<open>Attributes\<close>

text \<open>
  What the \<^verbatim>\<open>const void *buffer\<close> of an attribute points to, which depends on the tag: bytes in
  memory, a place on disk, a directory to move from, or attributes of a file configuration.
\<close>

datatype mattr_buffer =
    Buf_Null | Buf_Mem "u8 list" | Buf_Disk u32 u32 | Buf_Mdir lfs_mdir | Buf_Attrs "(u8 \<times> u8 list) list"

record lfs_mattr =
  mattr_tag :: u32
  mattr_buffer :: mattr_buffer

type_synonym ('d, 'x) tag_cb = "u32 \<Rightarrow> mattr_buffer \<Rightarrow> ('d lfs \<times> 'x, bool) cmd"

section \<open>The filter\<close>

text \<open>The filter updates a tag by a later one, and says whether the later one makes it redundant.\<close>

definition lfs_dir_traverse_filter :: "u32 \<Rightarrow> u32 \<Rightarrow> u32 \<times> bool" where
  "lfs_dir_traverse_filter filtertag tag =
     (let mask = (if tag AND LFS_MKTAG 0x100 0 0 \<noteq> 0 then LFS_MKTAG 0x7ff 0x3ff 0
                  else LFS_MKTAG 0x700 0x3ff 0)
      in if mask AND tag = mask AND filtertag \<or> lfs_tag_isdelete filtertag \<or>
            LFS_MKTAG 0x7ff 0x3ff 0 AND tag =
              LFS_MKTAG LFS_TYPE_DELETE 0 0 OR (LFS_MKTAG 0 0x3ff 0 AND filtertag)
         then (LFS_MKTAG LFS_FROM_NOOP 0 0, True)
         else if lfs_tag_type1 tag = LFS_TYPE_SPLICE \<and> lfs_tag_id tag \<le> lfs_tag_id filtertag
         then (filtertag + LFS_MKTAG 0 (lfs_tag_splice tag) 0, False)
         else (filtertag, False))"

section \<open>The machine\<close>

text \<open>
  The variables of the loop, which are also the contents of a frame.  \<open>tv_filter\<close> says that the
  callback is the filter, whose data is the tag of the frame on top of the stack.
\<close>

record trav_frame =
  tv_dir :: lfs_mdir
  tv_off :: u32
  tv_ptag :: u32
  tv_attrs :: "lfs_mattr list"
  tv_tmask :: u32
  tv_ttag :: u32
  tv_begin :: u16
  tv_end :: u16
  tv_diff :: u16 \<comment> \<open>int16\<close>
  tv_filter :: bool
  tv_tag :: u32
  tv_buffer :: mattr_buffer

datatype trav_state =
    Trav_Loop trav_frame "trav_frame list"
  | Trav_Popped trav_frame "trav_frame list"
  | Trav_Done bool

text \<open>The next tag: from the log, then from the attributes.\<close>

definition trav_fetch ::
  "'d lfs_config \<Rightarrow> trav_frame \<Rightarrow> ('d lfs, trav_frame option) cmd" where
  "trav_fetch c t =
     (if tv_off t + lfs_tag_dsize (tv_ptag t) < md_off (tv_dir t) then
        let off = tv_off t + lfs_tag_dsize (tv_ptag t); block = fst (md_pair (tv_dir t))
        in bnd (read_u32 c 4 block off) (\<lambda>w.
           let tag = (lfs_frombe32 w XOR tv_ptag t) OR 0x80000000
           in ret (Some (t\<lparr>tv_off := off, tv_ptag := tag, tv_tag := tag,
                          tv_buffer := Buf_Disk block (off + 4)\<rparr>)))
      else case tv_attrs t of
          a # rest \<Rightarrow> ret (Some (t\<lparr>tv_attrs := rest, tv_tag := mattr_tag a, tv_buffer := mattr_buffer a\<rparr>))
        | [] \<Rightarrow> ret None)"

text \<open>The array has room for \<^verbatim>\<open>LFS_DIR_TRAVERSE_DEPTH - 1\<close> frames.\<close>

definition LFS_DIR_TRAVERSE_DEPTH :: nat where
  "LFS_DIR_TRAVERSE_DEPTH = 3"

definition trav_push ::
  "trav_frame \<Rightarrow> trav_frame \<Rightarrow> trav_frame list \<Rightarrow> ('s, trav_state) cmd" where
  "trav_push frame t stack =
     (if length stack < LFS_DIR_TRAVERSE_DEPTH - 1 then ret (Trav_Loop t (frame # stack))
      else stuck Out_Of_Bounds)"

text \<open>The end of the loop: pop a frame, or return.\<close>

definition trav_break :: "bool \<Rightarrow> trav_frame list \<Rightarrow> trav_state" where
  "trav_break res stack = (case stack of frame # rest \<Rightarrow> Trav_Popped frame rest | [] \<Rightarrow> Trav_Done res)"

text \<open>A call of the current callback; the filter writes the tag of the top frame.\<close>

definition trav_call ::
  "('d, 'x) tag_cb \<Rightarrow> bool \<Rightarrow> trav_frame list \<Rightarrow> u32 \<Rightarrow> mattr_buffer \<Rightarrow>
     ('d lfs \<times> 'x, trav_frame list \<times> bool) cmd" where
  "trav_call cb filt stack tag buffer =
     (if filt then
        case stack of
          frame # rest \<Rightarrow>
            let (tag', res) = lfs_dir_traverse_filter (tv_tag frame) tag
            in ret (frame\<lparr>tv_tag := tag'\<rparr> # rest, res)
        | [] \<Rightarrow> stuck Out_Of_Bounds
      else bnd (cb tag buffer) (\<lambda>res. ret (stack, res)))"

text \<open>The loop over user attributes; a true result ends this loop only.\<close>

fun trav_userattrs ::
  "('d, 'x) tag_cb \<Rightarrow> trav_frame \<Rightarrow> trav_frame list \<Rightarrow> (u8 \<times> u8 list) list \<Rightarrow>
     ('d lfs \<times> 'x, trav_frame list) cmd" where
  "trav_userattrs cb t stack [] = ret stack"
| "trav_userattrs cb t stack (a # as) =
     bnd (trav_call cb (tv_filter t) stack
            (LFS_MKTAG (LFS_TYPE_USERATTR + ucast (fst a)) (lfs_tag_id (tv_tag t) + scast (tv_diff t))
               (of_nat (length (snd a)))) (Buf_Mem (snd a))) (\<lambda>(stack', res).
     if res then ret stack' else trav_userattrs cb t stack' as)"

text \<open>From the label \<^verbatim>\<open>popped\<close> to the end of the loop body.\<close>

definition trav_popped ::
  "('d, 'x) tag_cb \<Rightarrow> trav_frame \<Rightarrow> trav_frame list \<Rightarrow> ('d lfs \<times> 'x, trav_state) cmd" where
  "trav_popped cb t stack =
     (let tag = tv_tag t in
      if lfs_tag_id (tv_tmask t) \<noteq> 0 \<and>
         \<not> (ucast (tv_begin t) \<le> lfs_tag_id tag \<and> lfs_tag_id tag < ucast (tv_end t))
      then ret (Trav_Loop t stack)
      else if lfs_tag_type3 tag = LFS_FROM_NOOP then ret (Trav_Loop t stack)
      else if lfs_tag_type3 tag = LFS_FROM_MOVE then
        if tv_filter t then ret (Trav_Loop t stack)
        else
          case tv_buffer t of
            Buf_Mdir dir \<Rightarrow>
              let fromid = ucast (lfs_tag_size tag); toid = ucast (lfs_tag_id tag)
              in trav_push (t\<lparr>tv_tag := LFS_MKTAG LFS_FROM_NOOP 0 0, tv_buffer := Buf_Null\<rparr>)
                   (t\<lparr>tv_dir := dir, tv_off := 0, tv_ptag := 0xffffffff, tv_attrs := [],
                      tv_tmask := LFS_MKTAG 0x600 0x3ff 0, tv_ttag := LFS_MKTAG LFS_TYPE_STRUCT 0 0,
                      tv_begin := fromid, tv_end := fromid + 1,
                      tv_diff := toid - fromid + tv_diff t\<rparr>) stack
          | _ \<Rightarrow> stuck Out_Of_Bounds
      else if lfs_tag_type3 tag = LFS_FROM_USERATTRS then
        case tv_buffer t of
          Buf_Attrs as \<Rightarrow>
            if unat (lfs_tag_size tag) \<le> length as then
              bnd (trav_userattrs cb t stack (take (unat (lfs_tag_size tag)) as)) (\<lambda>stack'.
              ret (Trav_Loop t stack'))
            else stuck Out_Of_Bounds
        | _ \<Rightarrow> stuck Out_Of_Bounds
      else
        bnd (trav_call cb (tv_filter t) stack (tag + LFS_MKTAG 0 (scast (tv_diff t)) 0) (tv_buffer t))
          (\<lambda>(stack', res). ret (if res then trav_break res stack' else Trav_Loop t stack')))"

text \<open>The part of the loop body before the label.\<close>

definition trav_loop ::
  "'d lfs_config \<Rightarrow> trav_frame \<Rightarrow> trav_frame list \<Rightarrow> ('d lfs \<times> 'x, trav_state) cmd" where
  "trav_loop c t stack =
     bnd (on_fst (trav_fetch c t)) (\<lambda>r. case r of
         None \<Rightarrow> ret (trav_break False stack)
       | Some t' \<Rightarrow>
           let mask = LFS_MKTAG 0x7ff 0 0
           in if mask AND tv_tmask t' AND tv_tag t' \<noteq> mask AND tv_tmask t' AND tv_ttag t'
              then ret (Trav_Loop t' stack)
              else if lfs_tag_id (tv_tmask t') \<noteq> 0
              then trav_push t' (t'\<lparr>tv_tmask := 0, tv_ttag := 0, tv_begin := 0, tv_end := 0,
                     tv_diff := 0, tv_filter := True\<rparr>) stack
              else ret (Trav_Popped t' stack))"

definition trav_step ::
  "'d lfs_config \<Rightarrow> ('d, 'x) tag_cb \<Rightarrow> trav_state \<Rightarrow> ('d lfs \<times> 'x, trav_state) cmd" where
  "trav_step c cb ts = (case ts of
      Trav_Loop t stack \<Rightarrow> trav_loop c t stack
    | Trav_Popped t stack \<Rightarrow> trav_popped cb t stack
    | Trav_Done res \<Rightarrow> ret (Trav_Done res))"

fun trav_run ::
  "'d lfs_config \<Rightarrow> ('d, 'x) tag_cb \<Rightarrow> nat \<Rightarrow> trav_state \<Rightarrow> ('d lfs \<times> 'x, bool) cmd" where
  "trav_run c cb 0 ts = stuck Out_Of_Fuel"
| "trav_run c cb (Suc n) ts = (case ts of
      Trav_Done res \<Rightarrow> ret res
    | _ \<Rightarrow> bnd (trav_step c cb ts) (trav_run c cb n))"

text \<open>
  A bound for the number of steps: \<open>n\<close> tags of the directory and the attributes, each with a pass
  of the filter over at most \<open>n\<close> tags, and the same for the directories that attributes move from.
\<close>

definition trav_tags :: "lfs_mdir \<Rightarrow> nat" where
  "trav_tags dir = unat (md_off dir) div 4 + 1"

definition move_tags :: "lfs_mattr \<Rightarrow> nat" where
  "move_tags a = (case mattr_buffer a of Buf_Mdir dir \<Rightarrow> trav_tags dir | _ \<Rightarrow> 0)"

definition trav_fuel :: "lfs_mdir \<Rightarrow> lfs_mattr list \<Rightarrow> nat" where
  "trav_fuel dir attrs =
     (let n = trav_tags dir + length attrs + 1; m = sum_list (map move_tags attrs) + 1
      in (n + 1) * (2 * n + 4) + (m + 1) * (2 * m + 4) * n + 2)"

definition lfs_dir_traverse ::
  "'d lfs_config \<Rightarrow> lfs_mdir \<Rightarrow> u32 \<Rightarrow> u32 \<Rightarrow> lfs_mattr list \<Rightarrow> u32 \<Rightarrow> u32 \<Rightarrow> u16 \<Rightarrow> u16 \<Rightarrow> u16 \<Rightarrow>
     ('d, 'x) tag_cb \<Rightarrow> ('d lfs \<times> 'x, bool) cmd" where
  "lfs_dir_traverse c dir off ptag attrs tmask ttag begin_id end_id diff cb =
     trav_run c cb (trav_fuel dir attrs)
       (Trav_Loop \<lparr>tv_dir = dir, tv_off = off, tv_ptag = ptag, tv_attrs = attrs, tv_tmask = tmask,
          tv_ttag = ttag, tv_begin = begin_id, tv_end = end_id, tv_diff = diff, tv_filter = False,
          tv_tag = 0, tv_buffer = Buf_Null\<rparr> [])"

end
