(* ===== verification/LFS_Commit.thy ===== *)
theory LFS_Commit
  imports LFS_Traverse LFS_Alloc
begin

text \<open>
  Writing a commit to a metadata block, \<^verbatim>\<open>src/src/lfs/lfs.c\<close> from \<^verbatim>\<open>struct lfs_commit\<close> to
  \<^verbatim>\<open>lfs_dir_alloc\<close>, the callbacks of the traversals that measure and write, and the test for
  wear levelling.  The commands work on the file system and on the commit in progress.
\<close>

section \<open>The commit in progress\<close>

record lfs_commit =
  cm_block :: u32
  cm_off :: u32
  cm_ptag :: u32
  cm_crc :: u32
  cm_begin :: u32
  cm_end :: u32

type_synonym ('d, 'a) commit_cmd = "('d lfs \<times> lfs_commit, 'a) cmd"

definition get_commit :: "('d, lfs_commit) commit_cmd" where
  "get_commit = gets snd"

definition upd_commit :: "(lfs_commit \<Rightarrow> lfs_commit) \<Rightarrow> ('d, unit) commit_cmd" where
  "upd_commit f = modify (\<lambda>(s, cm). (s, f cm))"

definition lfs_dir_commitprog :: "'d lfs_config \<Rightarrow> u8 list \<Rightarrow> ('d, unit) commit_cmd" where
  "lfs_dir_commitprog c data =
     bnd get_commit (\<lambda>cm.
     bnd (on_fst (on_caches (lfs_bd_prog c False (cm_block cm) (cm_off cm) data))) (\<lambda>_.
     upd_commit (\<lambda>cm. cm\<lparr>cm_crc := lfs_crc (cm_crc cm) data,
                       cm_off := cm_off cm + of_nat (length data)\<rparr>)))"

text \<open>Copying the data of an attribute from disk, a byte at a time.\<close>

fun commit_copy ::
  "'d lfs_config \<Rightarrow> u32 \<Rightarrow> u32 \<Rightarrow> u32 \<Rightarrow> nat \<Rightarrow> u32 \<Rightarrow> ('d, unit) commit_cmd" where
  "commit_copy c block off sz 0 i = stuck Out_Of_Fuel"
| "commit_copy c block off sz (Suc n) i =
     (if i < sz then
        bnd (on_fst (on_rcache (lfs_bd_read c None (sz - i) block (off + i) 1))) (\<lambda>dat.
        bnd (lfs_dir_commitprog c dat) (\<lambda>_.
        commit_copy c block off sz n (i + 1)))
      else ret ())"

definition lfs_dir_commitattr :: "'d lfs_config \<Rightarrow> u32 \<Rightarrow> mattr_buffer \<Rightarrow> ('d, unit) commit_cmd" where
  "lfs_dir_commitattr c tag buffer =
     bnd get_commit (\<lambda>cm.
     let dsize = lfs_tag_dsize tag in
     if cm_end cm < cm_off cm + dsize then throw LFS_ERR_NOSPC
     else
       bnd (lfs_dir_commitprog c (u32_bytes (lfs_tobe32 ((tag AND 0x7fffffff) XOR cm_ptag cm)))) (\<lambda>_.
       bnd (if \<not> bit tag 31 then
              if dsize = 4 then lfs_dir_commitprog c []
              else case buffer of
                  Buf_Mem bs \<Rightarrow> bnd (mem_read bs 0 (unat (dsize - 4))) (lfs_dir_commitprog c)
                | _ \<Rightarrow> stuck Out_Of_Bounds
            else case buffer of
                Buf_Disk block off \<Rightarrow> commit_copy c block off (dsize - 4) (unat dsize) 0
              | _ \<Rightarrow> stuck Out_Of_Bounds) (\<lambda>_.
       upd_commit (\<lambda>cm. cm\<lparr>cm_ptag := tag AND 0x7fffffff\<rparr>))))"

section \<open>Closing a commit\<close>

text \<open>
  The checksum tags up to the next program unit; the result is the place and the value of the
  first checksum.
\<close>

fun commitcrc_pad ::
  "'d lfs_config \<Rightarrow> u32 \<Rightarrow> nat \<Rightarrow> u32 \<Rightarrow> u32 \<Rightarrow> ('d, u32 \<times> u32) commit_cmd" where
  "commitcrc_pad c lim 0 off1 crc1 = stuck Out_Of_Fuel"
| "commitcrc_pad c lim (Suc n) off1 crc1 =
     bnd get_commit (\<lambda>cm.
     if cm_off cm < lim then
       let off = cm_off cm + 4;
           noff = lfs_min (lim - off) 0x3fe + off;
           noff = (if noff < lim then lfs_min noff (lim - 2 * 4) else noff)
       in bnd (attempt (on_fst (read_u32 c 4 (cm_block cm) noff))) (\<lambda>r.
          bnd (case r of
                 Inl e \<Rightarrow> if e \<noteq> LFS_ERR_CORRUPT then throw e else ret 0xffffffff
               | Inr w \<Rightarrow> ret w) (\<lambda>w.
          let reset = (\<not> bit (lfs_frombe32 w) 31);
              tag = LFS_MKTAG (LFS_TYPE_CRC + (if reset then 1 else 0)) 0x3ff (noff - off);
              footer0 = u32_bytes (lfs_tobe32 (tag XOR cm_ptag cm));
              crc = lfs_crc (cm_crc cm) footer0;
              footer1 = u32_bytes (lfs_tole32 crc)
          in bnd (upd_commit (\<lambda>cm. cm\<lparr>cm_crc := crc\<rparr>)) (\<lambda>_.
             bnd (on_fst (on_caches (lfs_bd_prog c False (cm_block cm) (cm_off cm) (footer0 @ footer1)))) (\<lambda>_.
             bnd (upd_commit (\<lambda>cm. cm\<lparr>cm_off := cm_off cm + (4 + lfs_tag_size tag),
                    cm_ptag := tag XOR (if reset then 0x80000000 else 0), cm_crc := 0xffffffff\<rparr>)) (\<lambda>_.
             if off1 = 0 then commitcrc_pad c lim n (cm_off cm + 4) crc
             else commitcrc_pad c lim n off1 crc1)))))
     else ret (off1, crc1))"

text \<open>The read back of one checksummed part.\<close>

fun commitcrc_sum ::
  "'d lfs_config \<Rightarrow> u32 \<Rightarrow> u32 \<Rightarrow> u32 \<Rightarrow> u32 \<Rightarrow> nat \<Rightarrow> u32 \<Rightarrow> u32 \<Rightarrow> ('d lfs, u32) cmd" where
  "commitcrc_sum c block off1 crc1 noff 0 i crc = stuck Out_Of_Fuel"
| "commitcrc_sum c block off1 crc1 noff (Suc n) i crc =
     (if i < noff + 4 then
        if i = off1 \<and> crc \<noteq> crc1 then throw LFS_ERR_CORRUPT
        else
          bnd (on_rcache (lfs_bd_read c None (noff + 4 - i) block i 1)) (\<lambda>dat.
          commitcrc_sum c block off1 crc1 noff n (i + 1) (lfs_crc crc dat))
      else ret crc)"

fun commitcrc_check ::
  "'d lfs_config \<Rightarrow> u32 \<Rightarrow> u32 \<Rightarrow> u32 \<Rightarrow> u32 \<Rightarrow> nat \<Rightarrow> u32 \<Rightarrow> u32 \<Rightarrow> ('d lfs, unit) cmd" where
  "commitcrc_check c block lim off1 crc1 0 off noff = stuck Out_Of_Fuel"
| "commitcrc_check c block lim off1 crc1 (Suc n) off noff =
     (if off < lim then
        bnd (commitcrc_sum c block off1 crc1 noff (unat (noff + 4 - off) + 1) off 0xffffffff) (\<lambda>crc.
        if crc \<noteq> 0 then throw LFS_ERR_CORRUPT
        else
          let off' = lfs_min (lim - noff) 0x3fe + noff;
              off' = (if off' < lim then lfs_min off' (lim - 2 * 4) else off')
          in commitcrc_check c block lim off1 crc1 n off' (off' + 4))
      else ret ())"

definition lfs_dir_commitcrc :: "'d lfs_config \<Rightarrow> ('d, unit) commit_cmd" where
  "lfs_dir_commitcrc c =
     bnd get_commit (\<lambda>cm.
     let lim = lfs_alignup (cm_off cm + 2 * 4) (cfg_prog_size c)
     in bnd (commitcrc_pad c lim (unat (lim - cm_off cm) + 1) 0 0) (\<lambda>(off1, crc1).
        bnd (on_fst (on_caches (lfs_bd_sync c False))) (\<lambda>_.
        on_fst (commitcrc_check c (cm_block cm) lim off1 crc1 (unat (lim - cm_begin cm) + 1)
                  (cm_begin cm) off1))))"

section \<open>A new pair\<close>

definition lfs_dir_alloc :: "'d lfs_config \<Rightarrow> ('d lfs, lfs_mdir) cmd" where
  "lfs_dir_alloc c =
     bnd (lfs_alloc c) (\<lambda>pair1.
     bnd (lfs_alloc c) (\<lambda>pair0.
     bnd (attempt (read_u32 c 4 pair0 0)) (\<lambda>r.
     bnd (case r of
            Inl e \<Rightarrow> if e \<noteq> LFS_ERR_CORRUPT then throw e else ret (lfs_fromle32 0)
          | Inr w \<Rightarrow> ret (lfs_fromle32 w)) (\<lambda>rev0.
     let rev1 = (if 0 < sint (cfg_block_cycles c)
                 then lfs_alignup rev0 ((cfg_block_cycles c + 1) OR 1) else rev0)
     in ret \<lparr>md_pair = (pair0, pair1), md_rev = rev1, md_off = 4, md_etag = 0xffffffff, md_count = 0,
          md_erased = False, md_split = False, md_tail = (LFS_BLOCK_NULL, LFS_BLOCK_NULL)\<rparr>))))"

section \<open>Callbacks and wear levelling\<close>

definition lfs_dir_commit_size :: "('d, u32) tag_cb" where
  "lfs_dir_commit_size tag buffer = bnd (modify (\<lambda>(s, sz). (s, sz + lfs_tag_dsize tag))) (\<lambda>_. ret False)"

definition lfs_dir_commit_commit :: "'d lfs_config \<Rightarrow> ('d, lfs_commit) tag_cb" where
  "lfs_dir_commit_commit c tag buffer = bnd (lfs_dir_commitattr c tag buffer) (\<lambda>_. ret False)"

definition lfs_dir_needsrelocation :: "'z lfs_geometry_scheme \<Rightarrow> lfs_mdir \<Rightarrow> bool" where
  "lfs_dir_needsrelocation c dir \<longleftrightarrow>
     0 < sint (cfg_block_cycles c) \<and> (md_rev dir + 1) mod ((cfg_block_cycles c + 1) OR 1) = 0"

end
