(* ===== verification/LFS_Extend.thy ===== *)
theory LFS_Extend
  imports LFS_Alloc
begin

text \<open>
  Extending the block list of a file, \<^verbatim>\<open>lfs_ctz_extend\<close> of \<^verbatim>\<open>src/src/lfs/lfs.c\<close>.  The program
  cache is that of a file object, which the allocator's traversal looks at, so it stays in the
  object.  A block that turns out to be bad is left behind and another one is allocated.
\<close>

section \<open>The cache of a file\<close>

definition put_fcache :: "obj_ref \<Rightarrow> lfs_cache \<Rightarrow> 'd lfs \<Rightarrow> 'd lfs" where
  "put_fcache x p s = s\<lparr>lfs_objs := (lfs_objs s)(x := (lfs_objs s x)\<lparr>file_cache := p\<rparr>)\<rparr>"

text \<open>The file's cache as program cache over the read cache of the file system, and as read cache.\<close>

definition on_fcaches :: "obj_ref \<Rightarrow> (lfs_cache \<times> (lfs_cache \<times> 'd), 'a) cmd \<Rightarrow> ('d lfs, 'a) cmd" where
  "on_fcaches x m = zoom (\<lambda>s. (file_cache (lfs_objs s x), (lfs_rcache s, lfs_dev s)))
     (\<lambda>(p, (r, d)) s. put_fcache x p (s\<lparr>lfs_rcache := r, lfs_dev := d\<rparr>)) m"

definition on_fcache :: "obj_ref \<Rightarrow> (lfs_cache \<times> 'd, 'a) cmd \<Rightarrow> ('d lfs, 'a) cmd" where
  "on_fcache x m = zoom (\<lambda>s. (file_cache (lfs_objs s x), lfs_dev s))
     (\<lambda>(p, d) s. put_fcache x p (s\<lparr>lfs_dev := d\<rparr>)) m"

text \<open>\<^verbatim>\<open>lfs_dir_getread\<close> with the file's cache; it does not use the objects itself.\<close>

definition on_fcache_lfs :: "obj_ref \<Rightarrow> (lfs_cache \<times> 'd lfs, 'a) cmd \<Rightarrow> ('d lfs, 'a) cmd" where
  "on_fcache_lfs x m = zoom (\<lambda>s. (file_cache (lfs_objs s x), s)) (\<lambda>(p, s') _. put_fcache x p s') m"

definition upd_fcache :: "obj_ref \<Rightarrow> (lfs_cache \<Rightarrow> lfs_cache) \<Rightarrow> ('d lfs, unit) cmd" where
  "upd_fcache x f = upd_obj x (\<lambda>ob. ob\<lparr>file_cache := f (file_cache ob)\<rparr>)"

section \<open>The extension\<close>

text \<open>
  What becomes of an attempt to write a block: done, given up because the block is bad, or an
  error; only programming and erasing tell that a block is bad.
\<close>

definition bad_block :: "('s, unit) cmd \<Rightarrow> ('s, bool) cmd" where
  "bad_block m = bnd (attempt m) (\<lambda>r. case r of
      Inl e \<Rightarrow> if e = LFS_ERR_CORRUPT then ret True else throw e
    | Inr _ \<Rightarrow> ret False)"

text \<open>Copying the last block if it is incomplete; the result tells that the new block is bad.\<close>

fun extend_copy ::
  "'d lfs_config \<Rightarrow> obj_ref \<Rightarrow> u32 \<Rightarrow> u32 \<Rightarrow> u32 \<Rightarrow> nat \<Rightarrow> u32 \<Rightarrow> ('d lfs, bool) cmd" where
  "extend_copy c x head nblock noff 0 i = stuck Out_Of_Fuel"
| "extend_copy c x head nblock noff (Suc n) i =
     (if i < noff then
        bnd (on_rcache (lfs_bd_read c None (noff - i) head i 1)) (\<lambda>dat.
        bnd (bad_block (on_fcaches x (lfs_bd_prog c True nblock i dat))) (\<lambda>bad.
        if bad then ret True else extend_copy c x head nblock noff n (i + 1)))
      else ret False)"

text \<open>The pointers of an appended block.\<close>

fun extend_pointers ::
  "'d lfs_config \<Rightarrow> obj_ref \<Rightarrow> u32 \<Rightarrow> u32 \<Rightarrow> nat \<Rightarrow> u32 \<Rightarrow> u32 \<Rightarrow> ('d lfs, bool) cmd" where
  "extend_pointers c x nblock skips 0 i nhead = stuck Out_Of_Fuel"
| "extend_pointers c x nblock skips (Suc n) i nhead =
     (if i < skips then
        bnd (bad_block (on_fcaches x (lfs_bd_prog c True nblock (4 * i) (u32_bytes (lfs_tole32 nhead))))) (\<lambda>bad.
        if bad then ret True
        else if i \<noteq> skips - 1 then
          bnd (read_u32 c 4 nhead (4 * i)) (\<lambda>w.
          extend_pointers c x nblock skips n (i + 1) (lfs_fromle32 w))
        else extend_pointers c x nblock skips n (i + 1) nhead)
      else ret False)"

text \<open>One attempt with a block; None when it is bad.\<close>

definition extend_block ::
  "'d lfs_config \<Rightarrow> obj_ref \<Rightarrow> u32 \<Rightarrow> u32 \<Rightarrow> u32 \<Rightarrow> ('d lfs, (u32 \<times> u32) option) cmd" where
  "extend_block c x head sz nblock =
     bnd (bad_block (on_dev (lfs_bd_erase c nblock))) (\<lambda>bad.
     if bad then ret None
     else if sz = 0 then ret (Some (nblock, 0))
     else
       let (index, noff) = lfs_ctz_index c (sz - 1); noff = noff + 1
       in if noff \<noteq> cfg_block_size c then
            bnd (extend_copy c x head nblock noff (unat noff + 1) 0) (\<lambda>bad.
            ret (if bad then None else Some (nblock, noff)))
          else
            let skips = lfs_ctz (index + 1) + 1
            in bnd (extend_pointers c x nblock skips (unat skips + 1) 0 head) (\<lambda>bad.
               ret (if bad then None else Some (nblock, 4 * skips))))"

text \<open>
  Every attempt takes a block from the allocator, which runs out of them, so the number of blocks
  not acknowledged is a bound for the number of attempts.
\<close>

fun extend_loop ::
  "'d lfs_config \<Rightarrow> obj_ref \<Rightarrow> u32 \<Rightarrow> u32 \<Rightarrow> nat \<Rightarrow> ('d lfs, u32 \<times> u32) cmd" where
  "extend_loop c x head sz 0 = stuck Out_Of_Fuel"
| "extend_loop c x head sz (Suc n) =
     bnd (lfs_alloc c) (\<lambda>nblock.
     bnd (extend_block c x head sz nblock) (\<lambda>r. case r of
         Some (block, off) \<Rightarrow> ret (block, off)
       | None \<Rightarrow> bnd (upd_fcache x lfs_cache_drop) (\<lambda>_. extend_loop c x head sz n)))"

definition lfs_ctz_extend ::
  "'d lfs_config \<Rightarrow> obj_ref \<Rightarrow> u32 \<Rightarrow> u32 \<Rightarrow> ('d lfs, u32 \<times> u32) cmd" where
  "lfs_ctz_extend c x head sz =
     bnd (gets lfs_free) (\<lambda>fr. extend_loop c x head sz (unat (free_ack fr) + 2))"

end
