(* ===== verification/LFS_File.thy ===== *)
theory LFS_File
  imports LFS_Extend
begin

text \<open>
  Reading and writing the data of an open file, \<^verbatim>\<open>src/src/lfs/lfs.c\<close>: \<^verbatim>\<open>lfs_file_relocate\<close>,
  \<^verbatim>\<open>lfs_file_outline\<close>, \<^verbatim>\<open>lfs_file_flushedread\<close>, \<^verbatim>\<open>lfs_file_flushedwrite\<close>, \<^verbatim>\<open>lfs_file_flush\<close>,
  \<^verbatim>\<open>lfs_file_rawread\<close>, \<^verbatim>\<open>lfs_file_rawwrite\<close>, \<^verbatim>\<open>lfs_file_rawseek\<close>, \<^verbatim>\<open>lfs_file_rawtruncate\<close> and
  the functions on the position and the size.  A file is an object of the state, named by its
  reference.
\<close>

section \<open>Relocation and inline files\<close>

definition set_ferr :: "obj_ref \<Rightarrow> ('d lfs, 'a) cmd \<Rightarrow> ('d lfs, 'a) cmd" where
  "set_ferr x m = handle m (\<lambda>e. bnd (upd_obj x (set_flag LFS_F_ERRED)) (\<lambda>_. throw e))"

text \<open>The byte of an inline file, with the masks of the tag as they are in the code.\<close>

definition inline_read ::
  "'d lfs_config \<Rightarrow> obj_ref \<Rightarrow> u32 \<Rightarrow> u32 \<Rightarrow> u32 \<Rightarrow> ('d lfs, u8 list) cmd" where
  "inline_read c x hint off sz =
     bnd (get_obj x) (\<lambda>f.
     on_fcache_lfs x (lfs_dir_getread c (obj_m f) None hint (LFS_MKTAG 0xfff 0x1ff 0)
       (LFS_MKTAG LFS_TYPE_INLINESTRUCT (ucast (obj_id f)) 0) off sz))"

text \<open>The copy into a new block, from the inline data or from the old block; true when it is bad.\<close>

fun relocate_copy :: "'d lfs_config \<Rightarrow> obj_ref \<Rightarrow> u32 \<Rightarrow> nat \<Rightarrow> u32 \<Rightarrow> ('d lfs, bool) cmd" where
  "relocate_copy c x nblock 0 i = stuck Out_Of_Fuel"
| "relocate_copy c x nblock (Suc n) i =
     bnd (get_obj x) (\<lambda>f.
     if i < file_off f then
       bnd (if has_flag f LFS_F_INLINE then inline_read c x (file_off f - i) i 1
            else on_rcache (lfs_bd_read c (Some (file_cache f)) (file_off f - i) (file_block f) i 1)) (\<lambda>dat.
       bnd (bad_block (on_caches (lfs_bd_prog c True nblock i dat))) (\<lambda>bad.
       if bad then ret True else relocate_copy c x nblock n (i + 1)))
     else ret False)"

text \<open>The program cache of the file system becomes that of the file.\<close>

definition relocate_done :: "'d lfs_config \<Rightarrow> obj_ref \<Rightarrow> u32 \<Rightarrow> ('d lfs, unit) cmd" where
  "relocate_done c x nblock =
     bnd (gets lfs_pcache) (\<lambda>p.
     bnd (mem_read (cache_buffer p) 0 (unat (cfg_cache_size c))) (\<lambda>bs.
     bnd (gets (\<lambda>s. file_cache (lfs_objs s x))) (\<lambda>fc.
     bnd (mem_write (cache_buffer fc) 0 bs) (\<lambda>buf.
     bnd (upd_fcache x (\<lambda>_. \<lparr>cache_block = cache_block p, cache_off = cache_off p,
            cache_size = cache_size p, cache_buffer = buf\<rparr>)) (\<lambda>_.
     bnd (modify (\<lambda>s. s\<lparr>lfs_pcache := lfs_cache_zero c (lfs_pcache s)\<rparr>)) (\<lambda>_.
     upd_obj x (\<lambda>f. set_flag LFS_F_WRITING (f\<lparr>file_block := nblock\<rparr>))))))))"

fun relocate_loop :: "'d lfs_config \<Rightarrow> obj_ref \<Rightarrow> nat \<Rightarrow> ('d lfs, unit) cmd" where
  "relocate_loop c x 0 = stuck Out_Of_Fuel"
| "relocate_loop c x (Suc n) =
     bnd (lfs_alloc c) (\<lambda>nblock.
     bnd (bad_block (on_dev (lfs_bd_erase c nblock))) (\<lambda>bad.
     bnd (get_obj x) (\<lambda>f.
     bnd (if bad then ret True
          else relocate_copy c x nblock (unat (file_off f) + 1) 0) (\<lambda>bad.
     if bad then
       bnd (modify (\<lambda>s. s\<lparr>lfs_pcache := lfs_cache_drop (lfs_pcache s)\<rparr>)) (\<lambda>_. relocate_loop c x n)
     else relocate_done c x nblock))))"

definition lfs_file_relocate :: "'d lfs_config \<Rightarrow> obj_ref \<Rightarrow> ('d lfs, unit) cmd" where
  "lfs_file_relocate c x = bnd (gets lfs_free) (\<lambda>fr. relocate_loop c x (unat (free_ack fr) + 2))"

definition lfs_file_outline :: "'d lfs_config \<Rightarrow> obj_ref \<Rightarrow> ('d lfs, unit) cmd" where
  "lfs_file_outline c x =
     bnd (upd_obj x (\<lambda>f. f\<lparr>file_off := file_pos f\<rparr>)) (\<lambda>_.
     bnd (lfs_alloc_ack c) (\<lambda>_.
     bnd (lfs_file_relocate c x) (\<lambda>_.
     upd_obj x (clear_flag LFS_F_INLINE))))"

section \<open>Reading\<close>

text \<open>Before a read: find the block of the position, or point at the inline data.\<close>

definition flushedread_seek :: "'d lfs_config \<Rightarrow> obj_ref \<Rightarrow> ('d lfs, unit) cmd" where
  "flushedread_seek c x =
     bnd (get_obj x) (\<lambda>f.
     if \<not> has_flag f LFS_F_READING \<or> file_off f = cfg_block_size c then
       bnd (if \<not> has_flag f LFS_F_INLINE then
              bnd (on_fcache x (lfs_ctz_find c None (ctz_head (file_ctz f)) (ctz_size (file_ctz f)) (file_pos f)))
                (\<lambda>(block, off). upd_obj x (\<lambda>f. f\<lparr>file_block := block, file_off := off\<rparr>))
            else upd_obj x (\<lambda>f. f\<lparr>file_block := LFS_BLOCK_INLINE, file_off := file_pos f\<rparr>)) (\<lambda>_.
       upd_obj x (set_flag LFS_F_READING))
     else ret ())"

fun flushedread_loop :: "'d lfs_config \<Rightarrow> obj_ref \<Rightarrow> nat \<Rightarrow> u32 \<Rightarrow> ('d lfs, u8 list) cmd" where
  "flushedread_loop c x 0 nsize = stuck Out_Of_Fuel"
| "flushedread_loop c x (Suc n) nsize =
     (if nsize = 0 then ret []
      else
        bnd (flushedread_seek c x) (\<lambda>_.
        bnd (get_obj x) (\<lambda>f.
        let diff = lfs_min nsize (cfg_block_size c - file_off f)
        in bnd (if has_flag f LFS_F_INLINE then inline_read c x (cfg_block_size c) (file_off f) diff
                else on_fcache x (lfs_bd_read c None (cfg_block_size c) (file_block f) (file_off f) diff)) (\<lambda>bs.
           bnd (upd_obj x (\<lambda>f. f\<lparr>file_pos := file_pos f + diff, file_off := file_off f + diff\<rparr>)) (\<lambda>_.
           bnd (flushedread_loop c x n (nsize - diff)) (\<lambda>rest. ret (bs @ rest)))))))"

text \<open>The result is the bytes read, whose number is the result in C.\<close>

definition lfs_file_flushedread :: "'d lfs_config \<Rightarrow> obj_ref \<Rightarrow> u32 \<Rightarrow> ('d lfs, u8 list) cmd" where
  "lfs_file_flushedread c x sz =
     bnd (get_obj x) (\<lambda>f.
     if ctz_size (file_ctz f) \<le> file_pos f then ret []
     else
       let sz = lfs_min sz (ctz_size (file_ctz f) - file_pos f)
       in flushedread_loop c x (unat sz + 1) sz)"

section \<open>Writing\<close>

text \<open>The limit of an inline file.\<close>

definition inline_max :: "'z lfs_geometry_scheme \<Rightarrow> u32" where
  "inline_max c = lfs_min 0x3fe (lfs_min (cfg_cache_size c)
     ((if cfg_metadata_max c \<noteq> 0 then cfg_metadata_max c else cfg_block_size c) div 8))"

text \<open>Before a write: extend the file by a block when the current one is full, or start one.\<close>

definition flushedwrite_extend :: "'d lfs_config \<Rightarrow> obj_ref \<Rightarrow> ('d lfs, unit) cmd" where
  "flushedwrite_extend c x =
     bnd (get_obj x) (\<lambda>f.
     bnd (if \<not> has_flag f LFS_F_WRITING \<and> 0 < file_pos f then
            bnd (set_ferr x (on_fcache x (lfs_ctz_find c None (ctz_head (file_ctz f)) (ctz_size (file_ctz f))
                   (file_pos f - 1)))) (\<lambda>(block, off).
            bnd (upd_obj x (\<lambda>f. f\<lparr>file_block := block, file_off := off\<rparr>)) (\<lambda>_.
            upd_fcache x (lfs_cache_zero c)))
          else ret ()) (\<lambda>_.
     bnd (lfs_alloc_ack c) (\<lambda>_.
     bnd (get_obj x) (\<lambda>f.
     bnd (set_ferr x (lfs_ctz_extend c x (file_block f) (file_pos f))) (\<lambda>(block, off).
     upd_obj x (\<lambda>f. f\<lparr>file_block := block, file_off := off\<rparr>))))))"

definition flushedwrite_seek :: "'d lfs_config \<Rightarrow> obj_ref \<Rightarrow> ('d lfs, unit) cmd" where
  "flushedwrite_seek c x =
     bnd (get_obj x) (\<lambda>f.
     if \<not> has_flag f LFS_F_WRITING \<or> file_off f = cfg_block_size c then
       bnd (if \<not> has_flag f LFS_F_INLINE then flushedwrite_extend c x
            else upd_obj x (\<lambda>f. f\<lparr>file_block := LFS_BLOCK_INLINE, file_off := file_pos f\<rparr>)) (\<lambda>_.
       upd_obj x (set_flag LFS_F_WRITING))
     else ret ())"

text \<open>Programming, with a relocation after a bad block, which takes a block of the allocator.\<close>

fun flushedwrite_prog :: "'d lfs_config \<Rightarrow> obj_ref \<Rightarrow> u8 list \<Rightarrow> nat \<Rightarrow> ('d lfs, unit) cmd" where
  "flushedwrite_prog c x data 0 = stuck Out_Of_Fuel"
| "flushedwrite_prog c x data (Suc n) =
     bnd (get_obj x) (\<lambda>f.
     bnd (set_ferr x (bad_block (on_fcaches x (lfs_bd_prog c True (file_block f) (file_off f) data)))) (\<lambda>bad.
     if bad then bnd (set_ferr x (lfs_file_relocate c x)) (\<lambda>_. flushedwrite_prog c x data n)
     else ret ()))"

fun flushedwrite_loop :: "'d lfs_config \<Rightarrow> obj_ref \<Rightarrow> nat \<Rightarrow> u8 list \<Rightarrow> ('d lfs, unit) cmd" where
  "flushedwrite_loop c x 0 data = stuck Out_Of_Fuel"
| "flushedwrite_loop c x (Suc n) data =
     (if data = [] then ret ()
      else
        bnd (flushedwrite_seek c x) (\<lambda>_.
        bnd (get_obj x) (\<lambda>f.
        let diff = lfs_min (of_nat (length data)) (cfg_block_size c - file_off f)
        in bnd (gets lfs_free) (\<lambda>fr.
           bnd (flushedwrite_prog c x (take (unat diff) data) (unat (free_ack fr) + 2)) (\<lambda>_.
           bnd (upd_obj x (\<lambda>f. f\<lparr>file_pos := file_pos f + diff, file_off := file_off f + diff\<rparr>)) (\<lambda>_.
           bnd (lfs_alloc_ack c) (\<lambda>_.
           flushedwrite_loop c x n (drop (unat diff) data))))))))"

definition lfs_file_flushedwrite :: "'d lfs_config \<Rightarrow> obj_ref \<Rightarrow> u8 list \<Rightarrow> ('d lfs, u32) cmd" where
  "lfs_file_flushedwrite c x data =
     bnd (get_obj x) (\<lambda>f.
     bnd (if has_flag f LFS_F_INLINE \<and>
             inline_max c < lfs_max (file_pos f + of_nat (length data)) (ctz_size (file_ctz f))
          then set_ferr x (lfs_file_outline c x) else ret ()) (\<lambda>_.
     bnd (flushedwrite_loop c x (length data + 1) data) (\<lambda>_.
     ret (of_nat (length data)))))"

section \<open>Flushing\<close>

text \<open>
  Copying what follows the current position, from a reader of the old contents that shares the
  buffer of the read cache: the buffer is handed over before and after each read.
\<close>

definition flush_orig :: obj_ref where
  "flush_orig = Local ''lfs_file_flush.orig''"

definition on_shared :: "obj_ref \<Rightarrow> ('d lfs, 'a) cmd \<Rightarrow> ('d lfs, 'a) cmd" where
  "on_shared x m =
     bnd (gets (\<lambda>s. cache_buffer (lfs_rcache s))) (\<lambda>buf.
     bnd (upd_fcache x (\<lambda>p. p\<lparr>cache_buffer := buf\<rparr>)) (\<lambda>_.
     bnd (attempt m) (\<lambda>r.
     bnd (gets (\<lambda>s. cache_buffer (file_cache (lfs_objs s x)))) (\<lambda>buf'.
     bnd (modify (\<lambda>s. s\<lparr>lfs_rcache := (lfs_rcache s)\<lparr>cache_buffer := buf'\<rparr>\<rparr>)) (\<lambda>_.
     case r of Inl e \<Rightarrow> throw e | Inr a \<Rightarrow> ret a)))))"

fun flush_copy :: "'d lfs_config \<Rightarrow> obj_ref \<Rightarrow> nat \<Rightarrow> ('d lfs, unit) cmd" where
  "flush_copy c x 0 = stuck Out_Of_Fuel"
| "flush_copy c x (Suc n) =
     bnd (get_obj x) (\<lambda>f.
     if file_pos f < ctz_size (file_ctz f) then
       bnd (on_shared flush_orig (lfs_file_flushedread c flush_orig 1)) (\<lambda>bs.
       bnd (mem_read bs 0 1) (\<lambda>dat.
       bnd (lfs_file_flushedwrite c x dat) (\<lambda>_.
       bnd (gets lfs_rcache) (\<lambda>r.
       bnd (if cache_block r \<noteq> LFS_BLOCK_NULL then
              bnd (upd_fcache flush_orig lfs_cache_drop) (\<lambda>_.
              modify (\<lambda>s. s\<lparr>lfs_rcache := lfs_cache_drop (lfs_rcache s)\<rparr>))
            else ret ()) (\<lambda>_.
       flush_copy c x n)))))
     else ret ())"

fun flush_write :: "'d lfs_config \<Rightarrow> obj_ref \<Rightarrow> nat \<Rightarrow> ('d lfs, unit) cmd" where
  "flush_write c x 0 = stuck Out_Of_Fuel"
| "flush_write c x (Suc n) =
     bnd (bad_block (on_fcaches x (lfs_bd_flush c True))) (\<lambda>bad.
     if bad then bnd (lfs_file_relocate c x) (\<lambda>_. flush_write c x n) else ret ())"

definition flush_data :: "'d lfs_config \<Rightarrow> obj_ref \<Rightarrow> ('d lfs, unit) cmd" where
  "flush_data c x =
     bnd (get_obj x) (\<lambda>f.
     bnd (gets lfs_rcache) (\<lambda>r.
     bnd (upd_obj flush_orig (\<lambda>_. f\<lparr>obj_id := 0, obj_type := 0, obj_m := mdir_zero,
            dir_pos := 0, dir_head := (0, 0),
            file_flags := LFS_O_RDONLY, file_block := 0, file_off := 0, file_cache := r,
            file_attrs := []\<rparr>)) (\<lambda>_.
     bnd (modify (\<lambda>s. s\<lparr>lfs_rcache := lfs_cache_drop (lfs_rcache s)\<rparr>)) (\<lambda>_.
     bnd (flush_copy c x (unat (ctz_size (file_ctz f) - file_pos f) + 1)) (\<lambda>_.
     bnd (gets lfs_free) (\<lambda>fr.
     flush_write c x (unat (free_ack fr) + 2)))))))"

definition lfs_file_flush :: "'d lfs_config \<Rightarrow> obj_ref \<Rightarrow> ('d lfs, unit) cmd" where
  "lfs_file_flush c x =
     bnd (get_obj x) (\<lambda>f.
     bnd (if has_flag f LFS_F_READING then
            bnd (if \<not> has_flag f LFS_F_INLINE then upd_fcache x lfs_cache_drop else ret ()) (\<lambda>_.
            upd_obj x (clear_flag LFS_F_READING))
          else ret ()) (\<lambda>_.
     if has_flag f LFS_F_WRITING then
       bnd (if \<not> has_flag f LFS_F_INLINE then flush_data c x
            else upd_obj x (\<lambda>f. f\<lparr>file_pos := lfs_max (file_pos f) (ctz_size (file_ctz f))\<rparr>)) (\<lambda>_.
       upd_obj x (\<lambda>g. set_flag LFS_F_DIRTY (clear_flag LFS_F_WRITING
         (g\<lparr>file_ctz := \<lparr>ctz_head = file_block g, ctz_size = file_pos g\<rparr>, file_pos := file_pos f\<rparr>))))
     else ret ()))"

section \<open>The operations of an open file\<close>

definition file_rawsize :: "lfs_object \<Rightarrow> u32" where
  "file_rawsize f = (if has_flag f LFS_F_WRITING then lfs_max (file_pos f) (ctz_size (file_ctz f))
                     else ctz_size (file_ctz f))"

definition lfs_file_rawsize :: "obj_ref \<Rightarrow> ('d lfs, u32) cmd" where
  "lfs_file_rawsize x = bnd (get_obj x) (\<lambda>f. ret (file_rawsize f))"

definition lfs_file_rawtell :: "obj_ref \<Rightarrow> ('d lfs, u32) cmd" where
  "lfs_file_rawtell x = bnd (get_obj x) (\<lambda>f. ret (file_pos f))"

definition lfs_file_rawread :: "'d lfs_config \<Rightarrow> obj_ref \<Rightarrow> u32 \<Rightarrow> ('d lfs, u8 list) cmd" where
  "lfs_file_rawread c x sz =
     bnd (get_obj x) (\<lambda>f.
     bnd (assertion (file_flags f AND LFS_O_RDONLY = LFS_O_RDONLY)) (\<lambda>_.
     bnd (if has_flag f LFS_F_WRITING then lfs_file_flush c x else ret ()) (\<lambda>_.
     lfs_file_flushedread c x sz)))"

text \<open>Filling the gap after the end of the file with zeros, up to the position \<open>pos\<close>.\<close>

fun write_zeros :: "'d lfs_config \<Rightarrow> obj_ref \<Rightarrow> u32 \<Rightarrow> nat \<Rightarrow> ('d lfs, unit) cmd" where
  "write_zeros c x pos 0 = stuck Out_Of_Fuel"
| "write_zeros c x pos (Suc n) =
     bnd (get_obj x) (\<lambda>f.
     if file_pos f < pos then bnd (lfs_file_flushedwrite c x [0]) (\<lambda>_. write_zeros c x pos n)
     else ret ())"

definition lfs_file_rawwrite :: "'d lfs_config \<Rightarrow> obj_ref \<Rightarrow> u8 list \<Rightarrow> ('d lfs, u32) cmd" where
  "lfs_file_rawwrite c x data =
     bnd (get_obj x) (\<lambda>f.
     bnd (assertion (file_flags f AND LFS_O_WRONLY = LFS_O_WRONLY)) (\<lambda>_.
     bnd (if has_flag f LFS_F_READING then lfs_file_flush c x else ret ()) (\<lambda>_.
     bnd (upd_obj x (\<lambda>f. if has_flag f LFS_O_APPEND \<and> file_pos f < ctz_size (file_ctz f)
                          then f\<lparr>file_pos := ctz_size (file_ctz f)\<rparr> else f)) (\<lambda>_.
     bnd (get_obj x) (\<lambda>f.
     bnd (gets lfs_file_max) (\<lambda>fmax.
     if fmax < file_pos f + of_nat (length data) then throw LFS_ERR_FBIG
     else
       bnd (if \<not> has_flag f LFS_F_WRITING \<and> ctz_size (file_ctz f) < file_pos f then
              bnd (upd_obj x (\<lambda>f. f\<lparr>file_pos := ctz_size (file_ctz f)\<rparr>)) (\<lambda>_.
              write_zeros c x (file_pos f) (unat (file_pos f - ctz_size (file_ctz f)) + 1))
            else ret ()) (\<lambda>_.
       bnd (lfs_file_flushedwrite c x data) (\<lambda>nsize.
       bnd (upd_obj x (clear_flag LFS_F_ERRED)) (\<lambda>_.
       ret nsize)))))))))"

text \<open>Addition of signed integers of 32 bits.\<close>

definition signed_add :: "u32 \<Rightarrow> u32 \<Rightarrow> ('s, u32) cmd" where
  "signed_add a b =
     (let r = sint a + sint b
      in if - (2 ^ 31) \<le> r \<and> r < 2 ^ 31 then ret (word_of_int r) else stuck Signed_Overflow)"

datatype lfs_whence = LFS_SEEK_SET | LFS_SEEK_CUR | LFS_SEEK_END

text \<open>The new position; \<open>off\<close> is a signed integer.\<close>

definition seek_target :: "lfs_object \<Rightarrow> u32 \<Rightarrow> lfs_whence \<Rightarrow> ('s, u32) cmd" where
  "seek_target f off whence = (case whence of
      LFS_SEEK_SET \<Rightarrow> ret off
    | LFS_SEEK_CUR \<Rightarrow>
        bnd (signed_add (file_pos f) off) (\<lambda>r.
        if sint r < 0 then throw LFS_ERR_INVAL else ret (file_pos f + off))
    | LFS_SEEK_END \<Rightarrow>
        bnd (signed_add (file_rawsize f) off) (\<lambda>r.
        if sint r < 0 then throw LFS_ERR_INVAL else ret r))"

definition lfs_file_rawseek :: "'d lfs_config \<Rightarrow> obj_ref \<Rightarrow> u32 \<Rightarrow> lfs_whence \<Rightarrow> ('d lfs, u32) cmd" where
  "lfs_file_rawseek c x off whence =
     bnd (get_obj x) (\<lambda>f.
     bnd (seek_target f off whence) (\<lambda>npos.
     bnd (gets lfs_file_max) (\<lambda>fmax.
     if fmax < npos then throw LFS_ERR_INVAL
     else if file_pos f = npos then ret npos
     else
       let (oindex, _) = lfs_ctz_index c (file_pos f); (nindex, noff) = lfs_ctz_index c npos
       in if \<not> has_flag f LFS_F_WRITING \<and> oindex = nindex \<and> cache_off (file_cache f) \<le> noff \<and>
             noff < cache_off (file_cache f) + cache_size (file_cache f)
          then bnd (upd_obj x (\<lambda>f. f\<lparr>file_pos := npos, file_off := noff\<rparr>)) (\<lambda>_. ret npos)
          else
            bnd (lfs_file_flush c x) (\<lambda>_.
            bnd (upd_obj x (\<lambda>f. f\<lparr>file_pos := npos\<rparr>)) (\<lambda>_. ret npos)))))"

definition lfs_file_rawrewind :: "'d lfs_config \<Rightarrow> obj_ref \<Rightarrow> ('d lfs, unit) cmd" where
  "lfs_file_rawrewind c x = bnd (lfs_file_rawseek c x 0 LFS_SEEK_SET) (\<lambda>_. ret ())"

definition LFS_FILE_MAX :: u32 where
  "LFS_FILE_MAX = 2147483647"

fun truncate_zeros :: "'d lfs_config \<Rightarrow> obj_ref \<Rightarrow> u32 \<Rightarrow> nat \<Rightarrow> ('d lfs, unit) cmd" where
  "truncate_zeros c x sz 0 = stuck Out_Of_Fuel"
| "truncate_zeros c x sz (Suc n) =
     bnd (get_obj x) (\<lambda>f.
     if file_pos f < sz then bnd (lfs_file_rawwrite c x [0]) (\<lambda>_. truncate_zeros c x sz n)
     else ret ())"

definition lfs_file_rawtruncate :: "'d lfs_config \<Rightarrow> obj_ref \<Rightarrow> u32 \<Rightarrow> ('d lfs, unit) cmd" where
  "lfs_file_rawtruncate c x sz =
     bnd (get_obj x) (\<lambda>f.
     bnd (assertion (file_flags f AND LFS_O_WRONLY = LFS_O_WRONLY)) (\<lambda>_.
     if LFS_FILE_MAX < sz then throw LFS_ERR_INVAL
     else
       let oldsize = file_rawsize f
       in bnd (if sz < oldsize then
                 bnd (lfs_file_flush c x) (\<lambda>_.
                 bnd (get_obj x) (\<lambda>g.
                 bnd (on_fcache x (lfs_ctz_find c None (ctz_head (file_ctz g)) (ctz_size (file_ctz g)) sz))
                   (\<lambda>(block, off).
                 upd_obj x (\<lambda>g. set_flag (LFS_F_DIRTY OR LFS_F_READING)
                   (g\<lparr>file_block := block, file_off := off, file_pos := sz,
                      file_ctz := \<lparr>ctz_head = block, ctz_size = sz\<rparr>\<rparr>)))))
               else if oldsize < sz then
                 bnd (lfs_file_rawseek c x 0 LFS_SEEK_END) (\<lambda>_.
                 truncate_zeros c x sz (unat sz + 1))
               else ret ()) (\<lambda>_.
          bnd (lfs_file_rawseek c x (file_pos f) LFS_SEEK_SET) (\<lambda>_. ret ()))))"

end
