(* ===== verification/LFS_Compact.thy ===== *)
theory LFS_Compact
  imports LFS_Commit LFS_File LFS_Fs
begin

text \<open>
  Committing to a directory, \<^verbatim>\<open>src/src/lfs/lfs.c\<close> from \<^verbatim>\<open>lfs_dir_split\<close> to
  \<^verbatim>\<open>lfs_dir_orphaningcommit\<close>: compaction into the other block of the pair, splitting, the
  relocation of a bad or worn block, and the repair of the objects that are open.  The directory of
  a compaction is a local variable of the callers and is returned; that of
  \<open>lfs_dir_orphaningcommit\<close> is the directory of an object, which may be in the list of open objects.
\<close>

section \<open>Compaction\<close>

datatype lfs_ok = LFS_OK | LFS_OK_RELOCATED | LFS_OK_DROPPED | LFS_OK_ORPHANED

definition metadata_end :: "'z lfs_geometry_scheme \<Rightarrow> u32" where
  "metadata_end c = (if cfg_metadata_max c \<noteq> 0 then cfg_metadata_max c else cfg_block_size c) - 8"

text \<open>The change of the global state that a commit carries, without the number of orphans.\<close>

definition commit_delta :: "bool \<Rightarrow> ('d lfs, lfs_gstate) cmd" where
  "commit_delta relocated =
     gets (\<lambda>s.
       let d = (if relocated then gstate_zero
                else lfs_gstate_xor (lfs_gstate_xor gstate_zero (lfs_gdisk s)) (lfs_gstate s));
           d = lfs_gstate_xor d (lfs_gdelta s)
       in d\<lparr>gs_tag := gs_tag d AND NOT (LFS_MKTAG 0 0 0x3ff)\<rparr>)"

definition commit_gstate :: "'d lfs_config \<Rightarrow> lfs_gstate \<Rightarrow> ('d, unit) commit_cmd" where
  "commit_gstate c delta =
     lfs_dir_commitattr c (LFS_MKTAG LFS_TYPE_MOVESTATE 0x3ff 12) (Buf_Mem (gstate_bytes (lfs_gstate_tole32 delta)))"

definition tail_tag :: "bool \<Rightarrow> u32" where
  "tail_tag split = LFS_MKTAG (LFS_TYPE_TAIL + (if split then 1 else 0)) 0x3ff 8"

definition pair_buffer :: "pair \<Rightarrow> mattr_buffer" where
  "pair_buffer p = Buf_Mem (pair_bytes (lfs_pair_tole32 p))"

text \<open>
  Writing the contents: the revision, the unique tags, the tail, the global state and the
  checksum.  True when the block is bad.  The callback of the traversal never stops it.
\<close>

definition compact_write ::
  "'d lfs_config \<Rightarrow> lfs_mdir \<Rightarrow> lfs_mattr list \<Rightarrow> lfs_mdir \<Rightarrow> u16 \<Rightarrow> u16 \<Rightarrow> bool \<Rightarrow> ('d, bool) commit_cmd" where
  "compact_write c dir attrs source begin_id end_id relocated =
     bnd (bad_block (
       bnd (lfs_dir_commitprog c (u32_bytes (lfs_tole32 (md_rev dir)))) (\<lambda>_.
       bnd (lfs_dir_traverse c source 0 0xffffffff attrs (LFS_MKTAG 0x400 0x3ff 0)
              (LFS_MKTAG LFS_TYPE_NAME 0 0) begin_id end_id (- begin_id) (lfs_dir_commit_commit c)) (\<lambda>_.
       if \<not> lfs_pair_isnull (md_tail dir)
       then lfs_dir_commitattr c (tail_tag (md_split dir)) (pair_buffer (md_tail dir)) else ret ())))) (\<lambda>bad.
     if bad then ret True
     else
       bnd (on_fst (commit_delta relocated)) (\<lambda>d0.
       bnd (on_fst (lfs_dir_getgstate c dir d0)) (\<lambda>delta.
       bad_block (
         bnd (if \<not> lfs_gstate_iszero delta then commit_gstate c delta else ret ()) (\<lambda>_.
         lfs_dir_commitcrc c)))))"

text \<open>One attempt; None when the block is bad.\<close>

definition compact_try ::
  "'d lfs_config \<Rightarrow> lfs_mdir \<Rightarrow> lfs_mattr list \<Rightarrow> lfs_mdir \<Rightarrow> u16 \<Rightarrow> u16 \<Rightarrow> bool \<Rightarrow>
     ('d lfs, lfs_mdir option) cmd" where
  "compact_try c dir attrs source begin_id end_id relocated =
     bnd (bad_block (on_dev (lfs_bd_erase c (snd (md_pair dir))))) (\<lambda>bad.
     if bad then ret None
     else
       bnd (run_data \<lparr>cm_block = snd (md_pair dir), cm_off = 0, cm_ptag = 0xffffffff, cm_crc = 0xffffffff,
                      cm_begin = 0, cm_end = metadata_end c\<rparr>
              (compact_write c dir attrs source begin_id end_id relocated)) (\<lambda>(bad, cm).
       if bad then ret None
       else
         bnd (assertion (cm_off cm mod cfg_prog_size c = 0)) (\<lambda>_.
         bnd (modify (\<lambda>s. s\<lparr>lfs_gdelta := gstate_zero,
                lfs_gdisk := (if relocated then lfs_gdisk s else lfs_gstate s)\<rparr>)) (\<lambda>_.
         ret (Some (dir\<lparr>md_pair := lfs_pair_swap (md_pair dir), md_count := end_id - begin_id,
                       md_off := cm_off cm, md_etag := cm_ptag cm\<rparr>))))))"

text \<open>
  The loop until a compaction sticks; \<open>go\<close> says that the next turn starts at the label
  \<^verbatim>\<open>relocate\<close>.  Every relocation but the first takes a block of the allocator.
\<close>

fun compact_loop ::
  "'d lfs_config \<Rightarrow> lfs_mattr list \<Rightarrow> lfs_mdir \<Rightarrow> u16 \<Rightarrow> u16 \<Rightarrow> nat \<Rightarrow> bool \<Rightarrow> bool \<Rightarrow> bool \<Rightarrow> lfs_mdir \<Rightarrow>
     ('d lfs, lfs_mdir \<times> bool) cmd" where
  "compact_loop c attrs source begin_id end_id 0 go relocated tired dir = stuck Out_Of_Fuel"
| "compact_loop c attrs source begin_id end_id (Suc n) go relocated tired dir =
     bnd (if go then ret None else compact_try c dir attrs source begin_id end_id relocated) (\<lambda>r. case r of
         Some dir' \<Rightarrow> ret (dir', relocated)
       | None \<Rightarrow>
           bnd (modify (\<lambda>s. s\<lparr>lfs_pcache := lfs_cache_drop (lfs_pcache s)\<rparr>)) (\<lambda>_.
           if \<not> lfs_pair_cmp (md_pair dir) (0, 1) then throw LFS_ERR_NOSPC
           else
             bnd (attempt (lfs_alloc c)) (\<lambda>a. case a of
                 Inl e \<Rightarrow>
                   if e \<noteq> LFS_ERR_NOSPC \<or> \<not> tired then throw e
                   else compact_loop c attrs source begin_id end_id n False True False dir
               | Inr block \<Rightarrow>
                   compact_loop c attrs source begin_id end_id n False True False
                     (dir\<lparr>md_pair := (fst (md_pair dir), block)\<rparr>))))"

text \<open>The result says whether the pair has been relocated.\<close>

definition lfs_dir_compact ::
  "'d lfs_config \<Rightarrow> lfs_mdir \<Rightarrow> lfs_mattr list \<Rightarrow> lfs_mdir \<Rightarrow> u16 \<Rightarrow> u16 \<Rightarrow>
     ('d lfs, lfs_mdir \<times> bool) cmd" where
  "lfs_dir_compact c dir attrs source begin_id end_id =
     (let tired = lfs_dir_needsrelocation c dir; dir' = dir\<lparr>md_rev := md_rev dir + 1\<rparr>
      in bnd (gets lfs_free) (\<lambda>fr.
         compact_loop c attrs source begin_id end_id (unat (free_ack fr) + 3)
           (tired \<and> lfs_pair_cmp (md_pair dir') (0, 1)) False tired dir'))"

section \<open>Splitting\<close>

definition lfs_dir_split ::
  "'d lfs_config \<Rightarrow> lfs_mdir \<Rightarrow> lfs_mattr list \<Rightarrow> lfs_mdir \<Rightarrow> u16 \<Rightarrow> u16 \<Rightarrow> ('d lfs, lfs_mdir) cmd" where
  "lfs_dir_split c dir attrs source split end_id =
     bnd (lfs_dir_alloc c) (\<lambda>tail0.
     bnd (lfs_dir_compact c (tail0\<lparr>md_split := md_split dir, md_tail := md_tail dir\<rparr>) attrs source
            split end_id) (\<lambda>(tail, _).
     bnd (modify (\<lambda>s. if \<not> lfs_pair_cmp (md_pair dir) (lfs_root s) \<and> split = 0
            then s\<lparr>lfs_root := md_pair tail\<rparr> else s)) (\<lambda>_.
     ret (dir\<lparr>md_tail := md_pair tail, md_split := True\<rparr>))))"

text \<open>The size of the tags of a range of ids, and the first id of the half that fits.\<close>

definition commit_range_size ::
  "'d lfs_config \<Rightarrow> lfs_mattr list \<Rightarrow> lfs_mdir \<Rightarrow> u32 \<Rightarrow> u16 \<Rightarrow> ('d lfs, u32) cmd" where
  "commit_range_size c attrs source split end_id =
     bnd (run_data 0 (lfs_dir_traverse c source 0 0xffffffff attrs (LFS_MKTAG 0x400 0x3ff 0)
            (LFS_MKTAG LFS_TYPE_NAME 0 0) (ucast split) end_id (ucast (- split)) lfs_dir_commit_size))
       (\<lambda>(_, sz). ret sz)"

fun find_split ::
  "'d lfs_config \<Rightarrow> lfs_mattr list \<Rightarrow> lfs_mdir \<Rightarrow> u16 \<Rightarrow> nat \<Rightarrow> u32 \<Rightarrow> ('d lfs, u32) cmd" where
  "find_split c attrs source end_id 0 split = stuck Out_Of_Fuel"
| "find_split c attrs source end_id (Suc n) split =
     (if 1 < ucast end_id - split then
        bnd (commit_range_size c attrs source split end_id) (\<lambda>sz.
        if ucast end_id - split < 0xff \<and>
           sz \<le> lfs_min (cfg_block_size c - 36)
                  (lfs_alignup ((if cfg_metadata_max c \<noteq> 0 then cfg_metadata_max c else cfg_block_size c) div 2)
                     (cfg_prog_size c))
        then ret split
        else find_split c attrs source end_id n (split + (ucast end_id - split) div 2))
      else ret split)"

text \<open>Splitting off the end until the rest fits; the end of the rest.\<close>

fun splitting_loop ::
  "'d lfs_config \<Rightarrow> lfs_mattr list \<Rightarrow> lfs_mdir \<Rightarrow> u16 \<Rightarrow> nat \<Rightarrow> u16 \<Rightarrow> lfs_mdir \<Rightarrow>
     ('d lfs, lfs_mdir \<times> u16) cmd" where
  "splitting_loop c attrs source begin_id 0 end_id dir = stuck Out_Of_Fuel"
| "splitting_loop c attrs source begin_id (Suc n) end_id dir =
     bnd (find_split c attrs source end_id (unat end_id + 1) (ucast begin_id)) (\<lambda>split.
     if split = ucast begin_id then ret (dir, end_id)
     else
       bnd (attempt (lfs_dir_split c dir attrs source (ucast split) end_id)) (\<lambda>r. case r of
           Inl e \<Rightarrow> if e \<noteq> LFS_ERR_NOSPC then throw e else ret (dir, end_id)
         | Inr dir' \<Rightarrow> splitting_loop c attrs source begin_id n (ucast split) dir'))"

definition lfs_dir_splittingcompact ::
  "'d lfs_config \<Rightarrow> lfs_mdir \<Rightarrow> lfs_mattr list \<Rightarrow> lfs_mdir \<Rightarrow> u16 \<Rightarrow> u16 \<Rightarrow>
     ('d lfs, lfs_mdir \<times> bool) cmd" where
  "lfs_dir_splittingcompact c dir attrs source begin_id end_id =
     bnd (splitting_loop c attrs source begin_id (unat end_id + 1) end_id dir) (\<lambda>(dir1, end1).
     bnd (if lfs_dir_needsrelocation c dir1 \<and> \<not> lfs_pair_cmp (md_pair dir1) (0, 1) then
            bnd (lfs_fs_rawsize c) (\<lambda>sz.
            if sz < cfg_block_count c div 2 then
              bnd (attempt (lfs_dir_split c dir1 attrs source begin_id end1)) (\<lambda>r. case r of
                  Inl e \<Rightarrow> if e \<noteq> LFS_ERR_NOSPC then throw e else ret (dir1, end1)
                | Inr dir2 \<Rightarrow> ret (dir2, begin_id))
            else ret (dir1, end1))
          else ret (dir1, end1)) (\<lambda>(dir3, end3).
     lfs_dir_compact c dir3 attrs source begin_id end3))"

section \<open>Committing\<close>

text \<open>The changes that attributes make to the directory, and whether they delete an entry.\<close>

fun commit_changes :: "lfs_mattr list \<Rightarrow> lfs_mdir \<times> bool \<Rightarrow> ('s, lfs_mdir \<times> bool) cmd" where
  "commit_changes [] (dir, hasdelete) = ret (dir, hasdelete)"
| "commit_changes (a # as) (dir, hasdelete) =
     (let tag = mattr_tag a in
      if lfs_tag_type3 tag = LFS_TYPE_CREATE then
        commit_changes as (dir\<lparr>md_count := md_count dir + 1\<rparr>, hasdelete)
      else if lfs_tag_type3 tag = LFS_TYPE_DELETE then
        bnd (assertion (0 < md_count dir)) (\<lambda>_.
        commit_changes as (dir\<lparr>md_count := md_count dir - 1\<rparr>, True))
      else if lfs_tag_type1 tag = LFS_TYPE_TAIL then
        case mattr_buffer a of
          Buf_Mem bs \<Rightarrow>
            bnd (mem_read bs 0 8) (\<lambda>xs.
            commit_changes as (dir\<lparr>md_tail := lfs_pair_fromle32 (pair_of_bytes xs),
                                  md_split := bit (lfs_tag_chunk tag) 0\<rparr>, hasdelete))
        | _ \<Rightarrow> stuck Out_Of_Bounds
      else commit_changes as (dir, hasdelete))"

text \<open>An attempt that ends with a compaction when the block is bad or full; true then.\<close>

definition no_room :: "('s, unit) cmd \<Rightarrow> ('s, bool) cmd" where
  "no_room m = bnd (attempt m) (\<lambda>r. case r of
      Inl e \<Rightarrow> if e = LFS_ERR_NOSPC \<or> e = LFS_ERR_CORRUPT then ret True else throw e
    | Inr _ \<Rightarrow> ret False)"

text \<open>Appending to the log of an erased block.\<close>

definition append_write ::
  "'d lfs_config \<Rightarrow> lfs_mdir \<Rightarrow> lfs_mattr list \<Rightarrow> ('d, bool) commit_cmd" where
  "append_write c dir attrs =
     bnd (no_room (bnd (lfs_dir_traverse c dir (md_off dir) (md_etag dir) attrs 0 0 0 0 0
            (lfs_dir_commit_commit c)) (\<lambda>_. ret ()))) (\<lambda>full.
     if full then ret True
     else
       bnd (on_fst (commit_delta False)) (\<lambda>d0.
       bnd (if \<not> lfs_gstate_iszero d0 then
              bnd (on_fst (lfs_dir_getgstate c dir d0)) (\<lambda>delta. no_room (commit_gstate c delta))
            else ret False) (\<lambda>full.
       if full then ret True else no_room (lfs_dir_commitcrc c))))"

definition append_try ::
  "'d lfs_config \<Rightarrow> lfs_mdir \<Rightarrow> lfs_mattr list \<Rightarrow> ('d lfs, lfs_mdir option) cmd" where
  "append_try c dir attrs =
     bnd (run_data \<lparr>cm_block = fst (md_pair dir), cm_off = md_off dir, cm_ptag = md_etag dir,
                    cm_crc = 0xffffffff, cm_begin = md_off dir, cm_end = metadata_end c\<rparr>
            (append_write c dir attrs)) (\<lambda>(full, cm).
     if full then ret None
     else
       bnd (assertion (cm_off cm mod cfg_prog_size c = 0)) (\<lambda>_.
       bnd (modify (\<lambda>s. s\<lparr>lfs_gdisk := lfs_gstate s, lfs_gdelta := gstate_zero\<rparr>)) (\<lambda>_.
       ret (Some (dir\<lparr>md_off := cm_off cm, md_etag := cm_ptag cm\<rparr>)))))"

text \<open>
  The objects that are open in the directory: \<open>self\<close> is the object whose directory the caller
  passed, for which the ids are not moved.
\<close>

fun fix_ids :: "lfs_mattr list \<Rightarrow> lfs_object \<Rightarrow> lfs_object" where
  "fix_ids [] d = d"
| "fix_ids (a # as) d =
     (let tag = mattr_tag a; i = lfs_tag_id tag; isdir = (ucast (obj_type d) = LFS_TYPE_DIR) in
      fix_ids as
       (if lfs_tag_type3 tag = LFS_TYPE_DELETE \<and> ucast (obj_id d) = i
        then d\<lparr>obj_m := (obj_m d)\<lparr>md_pair := (LFS_BLOCK_NULL, LFS_BLOCK_NULL)\<rparr>\<rparr>
        else if lfs_tag_type3 tag = LFS_TYPE_DELETE \<and> i < ucast (obj_id d)
        then d\<lparr>obj_id := obj_id d - 1, dir_pos := (if isdir then dir_pos d - 1 else dir_pos d)\<rparr>
        else if lfs_tag_type3 tag = LFS_TYPE_CREATE \<and> i \<le> ucast (obj_id d)
        then d\<lparr>obj_id := obj_id d + 1, dir_pos := (if isdir then dir_pos d + 1 else dir_pos d)\<rparr>
        else d))"

text \<open>Following the tail to where the id is; the chain of hard tails is bounded by the blocks.\<close>

fun fix_tail :: "'d lfs_config \<Rightarrow> obj_ref \<Rightarrow> nat \<Rightarrow> ('d lfs, unit) cmd" where
  "fix_tail c x 0 = stuck Out_Of_Fuel"
| "fix_tail c x (Suc n) =
     bnd (get_obj x) (\<lambda>d.
     if md_count (obj_m d) \<le> obj_id d \<and> md_split (obj_m d) then
       bnd (upd_obj x (\<lambda>d. d\<lparr>obj_id := obj_id d - md_count (obj_m d)\<rparr>)) (\<lambda>_.
       bnd (lfs_dir_fetch c (obj_m d) (md_tail (obj_m d))) (\<lambda>(m, e).
       bnd (set_m x m) (\<lambda>_.
       case e of Some err \<Rightarrow> throw err | None \<Rightarrow> fix_tail c x n)))
     else ret ())"

definition fix_object ::
  "'d lfs_config \<Rightarrow> obj_ref option \<Rightarrow> pair \<Rightarrow> lfs_mdir \<Rightarrow> lfs_mattr list \<Rightarrow> obj_ref \<Rightarrow> ('d lfs, unit) cmd" where
  "fix_object c self oldpair dir attrs x =
     bnd (get_obj x) (\<lambda>d.
     if \<not> lfs_pair_cmp (md_pair (obj_m d)) oldpair then
       bnd (upd_obj x (\<lambda>d.
              if self \<noteq> Some x then fix_ids attrs (d\<lparr>obj_m := dir\<rparr>) else d\<lparr>obj_m := dir\<rparr>)) (\<lambda>_.
       fix_tail c x (unat (cfg_block_count c) + 1))
     else ret ())"

text \<open>
  The commit of one pair.  The result is the directory, the predecessor when the pair was dropped,
  and what happened.
\<close>

definition relocating_write ::
  "'d lfs_config \<Rightarrow> lfs_mdir \<Rightarrow> lfs_mattr list \<Rightarrow> ('d lfs, lfs_mdir \<times> lfs_ok) cmd" where
  "relocating_write c dir attrs =
     bnd (if md_erased dir then append_try c dir attrs else ret None) (\<lambda>r. case r of
         Some dir' \<Rightarrow> ret (dir', LFS_OK)
       | None \<Rightarrow>
           bnd (modify (\<lambda>s. s\<lparr>lfs_pcache := lfs_cache_drop (lfs_pcache s)\<rparr>)) (\<lambda>_.
           bnd (lfs_dir_splittingcompact c dir attrs dir 0 (md_count dir)) (\<lambda>(dir', relocated).
           ret (dir', if relocated then LFS_OK_RELOCATED else LFS_OK))))"

definition lfs_dir_relocatingcommit ::
  "'d lfs_config \<Rightarrow> lfs_mdir \<Rightarrow> obj_ref option \<Rightarrow> pair \<Rightarrow> lfs_mattr list \<Rightarrow> lfs_mdir option \<Rightarrow>
     ('d lfs, lfs_mdir \<times> lfs_mdir option \<times> lfs_ok) cmd" where
  "lfs_dir_relocatingcommit c dir0 self pair attrs pdir0 =
     bnd (commit_changes attrs (dir0, False)) (\<lambda>(dir, hasdelete).
     bnd (if hasdelete \<and> md_count dir = 0 then
            case pdir0 of
              None \<Rightarrow> stuck Assert_Failed
            | Some pdir \<Rightarrow>
                bnd (lfs_fs_pred c (md_pair dir) pdir) (\<lambda>(pdir', e).
                if e \<noteq> None \<and> e \<noteq> Some LFS_ERR_NOENT then throw (the e)
                else ret (Some pdir', e = None \<and> md_split pdir'))
          else ret (pdir0, False)) (\<lambda>(pdir, drop).
     bnd (if drop then ret (dir, LFS_OK_DROPPED) else relocating_write c dir attrs) (\<lambda>(dir', state).
     bnd (gets lfs_mlist) (\<lambda>ml.
     bnd (for_each (fix_object c self pair dir' attrs) ml) (\<lambda>_.
     ret (dir', pdir, state))))))"

section \<open>Commits that orphan\<close>

text \<open>Inline files in the directory that are too big for their buffer are written out first.\<close>

definition evict_inline :: "'d lfs_config \<Rightarrow> obj_ref \<Rightarrow> obj_ref \<Rightarrow> ('d lfs, unit) cmd" where
  "evict_inline c self x =
     bnd (get_obj x) (\<lambda>f.
     bnd (get_obj self) (\<lambda>d.
     if self \<noteq> x \<and> \<not> lfs_pair_cmp (md_pair (obj_m f)) (md_pair (obj_m d)) \<and>
        ucast (obj_type f) = LFS_TYPE_REG \<and> has_flag f LFS_F_INLINE \<and>
        cfg_cache_size c < ctz_size (file_ctz f)
     then bnd (lfs_file_outline c x) (\<lambda>_. lfs_file_flush c x)
     else ret ()))"

text \<open>The objects that know the old pair by its name.\<close>

definition relocate_object :: "pair \<Rightarrow> pair \<Rightarrow> lfs_object \<Rightarrow> lfs_object" where
  "relocate_object lpair newpair d =
     (let d' = (if \<not> lfs_pair_cmp lpair (md_pair (obj_m d))
                then d\<lparr>obj_m := (obj_m d)\<lparr>md_pair := newpair\<rparr>\<rparr> else d)
      in if ucast (obj_type d') = LFS_TYPE_DIR \<and> \<not> lfs_pair_cmp lpair (dir_head d')
         then d'\<lparr>dir_head := newpair\<rparr> else d')"

text \<open>A pending move out of the pair that is about to be written is done with it.\<close>

definition relocate_move :: "lfs_mdir \<Rightarrow> ('d lfs, u16) cmd" where
  "relocate_move pdir =
     bnd (gets lfs_gstate) (\<lambda>g.
     if lfs_gstate_hasmovehere g (md_pair pdir) then
       bnd (lfs_fs_prepmove 0x3ff (0, 0)) (\<lambda>_. ret (ucast (lfs_tag_id (gs_tag g))))
     else ret 0x3ff)"

definition move_attr :: "u16 \<Rightarrow> lfs_mattr" where
  "move_attr moveid = \<lparr>mattr_tag = LFS_MKTAG_IF (moveid \<noteq> 0x3ff) LFS_TYPE_DELETE (ucast moveid) 0,
     mattr_buffer = Buf_Null\<rparr>"

text \<open>
  The parent's entry: \<open>Inl\<close> when the parent was relocated in turn, so that the loop goes on with it;
  otherwise whether there is a parent, and the last directory that was searched.
\<close>

definition relocate_parent ::
  "'d lfs_config \<Rightarrow> pair \<Rightarrow> lfs_mdir \<Rightarrow> lfs_mdir \<Rightarrow>
     ('d lfs, (pair \<times> lfs_mdir) + (bool \<times> lfs_mdir)) cmd" where
  "relocate_parent c lpair ldir pdir0 =
     bnd (lfs_fs_parent c lpair pdir0) (\<lambda>(pdir, res). case res of
         Inl e \<Rightarrow> if e \<noteq> LFS_ERR_NOENT then throw e else ret (Inr (False, pdir))
       | Inr tag \<Rightarrow>
           bnd (lfs_fs_preporphans 1) (\<lambda>_.
           bnd (relocate_move pdir) (\<lambda>moveid.
           let tag' = (if moveid \<noteq> 0x3ff \<and> ucast moveid < lfs_tag_id tag then tag - LFS_MKTAG 0 1 0 else tag);
               ppair = md_pair pdir
           in bnd (lfs_dir_relocatingcommit c pdir None ppair
                     [move_attr moveid, \<lparr>mattr_tag = tag', mattr_buffer = pair_buffer (md_pair ldir)\<rparr>] None)
                (\<lambda>(pdir', _, state).
              ret (if state = LFS_OK_RELOCATED then Inl (ppair, pdir') else Inr (True, pdir'))))))"

text \<open>The predecessor's tail; None when there is no predecessor, since the pair is new.\<close>

definition relocate_pred ::
  "'d lfs_config \<Rightarrow> pair \<Rightarrow> lfs_mdir \<Rightarrow> lfs_mdir \<Rightarrow> bool \<Rightarrow>
     ('d lfs, (pair \<times> lfs_mdir \<times> lfs_ok) option) cmd" where
  "relocate_pred c lpair ldir pdir0 hasparent =
     bnd (lfs_fs_pred c lpair pdir0) (\<lambda>(pdir, e).
     if e \<noteq> None \<and> e \<noteq> Some LFS_ERR_NOENT then throw (the e)
     else
       bnd (assertion (\<not> (hasparent \<and> e = Some LFS_ERR_NOENT))) (\<lambda>_.
       if e = Some LFS_ERR_NOENT then ret None
       else
         bnd (gets lfs_gstate) (\<lambda>g.
         bnd (if lfs_gstate_hasorphans g then lfs_fs_preporphans (if hasparent then - 1 else 0) else ret ()) (\<lambda>_.
         bnd (relocate_move pdir) (\<lambda>moveid.
         bnd (lfs_dir_relocatingcommit c pdir None (md_pair pdir)
                [move_attr moveid,
                 \<lparr>mattr_tag = tail_tag (md_split pdir), mattr_buffer = pair_buffer (md_pair ldir)\<rparr>] None)
           (\<lambda>(pdir', _, state).
         ret (Some (md_pair pdir, pdir', state))))))))"

text \<open>
  The loop while pairs are relocated, whose result says whether it has created orphans.  A chain
  of relocations goes through different pairs, so the blocks bound it.
\<close>

fun relocation_loop ::
  "'d lfs_config \<Rightarrow> nat \<Rightarrow> lfs_ok \<Rightarrow> pair \<Rightarrow> lfs_mdir \<Rightarrow> lfs_mdir \<Rightarrow> bool \<Rightarrow> ('d lfs, bool) cmd" where
  "relocation_loop c 0 state lpair ldir pdir orphans = stuck Out_Of_Fuel"
| "relocation_loop c (Suc n) state lpair ldir pdir orphans =
     (if state \<noteq> LFS_OK_RELOCATED then ret orphans
      else
        bnd (modify (\<lambda>s. if \<not> lfs_pair_cmp lpair (lfs_root s) then s\<lparr>lfs_root := md_pair ldir\<rparr> else s)) (\<lambda>_.
        bnd (gets lfs_mlist) (\<lambda>ml.
        bnd (for_each (\<lambda>x. upd_obj x (relocate_object lpair (md_pair ldir))) ml) (\<lambda>_.
        bnd (relocate_parent c lpair ldir pdir) (\<lambda>r. case r of
            Inl (ppair, pdir') \<Rightarrow> relocation_loop c n LFS_OK_RELOCATED ppair pdir' pdir' True
          | Inr (hasparent, pdir') \<Rightarrow>
              bnd (relocate_pred c lpair ldir pdir' hasparent) (\<lambda>r. case r of
                  None \<Rightarrow> ret orphans
                | Some (lpair', pdir'', state') \<Rightarrow>
                    relocation_loop c n state' lpair' pdir'' pdir'' orphans))))))"

text \<open>True when the commit may have created orphans.\<close>

definition lfs_dir_orphaningcommit ::
  "'d lfs_config \<Rightarrow> obj_ref \<Rightarrow> lfs_mattr list \<Rightarrow> ('d lfs, bool) cmd" where
  "lfs_dir_orphaningcommit c self attrs =
     bnd (gets lfs_mlist) (\<lambda>ml.
     bnd (for_each (evict_inline c self) ml) (\<lambda>_.
     bnd (get_obj self) (\<lambda>d.
     let lpair = md_pair (obj_m d) in
     bnd (lfs_dir_relocatingcommit c (obj_m d) (Some self) lpair attrs (Some mdir_zero)) (\<lambda>(ldir, pdir0, state).
     let pdir = the pdir0 in
     bnd (upd_obj self (\<lambda>d. if \<not> lfs_pair_cmp (md_pair (obj_m d)) lpair then d\<lparr>obj_m := ldir\<rparr> else d)) (\<lambda>_.
     bnd (if state = LFS_OK_DROPPED then
            bnd (get_obj self) (\<lambda>d.
            bnd (gets lfs_gdelta) (\<lambda>g.
            bnd (lfs_dir_getgstate c (obj_m d) g) (\<lambda>g'.
            bnd (modify (\<lambda>s. s\<lparr>lfs_gdelta := g'\<rparr>)) (\<lambda>_.
            bnd (lfs_dir_relocatingcommit c pdir None (md_pair pdir)
                   [\<lparr>mattr_tag = tail_tag (md_split (obj_m d)),
                     mattr_buffer = pair_buffer (md_tail (obj_m d))\<rparr>] None) (\<lambda>(pdir', _, state').
            ret (state', md_pair pdir, pdir', pdir'))))))
          else ret (state, lpair, ldir, pdir)) (\<lambda>(state', lpair', ldir', pdir').
     relocation_loop c (unat (cfg_block_count c) + 2) state' lpair' ldir' pdir' False))))))"

end
