(* ===== verification/LFS_Consistency.thy ===== *)
theory LFS_Consistency
  imports LFS_Compact
begin

text \<open>
  Repairing the file system after a loss of power and after commits that orphan:
  \<^verbatim>\<open>lfs_fs_deorphan\<close>, \<^verbatim>\<open>lfs_dir_commit\<close>, \<^verbatim>\<open>lfs_dir_drop\<close>, \<^verbatim>\<open>lfs_fs_demove\<close> and
  \<^verbatim>\<open>lfs_fs_forceconsistency\<close> of \<^verbatim>\<open>src/src/lfs/lfs.c\<close>.  A local directory that is committed to
  is the directory of a local object, named after the function and the variable.
\<close>

definition fetch_into :: "'d lfs_config \<Rightarrow> obj_ref \<Rightarrow> pair \<Rightarrow> ('d lfs, unit) cmd" where
  "fetch_into c x pair =
     bnd (get_obj x) (\<lambda>d.
     bnd (lfs_dir_fetch c (obj_m d) pair) (\<lambda>(m, e).
     bnd (set_m x m) (\<lambda>_.
     case e of None \<Rightarrow> ret () | Some err \<Rightarrow> throw err)))"

section \<open>Orphans\<close>

definition deorphan_pdir :: obj_ref where
  "deorphan_pdir = Local ''lfs_fs_deorphan.pdir''"

definition deorphan_start :: lfs_mdir where
  "deorphan_start = mdir_zero\<lparr>md_split := True, md_tail := (0, 1)\<rparr>"

text \<open>
  What a pass does with the pair at the tail of \<open>pdir\<close>: go on to it, look at the tail of \<open>pdir\<close>
  again after a fix, or start again since the fix has created orphans.
\<close>

datatype deorphan_next = Deorphan_Next | Deorphan_Refetch | Deorphan_Restart

definition deorphan_commit :: "'d lfs_config \<Rightarrow> lfs_mattr list \<Rightarrow> ('d lfs, deorphan_next) cmd" where
  "deorphan_commit c attrs =
     bnd (lfs_dir_orphaningcommit c deorphan_pdir attrs) (\<lambda>orphaned.
     ret (if orphaned then Deorphan_Restart else Deorphan_Refetch))"

text \<open>A full orphan: no directory has the pair, which is only a fault after a loss of power.\<close>

definition fix_orphan :: "'d lfs_config \<Rightarrow> lfs_mdir \<Rightarrow> ('d lfs, deorphan_next) cmd" where
  "fix_orphan c dir =
     bnd (gets lfs_gdelta) (\<lambda>g.
     bnd (lfs_dir_getgstate c dir g) (\<lambda>g'.
     bnd (modify (\<lambda>s. s\<lparr>lfs_gdelta := g'\<rparr>)) (\<lambda>_.
     deorphan_commit c [\<lparr>mattr_tag = tail_tag (md_split dir), mattr_buffer = pair_buffer (md_tail dir)\<rparr>])))"

text \<open>A half-orphan: the parent has another pair than the list.\<close>

definition fix_half_orphan :: "'d lfs_config \<Rightarrow> lfs_mdir \<Rightarrow> pair \<Rightarrow> ('d lfs, deorphan_next) cmd" where
  "fix_half_orphan c pdir pair =
     bnd (relocate_move pdir) (\<lambda>moveid.
     deorphan_commit c [move_attr moveid,
       \<lparr>mattr_tag = LFS_MKTAG LFS_TYPE_SOFTTAIL 0x3ff 8, mattr_buffer = pair_buffer pair\<rparr>])"

definition deorphan_check ::
  "'d lfs_config \<Rightarrow> bool \<Rightarrow> lfs_mdir \<Rightarrow> lfs_mdir \<Rightarrow> ('d lfs, deorphan_next) cmd" where
  "deorphan_check c powerloss pdir dir =
     (if md_split pdir then ret Deorphan_Next
      else
        bnd (lfs_fs_parent c (md_tail pdir) mdir_zero) (\<lambda>(parent, res). case res of
            Inl e \<Rightarrow>
              if e \<noteq> LFS_ERR_NOENT then throw e
              else if powerloss then fix_orphan c dir
              else ret Deorphan_Next
          | Inr tag \<Rightarrow>
              bnd (lfs_dir_get c parent (LFS_MKTAG 0x7ff 0x3ff 0) tag) (\<lambda>(_, bs).
              let pair = lfs_pair_fromle32 (pair_of_bytes bs)
              in if \<not> lfs_pair_sync pair (md_tail pdir) then fix_half_orphan c pdir pair
                 else ret Deorphan_Next)))"

text \<open>
  The passes; \<open>found\<close> is an int8.  The code has no test for a cycle of the list, on which its
  loop does not end; the fuel is enough for a pass over all blocks after every fix of one of them.
\<close>

fun deorphan_loop :: "'d lfs_config \<Rightarrow> bool \<Rightarrow> nat \<Rightarrow> lfs_mdir \<Rightarrow> u8 \<Rightarrow> ('d lfs, u8) cmd" where
  "deorphan_loop c powerloss 0 dir found = stuck Out_Of_Fuel"
| "deorphan_loop c powerloss (Suc n) dir found =
     bnd (get_obj deorphan_pdir) (\<lambda>p.
     let pdir = obj_m p in
     if lfs_pair_isnull (md_tail pdir) then ret found
     else
       bnd (lfs_dir_fetch c dir (md_tail pdir)) (\<lambda>(dir', e). case e of
           Some err \<Rightarrow> throw err
         | None \<Rightarrow>
             bnd (deorphan_check c powerloss pdir dir') (\<lambda>nx. case nx of
                 Deorphan_Next \<Rightarrow>
                   bnd (set_m deorphan_pdir dir') (\<lambda>_. deorphan_loop c powerloss n dir' found)
               | Deorphan_Refetch \<Rightarrow> deorphan_loop c powerloss n dir' (found + 1)
               | Deorphan_Restart \<Rightarrow>
                   bnd (set_m deorphan_pdir deorphan_start) (\<lambda>_.
                   deorphan_loop c powerloss n dir' (found + 1)))))"

definition lfs_fs_deorphan :: "'d lfs_config \<Rightarrow> bool \<Rightarrow> ('d lfs, unit) cmd" where
  "lfs_fs_deorphan c powerloss =
     bnd (gets lfs_gstate) (\<lambda>g.
     if \<not> lfs_gstate_hasorphans g then ret ()
     else
       bnd (set_m deorphan_pdir deorphan_start) (\<lambda>_.
       bnd (deorphan_loop c powerloss ((unat (cfg_block_count c) + 2) * (unat (cfg_block_count c) + 2))
              mdir_zero 0) (\<lambda>found.
       bnd (gets lfs_gstate) (\<lambda>g'.
       lfs_fs_preporphans (ucast (- lfs_min (ucast (lfs_gstate_getorphans g')) (scast found)))))))"

section \<open>Commits, drops and moves\<close>

definition lfs_dir_commit :: "'d lfs_config \<Rightarrow> obj_ref \<Rightarrow> lfs_mattr list \<Rightarrow> ('d lfs, unit) cmd" where
  "lfs_dir_commit c dir attrs =
     bnd (lfs_dir_orphaningcommit c dir attrs) (\<lambda>orphans.
     if orphans then lfs_fs_deorphan c False else ret ())"

definition lfs_dir_drop :: "'d lfs_config \<Rightarrow> obj_ref \<Rightarrow> lfs_mdir \<Rightarrow> ('d lfs, unit) cmd" where
  "lfs_dir_drop c dir tail =
     bnd (gets lfs_gdelta) (\<lambda>g.
     bnd (lfs_dir_getgstate c tail g) (\<lambda>g'.
     bnd (modify (\<lambda>s. s\<lparr>lfs_gdelta := g'\<rparr>)) (\<lambda>_.
     lfs_dir_commit c dir
       [\<lparr>mattr_tag = tail_tag (md_split tail), mattr_buffer = pair_buffer (md_tail tail)\<rparr>])))"

definition demove_movedir :: obj_ref where
  "demove_movedir = Local ''lfs_fs_demove.movedir''"

definition delete_attr :: "u32 \<Rightarrow> lfs_mattr" where
  "delete_attr i = \<lparr>mattr_tag = LFS_MKTAG LFS_TYPE_DELETE i 0, mattr_buffer = Buf_Null\<rparr>"

definition lfs_fs_demove :: "'d lfs_config \<Rightarrow> ('d lfs, unit) cmd" where
  "lfs_fs_demove c =
     bnd (gets lfs_gdisk) (\<lambda>g.
     if \<not> lfs_gstate_hasmove g then ret ()
     else
       bnd (fetch_into c demove_movedir (gs_pair g)) (\<lambda>_.
       bnd (gets lfs_gdisk) (\<lambda>g.
       bnd (lfs_fs_prepmove 0x3ff (0, 0)) (\<lambda>_.
       lfs_dir_commit c demove_movedir [delete_attr (lfs_tag_id (gs_tag g))]))))"

definition lfs_fs_forceconsistency :: "'d lfs_config \<Rightarrow> ('d lfs, unit) cmd" where
  "lfs_fs_forceconsistency c = bnd (lfs_fs_demove c) (\<lambda>_. lfs_fs_deorphan c True)"

end
