(* ===== verification/LFS_Dirs.thy ===== *)
theory LFS_Dirs
  imports LFS_Consistency LFS_Path
begin

text \<open>
  Directories, \<^verbatim>\<open>src/src/lfs/lfs.c\<close> from \<^verbatim>\<open>lfs_rawmkdir\<close> to \<^verbatim>\<open>lfs_dir_rawrewind\<close>.  A path is
  its bytes without the terminating zero.
\<close>

definition find_into ::
  "'d lfs_config \<Rightarrow> obj_ref \<Rightarrow> u8 list \<Rightarrow> ('d lfs, u8 list \<times> u16 \<times> (lfs_error + u32)) cmd" where
  "find_into c x path =
     bnd (get_obj x) (\<lambda>d.
     bnd (lfs_dir_find c (obj_m d) path) (\<lambda>(m, path', i, res).
     bnd (set_m x m) (\<lambda>_. ret (path', i, res))))"

definition set_mlist :: "obj_ref list \<Rightarrow> ('d lfs, unit) cmd" where
  "set_mlist l = modify (\<lambda>s. s\<lparr>lfs_mlist := l\<rparr>)"

section \<open>Creating a directory\<close>

definition mkdir_cwd :: obj_ref where "mkdir_cwd = Local ''lfs_rawmkdir.cwd''"
definition mkdir_dir :: obj_ref where "mkdir_dir = Local ''lfs_rawmkdir.dir''"
definition mkdir_pred :: obj_ref where "mkdir_pred = Local ''lfs_rawmkdir.pred''"

text \<open>The last pair of a directory; the chain of hard tails is bounded by the blocks.\<close>

fun last_pair :: "'d lfs_config \<Rightarrow> obj_ref \<Rightarrow> nat \<Rightarrow> ('d lfs, unit) cmd" where
  "last_pair c x 0 = stuck Out_Of_Fuel"
| "last_pair c x (Suc n) =
     bnd (get_obj x) (\<lambda>d.
     if md_split (obj_m d) then bnd (fetch_into c x (md_tail (obj_m d))) (\<lambda>_. last_pair c x n)
     else ret ())"

definition softtail_attr :: "pair \<Rightarrow> lfs_mattr" where
  "softtail_attr p = \<lparr>mattr_tag = LFS_MKTAG LFS_TYPE_SOFTTAIL 0x3ff 8, mattr_buffer = pair_buffer p\<rparr>"

text \<open>
  The predecessor's tail, when the directory has more than one pair: the parent is linked into the
  list of open objects for the time of the commit.
\<close>

definition mkdir_desync :: "'d lfs_config \<Rightarrow> pair \<Rightarrow> ('d lfs, unit) cmd" where
  "mkdir_desync c pair =
     bnd (lfs_fs_preporphans 1) (\<lambda>_.
     bnd (gets lfs_mlist) (\<lambda>ml.
     bnd (upd_obj mkdir_cwd (\<lambda>d. d\<lparr>obj_type := 0, obj_id := 0\<rparr>)) (\<lambda>_.
     bnd (set_mlist (mkdir_cwd # ml)) (\<lambda>_.
     bnd (attempt (lfs_dir_commit c mkdir_pred [softtail_attr pair])) (\<lambda>r.
     bnd (set_mlist ml) (\<lambda>_.
     case r of Inl e \<Rightarrow> throw e | Inr _ \<Rightarrow> lfs_fs_preporphans (- 1)))))))"

definition lfs_rawmkdir :: "'d lfs_config \<Rightarrow> u8 list \<Rightarrow> ('d lfs, unit) cmd" where
  "lfs_rawmkdir c path0 =
     bnd (lfs_fs_forceconsistency c) (\<lambda>_.
     bnd (find_into c mkdir_cwd path0) (\<lambda>(path, i, res).
     if \<not> (res = Inl LFS_ERR_NOENT \<and> i \<noteq> 0x3ff)
     then throw (case res of Inl e \<Rightarrow> e | Inr _ \<Rightarrow> LFS_ERR_EXIST)
     else
       bnd (gets lfs_name_max) (\<lambda>nmax.
       let nlen = of_nat (length path) in
       if nmax < nlen then throw LFS_ERR_NAMETOOLONG
       else
         bnd (lfs_alloc_ack c) (\<lambda>_.
         bnd (lfs_dir_alloc c) (\<lambda>dir0.
         bnd (set_m mkdir_dir dir0) (\<lambda>_.
         bnd (get_obj mkdir_cwd) (\<lambda>cwd.
         bnd (set_m mkdir_pred (obj_m cwd)) (\<lambda>_.
         bnd (last_pair c mkdir_pred (unat (cfg_block_count c) + 1)) (\<lambda>_.
         bnd (get_obj mkdir_pred) (\<lambda>pred.
         bnd (lfs_dir_commit c mkdir_dir [softtail_attr (md_tail (obj_m pred))]) (\<lambda>_.
         bnd (get_obj mkdir_dir) (\<lambda>dir.
         let pair = md_pair (obj_m dir) in
         bnd (if md_split (obj_m cwd) then mkdir_desync c pair else ret ()) (\<lambda>_.
         bnd (get_obj mkdir_cwd) (\<lambda>cwd.
         lfs_dir_commit c mkdir_cwd
           [\<lparr>mattr_tag = LFS_MKTAG LFS_TYPE_CREATE (ucast i) 0, mattr_buffer = Buf_Null\<rparr>,
            \<lparr>mattr_tag = LFS_MKTAG LFS_TYPE_DIR (ucast i) nlen, mattr_buffer = Buf_Mem path\<rparr>,
            \<lparr>mattr_tag = LFS_MKTAG LFS_TYPE_DIRSTRUCT (ucast i) 8, mattr_buffer = pair_buffer pair\<rparr>,
            \<lparr>mattr_tag = LFS_MKTAG_IF (\<not> md_split (obj_m cwd)) LFS_TYPE_SOFTTAIL 0x3ff 8,
             mattr_buffer = pair_buffer pair\<rparr>]))))))))))))))"

section \<open>Open directories\<close>

definition lfs_dir_rawopen :: "'d lfs_config \<Rightarrow> obj_ref \<Rightarrow> u8 list \<Rightarrow> ('d lfs, unit) cmd" where
  "lfs_dir_rawopen c x path0 =
     bnd (find_into c x path0) (\<lambda>(_, _, res). case res of
         Inl e \<Rightarrow> throw e
       | Inr tag \<Rightarrow>
           if lfs_tag_type3 tag \<noteq> LFS_TYPE_DIR then throw LFS_ERR_NOTDIR
           else
             bnd (get_obj x) (\<lambda>d.
             bnd (if lfs_tag_id tag = 0x3ff then gets lfs_root
                  else bnd (lfs_dir_get c (obj_m d) (LFS_MKTAG 0x700 0x3ff 0)
                         (LFS_MKTAG LFS_TYPE_STRUCT (lfs_tag_id tag) 8)) (\<lambda>(_, bs).
                       ret (lfs_pair_fromle32 (pair_of_bytes bs)))) (\<lambda>pair.
             bnd (fetch_into c x pair) (\<lambda>_.
             bnd (upd_obj x (\<lambda>d. d\<lparr>dir_head := md_pair (obj_m d), obj_id := 0, dir_pos := 0,
                               obj_type := ucast LFS_TYPE_DIR\<rparr>)) (\<lambda>_.
             modify (lfs_mlist_append x))))))"

definition lfs_dir_rawclose :: "obj_ref \<Rightarrow> ('d lfs, unit) cmd" where
  "lfs_dir_rawclose x = modify (lfs_mlist_remove x)"

definition LFS_NAME_MAX :: u32 where
  "LFS_NAME_MAX = 1022"

definition info_zero :: lfs_info where
  "info_zero = \<lparr>info_type = 0, info_size = 0, info_name = replicate (unat (LFS_NAME_MAX + 1)) 0\<rparr>"

text \<open>\<^verbatim>\<open>strcpy\<close> of a name and its terminating zero.\<close>

definition info_dir :: "u8 list \<Rightarrow> lfs_info" where
  "info_dir name = info_zero\<lparr>info_type := ucast LFS_TYPE_DIR,
     info_name := patch (info_name info_zero) 0 (name @ [0])\<rparr>"

definition dir_next_pos :: "obj_ref \<Rightarrow> ('d lfs, unit) cmd" where
  "dir_next_pos x = upd_obj x (\<lambda>d. d\<lparr>dir_pos := dir_pos d + 1\<rparr>)"

text \<open>The next entry that is not deleted, over the pairs of the directory; None at the end.\<close>

fun dir_read_loop :: "'d lfs_config \<Rightarrow> obj_ref \<Rightarrow> nat \<Rightarrow> ('d lfs, lfs_info option) cmd" where
  "dir_read_loop c x 0 = stuck Out_Of_Fuel"
| "dir_read_loop c x (Suc n) =
     bnd (get_obj x) (\<lambda>d.
     if obj_id d = md_count (obj_m d) \<and> \<not> md_split (obj_m d) then ret None
     else
       bnd (if obj_id d = md_count (obj_m d) then
              bnd (fetch_into c x (md_tail (obj_m d))) (\<lambda>_. upd_obj x (\<lambda>d. d\<lparr>obj_id := 0\<rparr>))
            else ret ()) (\<lambda>_.
       bnd (get_obj x) (\<lambda>d.
       bnd (attempt (lfs_dir_getinfo c (obj_m d) (obj_id d) info_zero)) (\<lambda>r. case r of
           Inl e \<Rightarrow>
             if e \<noteq> LFS_ERR_NOENT then throw e
             else bnd (upd_obj x (\<lambda>d. d\<lparr>obj_id := obj_id d + 1\<rparr>)) (\<lambda>_. dir_read_loop c x n)
         | Inr info \<Rightarrow>
             bnd (upd_obj x (\<lambda>d. d\<lparr>obj_id := obj_id d + 1\<rparr>)) (\<lambda>_. ret (Some info))))))"

definition dir_read_fuel :: "'z lfs_geometry_scheme \<Rightarrow> nat" where
  "dir_read_fuel c = (unat (cfg_block_count c) + 1) * 65536"

definition lfs_dir_rawread :: "'d lfs_config \<Rightarrow> obj_ref \<Rightarrow> ('d lfs, lfs_info option) cmd" where
  "lfs_dir_rawread c x =
     bnd (get_obj x) (\<lambda>d.
     if dir_pos d = 0 then bnd (dir_next_pos x) (\<lambda>_. ret (Some (info_dir [dot])))
     else if dir_pos d = 1 then bnd (dir_next_pos x) (\<lambda>_. ret (Some (info_dir [dot, dot])))
     else
       bnd (dir_read_loop c x (dir_read_fuel c)) (\<lambda>r. case r of
           None \<Rightarrow> ret None
         | Some info \<Rightarrow> bnd (dir_next_pos x) (\<lambda>_. ret (Some info))))"

definition lfs_dir_rawtell :: "obj_ref \<Rightarrow> ('d lfs, u32) cmd" where
  "lfs_dir_rawtell x = bnd (get_obj x) (\<lambda>d. ret (dir_pos d))"

definition lfs_dir_rawrewind :: "'d lfs_config \<Rightarrow> obj_ref \<Rightarrow> ('d lfs, unit) cmd" where
  "lfs_dir_rawrewind c x =
     bnd (get_obj x) (\<lambda>d.
     bnd (fetch_into c x (dir_head d)) (\<lambda>_.
     upd_obj x (\<lambda>d. d\<lparr>obj_id := 0, dir_pos := 0\<rparr>)))"

fun dir_seek_loop :: "'d lfs_config \<Rightarrow> obj_ref \<Rightarrow> nat \<Rightarrow> u32 \<Rightarrow> ('d lfs, unit) cmd" where
  "dir_seek_loop c x 0 off = stuck Out_Of_Fuel"
| "dir_seek_loop c x (Suc n) off =
     (if 0 < off then
        bnd (get_obj x) (\<lambda>d.
        let diff = lfs_min (ucast (md_count (obj_m d)) - ucast (obj_id d)) off;
            d' = d\<lparr>obj_id := obj_id d + ucast diff, dir_pos := dir_pos d + diff\<rparr>
        in bnd (upd_obj x (\<lambda>_. d')) (\<lambda>_.
           if obj_id d' = md_count (obj_m d') then
             if \<not> md_split (obj_m d') then throw LFS_ERR_INVAL
             else
               bnd (fetch_into c x (md_tail (obj_m d'))) (\<lambda>_.
               bnd (upd_obj x (\<lambda>d. d\<lparr>obj_id := 0\<rparr>)) (\<lambda>_.
               dir_seek_loop c x n (off - diff)))
           else dir_seek_loop c x n (off - diff)))
      else ret ())"

text \<open>
  Walking from the head; the first two positions are those of dot and dot-dot, and the entry of the
  superblock has none.  A turn moves over an entry or to the next pair.
\<close>

definition lfs_dir_rawseek :: "'d lfs_config \<Rightarrow> obj_ref \<Rightarrow> u32 \<Rightarrow> ('d lfs, unit) cmd" where
  "lfs_dir_rawseek c x off =
     bnd (lfs_dir_rawrewind c x) (\<lambda>_.
     bnd (gets lfs_root) (\<lambda>root.
     let pos = lfs_min 2 off; off' = off - pos in
     bnd (upd_obj x (\<lambda>d. d\<lparr>dir_pos := pos,
            obj_id := (if 0 < off' \<and> \<not> lfs_pair_cmp (dir_head d) root then 1 else 0)\<rparr>)) (\<lambda>_.
     dir_seek_loop c x (unat off' + unat (cfg_block_count c) + 1) off')))"

end
