(* ===== verification/LFS_Files.thy ===== *)
theory LFS_Files
  imports LFS_Dirs
begin

text \<open>
  Opening, synchronising and closing files, and the operations on names and attributes,
  \<^verbatim>\<open>src/src/lfs/lfs.c\<close>: \<^verbatim>\<open>lfs_file_rawopencfg\<close>, \<^verbatim>\<open>lfs_file_rawclose\<close>, \<^verbatim>\<open>lfs_file_rawsync\<close>,
  \<^verbatim>\<open>lfs_rawstat\<close>, \<^verbatim>\<open>lfs_rawremove\<close>, \<^verbatim>\<open>lfs_rawrename\<close> and the functions on attributes.
  Memory is always available, so the model has no \<^verbatim>\<open>LFS_ERR_NOMEM\<close>.
\<close>

section \<open>Synchronising and closing\<close>

definition lfs_file_rawsync :: "'d lfs_config \<Rightarrow> obj_ref \<Rightarrow> ('d lfs, unit) cmd" where
  "lfs_file_rawsync c x =
     bnd (get_obj x) (\<lambda>f.
     if has_flag f LFS_F_ERRED then ret ()
     else
       bnd (set_ferr x (lfs_file_flush c x)) (\<lambda>_.
       bnd (get_obj x) (\<lambda>f.
       if has_flag f LFS_F_DIRTY \<and> \<not> lfs_pair_isnull (md_pair (obj_m f)) then
         let (type, buffer, sz) =
               (if has_flag f LFS_F_INLINE
                then (LFS_TYPE_INLINESTRUCT, Buf_Mem (cache_buffer (file_cache f)), ctz_size (file_ctz f))
                else (LFS_TYPE_CTZSTRUCT, Buf_Mem (ctz_bytes (lfs_ctz_tole32 (file_ctz f))), 8))
         in bnd (set_ferr x (lfs_dir_commit c x
                   [\<lparr>mattr_tag = LFS_MKTAG type (ucast (obj_id f)) sz, mattr_buffer = buffer\<rparr>,
                    \<lparr>mattr_tag = LFS_MKTAG LFS_FROM_USERATTRS (ucast (obj_id f)) (of_nat (length (file_attrs f))),
                     mattr_buffer = Buf_Attrs (file_attrs f)\<rparr>])) (\<lambda>_.
            upd_obj x (clear_flag LFS_F_DIRTY))
       else ret ())))"

definition lfs_file_rawclose :: "'d lfs_config \<Rightarrow> obj_ref \<Rightarrow> ('d lfs, unit) cmd" where
  "lfs_file_rawclose c x =
     bnd (attempt (lfs_file_rawsync c x)) (\<lambda>r.
     bnd (modify (lfs_mlist_remove x)) (\<lambda>_.
     case r of Inl e \<Rightarrow> throw e | Inr _ \<Rightarrow> ret ()))"

section \<open>Opening\<close>

text \<open>The entry of a file that does not exist yet.\<close>

definition open_create :: "'d lfs_config \<Rightarrow> obj_ref \<Rightarrow> u8 list \<Rightarrow> ('d lfs, u32) cmd" where
  "open_create c x path =
     bnd (get_obj x) (\<lambda>f.
     if \<not> has_flag f LFS_O_CREAT then throw LFS_ERR_NOENT
     else
       bnd (gets lfs_name_max) (\<lambda>nmax.
       let nlen = of_nat (length path); i = ucast (obj_id f) in
       if nmax < nlen then throw LFS_ERR_NAMETOOLONG
       else
         bnd (handle (lfs_dir_commit c x
                [\<lparr>mattr_tag = LFS_MKTAG LFS_TYPE_CREATE i 0, mattr_buffer = Buf_Null\<rparr>,
                 \<lparr>mattr_tag = LFS_MKTAG LFS_TYPE_REG i nlen, mattr_buffer = Buf_Mem path\<rparr>,
                 \<lparr>mattr_tag = LFS_MKTAG LFS_TYPE_INLINESTRUCT i 0, mattr_buffer = Buf_Null\<rparr>])
                (\<lambda>e. throw (if e = LFS_ERR_NOSPC then LFS_ERR_NAMETOOLONG else e))) (\<lambda>_.
         ret (LFS_MKTAG LFS_TYPE_INLINESTRUCT 0 0))))"

text \<open>The entry of a file that exists.\<close>

definition open_existing :: "'d lfs_config \<Rightarrow> obj_ref \<Rightarrow> u32 \<Rightarrow> ('d lfs, u32) cmd" where
  "open_existing c x tag =
     bnd (get_obj x) (\<lambda>f.
     if has_flag f LFS_O_EXCL then throw LFS_ERR_EXIST
     else if lfs_tag_type3 tag \<noteq> LFS_TYPE_REG then throw LFS_ERR_ISDIR
     else if has_flag f LFS_O_TRUNC then
       bnd (upd_obj x (set_flag LFS_F_DIRTY)) (\<lambda>_.
       ret (LFS_MKTAG LFS_TYPE_INLINESTRUCT (ucast (obj_id f)) 0))
     else
       bnd (lfs_dir_get c (obj_m f) (LFS_MKTAG 0x700 0x3ff 0)
              (LFS_MKTAG LFS_TYPE_STRUCT (ucast (obj_id f)) 8)) (\<lambda>(tag', bs).
       bnd (upd_obj x (\<lambda>f. f\<lparr>file_ctz := lfs_ctz_fromle32 (ctz_of_bytes bs)\<rparr>)) (\<lambda>_.
       ret tag')))"

text \<open>The attributes of the file configuration, one after the other.\<close>

fun open_attrs :: "'d lfs_config \<Rightarrow> obj_ref \<Rightarrow> nat list \<Rightarrow> ('d lfs, unit) cmd" where
  "open_attrs c x [] = ret ()"
| "open_attrs c x (k # ks) =
     bnd (get_obj x) (\<lambda>f.
     let (type, buf) = file_attrs f ! k; sz = of_nat (length buf) in
     bnd (if file_flags f AND LFS_O_RDONLY = LFS_O_RDONLY then
            bnd (attempt (lfs_dir_get c (obj_m f) (LFS_MKTAG 0x7ff 0x3ff 0)
                   (LFS_MKTAG (LFS_TYPE_USERATTR + ucast type) (ucast (obj_id f)) sz))) (\<lambda>r. case r of
                Inl e \<Rightarrow> if e \<noteq> LFS_ERR_NOENT then throw e else ret ()
              | Inr (_, bs) \<Rightarrow>
                  bnd (mem_write buf 0 bs) (\<lambda>buf'.
                  upd_obj x (\<lambda>f. f\<lparr>file_attrs := (file_attrs f)[k := (type, buf')]\<rparr>)))
          else ret ()) (\<lambda>_.
     bnd (if file_flags f AND LFS_O_WRONLY = LFS_O_WRONLY then
            bnd (gets lfs_attr_max) (\<lambda>amax.
            if amax < sz then throw LFS_ERR_NOSPC else upd_obj x (set_flag LFS_F_DIRTY))
          else ret ()) (\<lambda>_.
     open_attrs c x ks)))"

text \<open>The buffer of the file, with the contents of an inline file.\<close>

definition open_cache :: "'d lfs_config \<Rightarrow> obj_ref \<Rightarrow> u32 \<Rightarrow> ('d lfs, unit) cmd" where
  "open_cache c x tag =
     bnd (upd_fcache x (\<lambda>p. lfs_cache_zero c (p\<lparr>cache_buffer := replicate (unat (cfg_cache_size c)) 0\<rparr>))) (\<lambda>_.
     if lfs_tag_type3 tag = LFS_TYPE_INLINESTRUCT then
       bnd (upd_obj x (\<lambda>f. set_flag LFS_F_INLINE
              (f\<lparr>file_ctz := \<lparr>ctz_head = LFS_BLOCK_INLINE, ctz_size = lfs_tag_size tag\<rparr>\<rparr>))) (\<lambda>_.
       bnd (upd_fcache x (\<lambda>p. p\<lparr>cache_block := LFS_BLOCK_INLINE, cache_off := 0,
              cache_size := cfg_cache_size c\<rparr>)) (\<lambda>_.
       bnd (get_obj x) (\<lambda>f.
       if 0 < ctz_size (file_ctz f) then
         bnd (lfs_dir_get c (obj_m f) (LFS_MKTAG 0x700 0x3ff 0)
                (LFS_MKTAG LFS_TYPE_STRUCT (ucast (obj_id f)) (lfs_min (cache_size (file_cache f)) 0x3fe))) (\<lambda>(_, bs).
         bnd (mem_write (cache_buffer (file_cache f)) 0 bs) (\<lambda>buf.
         upd_fcache x (\<lambda>p. p\<lparr>cache_buffer := buf\<rparr>)))
       else ret ())))
     else ret ())"

definition open_body ::
  "'d lfs_config \<Rightarrow> obj_ref \<Rightarrow> u8 list \<Rightarrow> u32 \<Rightarrow> (u8 \<times> u8 list) list \<Rightarrow> ('d lfs, unit) cmd" where
  "open_body c x path0 flags attrs =
     bnd (upd_obj x (\<lambda>f. f\<lparr>file_attrs := attrs, file_flags := flags, file_pos := 0, file_off := 0\<rparr>)) (\<lambda>_.
     bnd (find_into c x path0) (\<lambda>(path, i, res).
     bnd (upd_obj x (\<lambda>f. f\<lparr>obj_id := i\<rparr>)) (\<lambda>_.
     if \<not> isl res \<or> res = Inl LFS_ERR_NOENT \<and> i \<noteq> 0x3ff then
       bnd (upd_obj x (\<lambda>f. f\<lparr>obj_type := ucast LFS_TYPE_REG\<rparr>)) (\<lambda>_.
       bnd (modify (lfs_mlist_append x)) (\<lambda>_.
       bnd (case res of Inl _ \<Rightarrow> open_create c x path | Inr tag \<Rightarrow> open_existing c x tag) (\<lambda>tag.
       bnd (open_attrs c x [0..<length attrs]) (\<lambda>_.
       open_cache c x tag))))
     else case res of Inl e \<Rightarrow> throw e | Inr _ \<Rightarrow> ret ())))"

definition lfs_file_rawopencfg ::
  "'d lfs_config \<Rightarrow> obj_ref \<Rightarrow> u8 list \<Rightarrow> u32 \<Rightarrow> (u8 \<times> u8 list) list \<Rightarrow> ('d lfs, unit) cmd" where
  "lfs_file_rawopencfg c x path flags attrs =
     bnd (if flags AND LFS_O_WRONLY = LFS_O_WRONLY then lfs_fs_forceconsistency c else ret ()) (\<lambda>_.
     bnd (attempt (open_body c x path flags attrs)) (\<lambda>r. case r of
         Inr _ \<Rightarrow> ret ()
       | Inl e \<Rightarrow>
           bnd (upd_obj x (set_flag LFS_F_ERRED)) (\<lambda>_.
           bnd (attempt (lfs_file_rawclose c x)) (\<lambda>_.
           throw e))))"

definition lfs_file_rawopen :: "'d lfs_config \<Rightarrow> obj_ref \<Rightarrow> u8 list \<Rightarrow> u32 \<Rightarrow> ('d lfs, unit) cmd" where
  "lfs_file_rawopen c x path flags = lfs_file_rawopencfg c x path flags []"

section \<open>Names\<close>

definition lfs_rawstat :: "'d lfs_config \<Rightarrow> u8 list \<Rightarrow> lfs_info \<Rightarrow> ('d lfs, lfs_info) cmd" where
  "lfs_rawstat c path info =
     bnd (lfs_dir_find c mdir_zero path) (\<lambda>(cwd, _, _, res). case res of
         Inl e \<Rightarrow> throw e
       | Inr tag \<Rightarrow> lfs_dir_getinfo c cwd (ucast (lfs_tag_id tag)) info)"

definition remove_cwd :: obj_ref where "remove_cwd = Local ''lfs_rawremove.cwd''"
definition remove_dir :: obj_ref where "remove_dir = Local ''lfs_rawremove.dir''"

text \<open>
  The directory behind a name that is to be removed: it has to be empty, the file system is marked
  as having an orphan, and the directory is linked into the list of open objects.
\<close>

definition unlink_dir :: "'d lfs_config \<Rightarrow> obj_ref \<Rightarrow> lfs_mdir \<Rightarrow> u32 \<Rightarrow> ('d lfs, unit) cmd" where
  "unlink_dir c x cwd i =
     bnd (lfs_dir_get c cwd (LFS_MKTAG 0x700 0x3ff 0) (LFS_MKTAG LFS_TYPE_STRUCT i 8)) (\<lambda>(_, bs).
     bnd (fetch_into c x (lfs_pair_fromle32 (pair_of_bytes bs))) (\<lambda>_.
     bnd (get_obj x) (\<lambda>d.
     if 0 < md_count (obj_m d) \<or> md_split (obj_m d) then throw LFS_ERR_NOTEMPTY
     else
       bnd (lfs_fs_preporphans 1) (\<lambda>_.
       bnd (upd_obj x (\<lambda>d. d\<lparr>obj_type := 0, obj_id := 0\<rparr>)) (\<lambda>_.
       bnd (gets lfs_mlist) (\<lambda>ml. set_mlist (x # ml)))))))"

text \<open>The orphan that the removal has left is taken out of the list of pairs.\<close>

definition drop_dir :: "'d lfs_config \<Rightarrow> obj_ref \<Rightarrow> obj_ref \<Rightarrow> ('d lfs, unit) cmd" where
  "drop_dir c cwd x =
     bnd (lfs_fs_preporphans (- 1)) (\<lambda>_.
     bnd (get_obj x) (\<lambda>d.
     bnd (get_obj cwd) (\<lambda>w.
     bnd (lfs_fs_pred c (md_pair (obj_m d)) (obj_m w)) (\<lambda>(m, e).
     bnd (set_m cwd m) (\<lambda>_.
     case e of Some err \<Rightarrow> throw err | None \<Rightarrow> lfs_dir_drop c cwd (obj_m d))))))"

text \<open>A commit after which the list of open objects is as it was, also when it fails.\<close>

definition commit_unlinked ::
  "'d lfs_config \<Rightarrow> obj_ref list \<Rightarrow> obj_ref \<Rightarrow> lfs_mattr list \<Rightarrow> ('d lfs, unit) cmd" where
  "commit_unlinked c ml x attrs = handle (lfs_dir_commit c x attrs) (\<lambda>e. bnd (set_mlist ml) (\<lambda>_. throw e))"

definition lfs_rawremove :: "'d lfs_config \<Rightarrow> u8 list \<Rightarrow> ('d lfs, unit) cmd" where
  "lfs_rawremove c path =
     bnd (lfs_fs_forceconsistency c) (\<lambda>_.
     bnd (find_into c remove_cwd path) (\<lambda>(_, _, res). case res of
         Inl e \<Rightarrow> throw e
       | Inr tag \<Rightarrow>
           if lfs_tag_id tag = 0x3ff then throw LFS_ERR_INVAL
           else
             bnd (gets lfs_mlist) (\<lambda>ml.
             bnd (get_obj remove_cwd) (\<lambda>cwd.
             bnd (if lfs_tag_type3 tag = LFS_TYPE_DIR
                  then unlink_dir c remove_dir (obj_m cwd) (lfs_tag_id tag) else ret ()) (\<lambda>_.
             bnd (commit_unlinked c ml remove_cwd [delete_attr (lfs_tag_id tag)]) (\<lambda>_.
             bnd (set_mlist ml) (\<lambda>_.
             if lfs_tag_type3 tag = LFS_TYPE_DIR then drop_dir c remove_cwd remove_dir else ret ())))))))"

definition rename_oldcwd :: obj_ref where "rename_oldcwd = Local ''lfs_rawrename.oldcwd''"
definition rename_newcwd :: obj_ref where "rename_newcwd = Local ''lfs_rawrename.newcwd''"
definition rename_prevdir :: obj_ref where "rename_prevdir = Local ''lfs_rawrename.prevdir''"

text \<open>
  The checks on the target of a renaming: \<open>Inl\<close> the old id after the insertion, or \<open>Inr\<close> when there is
  nothing to do.
\<close>

definition rename_check ::
  "'d lfs_config \<Rightarrow> u8 list \<Rightarrow> u32 \<Rightarrow> lfs_error + u32 \<Rightarrow> u16 \<Rightarrow> bool \<Rightarrow> ('d lfs, u16 + unit) cmd" where
  "rename_check c newpath oldtag prev newid samepair =
     (let newoldid = ucast (lfs_tag_id oldtag) in
      case prev of
        Inl _ \<Rightarrow>
          bnd (gets lfs_name_max) (\<lambda>nmax.
          if nmax < of_nat (length newpath) then throw LFS_ERR_NAMETOOLONG
          else ret (Inl (if samepair \<and> newid \<le> newoldid then newoldid + 1 else newoldid)))
      | Inr prevtag \<Rightarrow>
          if lfs_tag_type3 prevtag \<noteq> lfs_tag_type3 oldtag then throw LFS_ERR_ISDIR
          else if samepair \<and> newid = newoldid then ret (Inr ())
          else if lfs_tag_type3 prevtag = LFS_TYPE_DIR then
            bnd (get_obj rename_newcwd) (\<lambda>w.
            bnd (unlink_dir c rename_prevdir (obj_m w) (ucast newid)) (\<lambda>_. ret (Inl newoldid)))
          else ret (Inl newoldid))"

definition rename_commit ::
  "'d lfs_config \<Rightarrow> obj_ref list \<Rightarrow> u8 list \<Rightarrow> u32 \<Rightarrow> bool \<Rightarrow> u16 \<Rightarrow> u16 \<Rightarrow> bool \<Rightarrow> ('d lfs, unit) cmd" where
  "rename_commit c ml newpath oldtag exists newid newoldid samepair =
     bnd (get_obj rename_oldcwd) (\<lambda>old.
     bnd (if \<not> samepair then lfs_fs_prepmove newoldid (md_pair (obj_m old)) else ret ()) (\<lambda>_.
     bnd (commit_unlinked c ml rename_newcwd
            [\<lparr>mattr_tag = LFS_MKTAG_IF exists LFS_TYPE_DELETE (ucast newid) 0, mattr_buffer = Buf_Null\<rparr>,
             \<lparr>mattr_tag = LFS_MKTAG LFS_TYPE_CREATE (ucast newid) 0, mattr_buffer = Buf_Null\<rparr>,
             \<lparr>mattr_tag = LFS_MKTAG (lfs_tag_type3 oldtag) (ucast newid) (of_nat (length newpath)),
              mattr_buffer = Buf_Mem newpath\<rparr>,
             \<lparr>mattr_tag = LFS_MKTAG LFS_FROM_MOVE (ucast newid) (lfs_tag_id oldtag),
              mattr_buffer = Buf_Mdir (obj_m old)\<rparr>,
             \<lparr>mattr_tag = LFS_MKTAG_IF samepair LFS_TYPE_DELETE (ucast newoldid) 0,
              mattr_buffer = Buf_Null\<rparr>]) (\<lambda>_.
     bnd (gets lfs_gstate) (\<lambda>g.
     if \<not> samepair \<and> lfs_gstate_hasmove g then
       bnd (lfs_fs_prepmove 0x3ff (0, 0)) (\<lambda>_.
       commit_unlinked c ml rename_oldcwd [delete_attr (lfs_tag_id oldtag)])
     else ret ()))))"

definition lfs_rawrename :: "'d lfs_config \<Rightarrow> u8 list \<Rightarrow> u8 list \<Rightarrow> ('d lfs, unit) cmd" where
  "lfs_rawrename c oldpath newpath0 =
     bnd (lfs_fs_forceconsistency c) (\<lambda>_.
     bnd (find_into c rename_oldcwd oldpath) (\<lambda>(_, _, old). case old of
         Inl e \<Rightarrow> throw e
       | Inr oldtag \<Rightarrow>
           if lfs_tag_id oldtag = 0x3ff then throw LFS_ERR_INVAL
           else
             bnd (find_into c rename_newcwd newpath0) (\<lambda>(newpath, newid, prev).
             if (case prev of Inl e \<Rightarrow> \<not> (e = LFS_ERR_NOENT \<and> newid \<noteq> 0x3ff)
                  | Inr prevtag \<Rightarrow> lfs_tag_id prevtag = 0x3ff)
             then throw (case prev of Inl e \<Rightarrow> e | Inr _ \<Rightarrow> LFS_ERR_INVAL)
             else
               bnd (get_obj rename_oldcwd) (\<lambda>o1.
               bnd (get_obj rename_newcwd) (\<lambda>n1.
               bnd (gets lfs_mlist) (\<lambda>ml.
               let samepair = (\<not> lfs_pair_cmp (md_pair (obj_m o1)) (md_pair (obj_m n1))) in
               bnd (rename_check c newpath oldtag prev newid samepair) (\<lambda>r. case r of
                   Inr _ \<Rightarrow> ret ()
                 | Inl newoldid \<Rightarrow>
                     bnd (rename_commit c ml newpath oldtag (\<not> isl prev) newid newoldid samepair) (\<lambda>_.
                     bnd (set_mlist ml) (\<lambda>_.
                     if (case prev of Inl _ \<Rightarrow> False | Inr prevtag \<Rightarrow> lfs_tag_type3 prevtag = LFS_TYPE_DIR)
                     then drop_dir c rename_newcwd rename_prevdir else ret ())))))))))"

section \<open>Attributes\<close>

text \<open>The directory and the id of a path; the attributes of the root are those of the superblock.\<close>

definition find_attr_dir ::
  "'d lfs_config \<Rightarrow> obj_ref \<Rightarrow> u8 list \<Rightarrow> ('d lfs, u32) cmd" where
  "find_attr_dir c x path =
     bnd (find_into c x path) (\<lambda>(_, _, res). case res of
         Inl e \<Rightarrow> throw e
       | Inr tag \<Rightarrow>
           if lfs_tag_id tag = 0x3ff then bnd (gets lfs_root) (\<lambda>root. bnd (fetch_into c x root) (\<lambda>_. ret 0))
           else ret (lfs_tag_id tag))"

definition getattr_cwd :: obj_ref where "getattr_cwd = Local ''lfs_rawgetattr.cwd''"
definition commitattr_cwd :: obj_ref where "commitattr_cwd = Local ''lfs_commitattr.cwd''"

text \<open>The size of the attribute on disk, and the bytes that are written to the caller's buffer.\<close>

definition lfs_rawgetattr :: "'d lfs_config \<Rightarrow> u8 list \<Rightarrow> u8 \<Rightarrow> u32 \<Rightarrow> ('d lfs, u32 \<times> u8 list) cmd" where
  "lfs_rawgetattr c path type sz =
     bnd (find_attr_dir c getattr_cwd path) (\<lambda>i.
     bnd (get_obj getattr_cwd) (\<lambda>cwd.
     bnd (gets lfs_attr_max) (\<lambda>amax.
     bnd (handle (lfs_dir_get c (obj_m cwd) (LFS_MKTAG 0x7ff 0x3ff 0)
            (LFS_MKTAG (LFS_TYPE_USERATTR + ucast type) i (lfs_min sz amax)))
            (\<lambda>e. throw (if e = LFS_ERR_NOENT then LFS_ERR_NOATTR else e))) (\<lambda>(tag, bs).
     ret (lfs_tag_size tag, bs)))))"

definition lfs_commitattr ::
  "'d lfs_config \<Rightarrow> u8 list \<Rightarrow> u8 \<Rightarrow> mattr_buffer \<Rightarrow> u32 \<Rightarrow> ('d lfs, unit) cmd" where
  "lfs_commitattr c path type buffer sz =
     bnd (find_attr_dir c commitattr_cwd path) (\<lambda>i.
     lfs_dir_commit c commitattr_cwd
       [\<lparr>mattr_tag = LFS_MKTAG (LFS_TYPE_USERATTR + ucast type) i sz, mattr_buffer = buffer\<rparr>])"

definition lfs_rawsetattr ::
  "'d lfs_config \<Rightarrow> u8 list \<Rightarrow> u8 \<Rightarrow> u8 list \<Rightarrow> ('d lfs, unit) cmd" where
  "lfs_rawsetattr c path type data =
     bnd (gets lfs_attr_max) (\<lambda>amax.
     if amax < of_nat (length data) then throw LFS_ERR_NOSPC
     else lfs_commitattr c path type (Buf_Mem data) (of_nat (length data)))"

definition lfs_rawremoveattr :: "'d lfs_config \<Rightarrow> u8 list \<Rightarrow> u8 \<Rightarrow> ('d lfs, unit) cmd" where
  "lfs_rawremoveattr c path type = lfs_commitattr c path type Buf_Null 0x3ff"

end
