(* ===== verification/LFS_Mount.thy ===== *)
theory LFS_Mount
  imports LFS_Files
begin

text \<open>
  Setting up, formatting and mounting a file system, \<^verbatim>\<open>src/src/lfs/lfs.c\<close>: \<^verbatim>\<open>lfs_init\<close>,
  \<^verbatim>\<open>lfs_rawformat\<close> and \<^verbatim>\<open>lfs_rawmount\<close>.  Memory is always available; the contents of fresh
  memory, which the code overwrites before it reads them, are zeros.  \<^verbatim>\<open>lfs_deinit\<close> only frees
  memory.
\<close>

section \<open>Initialisation\<close>

definition LFS_ATTR_MAX :: u32 where
  "LFS_ATTR_MAX = 1022"

definition init_asserts :: "'z lfs_geometry_scheme \<Rightarrow> bool" where
  "init_asserts c \<longleftrightarrow>
     cfg_read_size c \<noteq> 0 \<and> cfg_prog_size c \<noteq> 0 \<and> cfg_cache_size c \<noteq> 0 \<and>
     cfg_cache_size c mod cfg_read_size c = 0 \<and> cfg_cache_size c mod cfg_prog_size c = 0 \<and>
     cfg_block_size c mod cfg_cache_size c = 0 \<and>
     4 * lfs_npw2 (0xffffffff div (cfg_block_size c - 2 * 4)) \<le> cfg_block_size c \<and>
     cfg_block_cycles c \<noteq> 0 \<and> 0 < cfg_lookahead_size c \<and> cfg_lookahead_size c mod 8 = 0 \<and>
     cfg_name_max c \<le> LFS_NAME_MAX \<and> cfg_file_max c \<le> LFS_FILE_MAX \<and> cfg_attr_max c \<le> LFS_ATTR_MAX \<and>
     cfg_metadata_max c \<le> cfg_block_size c"

definition fresh_cache :: "'d lfs_config \<Rightarrow> lfs_cache \<Rightarrow> lfs_cache" where
  "fresh_cache c p = lfs_cache_zero c (p\<lparr>cache_buffer := replicate (unat (cfg_cache_size c)) 0\<rparr>)"

definition init_state :: "'d lfs_config \<Rightarrow> 'd lfs \<Rightarrow> 'd lfs" where
  "init_state c s = s\<lparr>
     lfs_rcache := fresh_cache c (lfs_rcache s),
     lfs_pcache := fresh_cache c (lfs_pcache s),
     lfs_free := (lfs_free s)\<lparr>free_buffer := replicate (unat (cfg_lookahead_size c) div 4) 0\<rparr>,
     lfs_name_max := (if cfg_name_max c = 0 then LFS_NAME_MAX else cfg_name_max c),
     lfs_file_max := (if cfg_file_max c = 0 then LFS_FILE_MAX else cfg_file_max c),
     lfs_attr_max := (if cfg_attr_max c = 0 then LFS_ATTR_MAX else cfg_attr_max c),
     lfs_root := (LFS_BLOCK_NULL, LFS_BLOCK_NULL), lfs_mlist := [], lfs_seed := 0,
     lfs_gdisk := gstate_zero, lfs_gstate := gstate_zero, lfs_gdelta := gstate_zero\<rparr>"

definition lfs_init :: "'d lfs_config \<Rightarrow> ('d lfs, unit) cmd" where
  "lfs_init c = bnd (assertion (init_asserts c)) (\<lambda>_. modify (init_state c))"

section \<open>The superblock\<close>

definition LFS_DISK_VERSION :: u32 where
  "LFS_DISK_VERSION = 0x00020000"

definition LFS_DISK_VERSION_MAJOR :: u32 where
  "LFS_DISK_VERSION_MAJOR = 0xffff AND drop_bit 16 LFS_DISK_VERSION"

definition LFS_DISK_VERSION_MINOR :: u32 where
  "LFS_DISK_VERSION_MINOR = 0xffff AND LFS_DISK_VERSION"

definition littlefs_name :: "u8 list" where
  "littlefs_name = [0x6c, 0x69, 0x74, 0x74, 0x6c, 0x65, 0x66, 0x73]"

definition superblock_bytes :: "lfs_superblock \<Rightarrow> u8 list" where
  "superblock_bytes b = concat (map u32_bytes
     [sb_version b, sb_block_size b, sb_block_count b, sb_name_max b, sb_file_max b, sb_attr_max b])"

definition superblock_of_bytes :: "u8 list \<Rightarrow> lfs_superblock" where
  "superblock_of_bytes xs = \<lparr>sb_version = u32_of_bytes (seg xs 0 4), sb_block_size = u32_of_bytes (seg xs 4 4),
     sb_block_count = u32_of_bytes (seg xs 8 4), sb_name_max = u32_of_bytes (seg xs 12 4),
     sb_file_max = u32_of_bytes (seg xs 16 4), sb_attr_max = u32_of_bytes (seg xs 20 4)\<rparr>"

section \<open>Formatting\<close>

definition format_root :: obj_ref where
  "format_root = Local ''lfs_rawformat.root''"

definition format_lookahead :: "'d lfs_config \<Rightarrow> ('d lfs, unit) cmd" where
  "format_lookahead c =
     bnd (on_free (modify (\<lambda>fr. fr\<lparr>free_buffer := replicate (unat (cfg_lookahead_size c) div 4) 0, free_off := 0,
            free_size := lfs_min (8 * cfg_lookahead_size c) (cfg_block_count c), free_i := 0\<rparr>))) (\<lambda>_.
     lfs_alloc_ack c)"

definition lfs_rawformat :: "'d lfs_config \<Rightarrow> ('d lfs, unit) cmd" where
  "lfs_rawformat c =
     bnd (lfs_init c) (\<lambda>_.
     bnd (format_lookahead c) (\<lambda>_.
     bnd (lfs_dir_alloc c) (\<lambda>root.
     bnd (set_m format_root root) (\<lambda>_.
     bnd (gets (\<lambda>s. \<lparr>sb_version = LFS_DISK_VERSION, sb_block_size = cfg_block_size c,
            sb_block_count = cfg_block_count c, sb_name_max = lfs_name_max s,
            sb_file_max = lfs_file_max s, sb_attr_max = lfs_attr_max s\<rparr>)) (\<lambda>superblock.
     bnd (lfs_dir_commit c format_root
            [\<lparr>mattr_tag = LFS_MKTAG LFS_TYPE_CREATE 0 0, mattr_buffer = Buf_Null\<rparr>,
             \<lparr>mattr_tag = LFS_MKTAG LFS_TYPE_SUPERBLOCK 0 8, mattr_buffer = Buf_Mem littlefs_name\<rparr>,
             \<lparr>mattr_tag = LFS_MKTAG LFS_TYPE_INLINESTRUCT 0 24,
              mattr_buffer = Buf_Mem (superblock_bytes (lfs_superblock_tole32 superblock))\<rparr>]) (\<lambda>_.
     bnd (upd_obj format_root (\<lambda>d. d\<lparr>obj_m := (obj_m d)\<lparr>md_erased := False\<rparr>\<rparr>)) (\<lambda>_.
     bnd (lfs_dir_commit c format_root []) (\<lambda>_.
     fetch_into c format_root (0, 1)))))))))"

section \<open>Mounting\<close>

text \<open>A limit of the superblock replaces the configured one, which may not be lower; 0 stands for none.\<close>

definition check_limit :: "u32 \<Rightarrow> u32 \<Rightarrow> ('s, u32) cmd" where
  "check_limit sb limit =
     (if sb = 0 then ret limit else if limit < sb then throw LFS_ERR_INVAL else ret sb)"

definition check_superblock :: "'d lfs_config \<Rightarrow> lfs_superblock \<Rightarrow> ('d lfs, unit) cmd" where
  "check_superblock c sb =
     (if 0xffff AND drop_bit 16 (sb_version sb) \<noteq> LFS_DISK_VERSION_MAJOR \<or>
         LFS_DISK_VERSION_MINOR < 0xffff AND sb_version sb
      then throw LFS_ERR_INVAL
      else
        bnd (gets lfs_name_max) (\<lambda>nmax.
        bnd (check_limit (sb_name_max sb) nmax) (\<lambda>nmax'.
        bnd (modify (\<lambda>s. s\<lparr>lfs_name_max := nmax'\<rparr>)) (\<lambda>_.
        bnd (gets lfs_file_max) (\<lambda>fmax.
        bnd (check_limit (sb_file_max sb) fmax) (\<lambda>fmax'.
        bnd (modify (\<lambda>s. s\<lparr>lfs_file_max := fmax'\<rparr>)) (\<lambda>_.
        bnd (gets lfs_attr_max) (\<lambda>amax.
        bnd (check_limit (sb_attr_max sb) amax) (\<lambda>amax'.
        bnd (modify (\<lambda>s. s\<lparr>lfs_attr_max := amax'\<rparr>)) (\<lambda>_.
        if sb_block_count sb \<noteq> cfg_block_count c then throw LFS_ERR_INVAL
        else if sb_block_size sb \<noteq> cfg_block_size c then throw LFS_ERR_INVAL
        else ret ()))))))))))"

text \<open>One pair of the list: the superblock, when it has one, and the global state.\<close>

definition mount_pair :: "'d lfs_config \<Rightarrow> lfs_mdir \<Rightarrow> ('d lfs, lfs_mdir) cmd" where
  "mount_pair c dir =
     bnd (lfs_dir_fetchmatch c dir (md_tail dir) (LFS_MKTAG 0x7ff 0x3ff 0)
            (LFS_MKTAG LFS_TYPE_SUPERBLOCK 0 8) (lfs_dir_find_match c littlefs_name)) (\<lambda>(dir', _, res).
     case res of
       Inl e \<Rightarrow> throw e
     | Inr tag \<Rightarrow>
         bnd (if tag \<noteq> 0 \<and> \<not> lfs_tag_isdelete tag then
                bnd (modify (\<lambda>s. s\<lparr>lfs_root := md_pair dir'\<rparr>)) (\<lambda>_.
                bnd (lfs_dir_get c dir' (LFS_MKTAG 0x7ff 0x3ff 0) (LFS_MKTAG LFS_TYPE_INLINESTRUCT 0 24)) (\<lambda>(_, bs).
                check_superblock c (lfs_superblock_fromle32 (superblock_of_bytes bs))))
              else ret ()) (\<lambda>_.
         bnd (gets lfs_gstate) (\<lambda>g.
         bnd (lfs_dir_getgstate c dir' g) (\<lambda>g'.
         bnd (modify (\<lambda>s. s\<lparr>lfs_gstate := g'\<rparr>)) (\<lambda>_.
         ret dir')))))"

fun mount_loop :: "'d lfs_config \<Rightarrow> nat \<Rightarrow> u32 \<Rightarrow> lfs_mdir \<Rightarrow> ('d lfs, unit) cmd" where
  "mount_loop c 0 cycle dir = stuck Out_Of_Fuel"
| "mount_loop c (Suc n) cycle dir =
     (if lfs_pair_isnull (md_tail dir) then ret ()
      else if cfg_block_count c div 2 \<le> cycle then throw LFS_ERR_CORRUPT
      else bnd (mount_pair c dir) (\<lambda>dir'. mount_loop c n (cycle + 1) dir'))"

definition mount_gstate :: "lfs_gstate \<Rightarrow> lfs_gstate" where
  "mount_gstate g = g\<lparr>gs_tag := gs_tag g + (if lfs_tag_isvalid (gs_tag g) then 0 else 1)\<rparr>"

definition lfs_rawmount :: "'d lfs_config \<Rightarrow> ('d lfs, unit) cmd" where
  "lfs_rawmount c =
     bnd (lfs_init c) (\<lambda>_.
     bnd (mount_loop c (unat (cfg_block_count c div 2) + 2) 0 (mdir_zero\<lparr>md_tail := (0, 1)\<rparr>)) (\<lambda>_.
     bnd (gets lfs_root) (\<lambda>root.
     if lfs_pair_isnull root then throw LFS_ERR_INVAL
     else
       bnd (modify (\<lambda>s. s\<lparr>lfs_gstate := mount_gstate (lfs_gstate s), lfs_gdisk := mount_gstate (lfs_gstate s)\<rparr>)) (\<lambda>_.
       bnd (modify (\<lambda>s. s\<lparr>lfs_free := (lfs_free s)\<lparr>free_off := lfs_seed s mod cfg_block_count c\<rparr>\<rparr>)) (\<lambda>_.
       lfs_alloc_drop c)))))"

definition lfs_rawunmount :: "('d lfs, unit) cmd" where
  "lfs_rawunmount = ret ()"

end
