(* ===== verification/LFS_Safe.thy ===== *)
theory LFS_Safe
  imports LFS_Reads LFS_Mount
begin

text \<open>
  Operations that follow the list of metadata pairs are steady too: the searches for the
  predecessor and the parent of a pair, and mounting.  Mounting changes the state, so it only
  keeps what is on the device.
\<close>

section \<open>Comparing with the disk\<close>

lemma on_rcache_bnd: "on_rcache (bnd m k) = bnd (on_rcache m) (\<lambda>a. on_rcache (k a))"
  by (rule ext) (simp add: on_rcache_def zoom_def bnd_def split: prod.splits outcome.splits)

lemma on_rcache_ret: "on_rcache (ret a) = ret a"
  by (rule ext) (simp add: on_rcache_def zoom_def ret_def)

lemma steady_rcache_ret [steady_rules]: "reads c contents valid any (on_rcache (ret a))"
  by (simp add: on_rcache_ret disk.ret)

lemma on_rcache_if: "on_rcache (if b then m else k) = (if b then on_rcache m else on_rcache k)"
  by simp

context block_device begin

lemma steady_cmp_loop:
  assumes h: "unat sz \<le> unat hint" "unat hint \<le> unat (cfg_block_size c)"
    and o: "unat off \<le> unat (cfg_block_size c)" and len: "unat sz \<le> length data"
    and bs: "unat (cfg_block_size c) < 1073741824"
  shows "unat i \<le> unat sz \<Longrightarrow> unat sz - unat i < n \<Longrightarrow>
    reads c contents valid any (on_rcache (bd_cmp_loop c None hint b off data sz n i))"
proof (induction n arbitrary: i)
  case (Suc n)
  show ?case
  proof (cases "i < sz")
    case False
    then show ?thesis by (simp add: on_rcache_ret steady_rules)
  next
    case True
    define k where "k = lfs_min (sz - i) 8"
    have i: "unat i < unat sz" using True by (simp add: u32_less)
    have si: "unat (sz - i) = unat sz - unat i" "unat (hint - i) = unat hint - unat i"
      using i h by (auto intro!: unat_sub_u32)
    have k: "0 < unat k" "unat k \<le> unat sz - unat i" using i si by (auto simp: k_def unat_min_u32)
    have oi: "unat (off + i) = unat off + unat i" "unat (i + k) = unat i + unat k"
      using o i k h bs by (auto intro!: unat_add_u32)
    have fit: "unat i + unat k \<le> length data" using len k i by linarith
    have rd: "reads c contents valid any (on_rcache (lfs_bd_read c None (hint - i) b (off + i) k))"
      by (rule steady_read) (use si oi h i o k bs in auto)
    have "reads c contents valid any (on_rcache (bd_cmp_loop c None hint b off data sz n (i + k)))"
      by (rule Suc.IH) (use Suc.prems k oi in auto)
    then show ?thesis
      using rd
      by (simp add: True k_def [symmetric] Let_def mem_read_seg [OF fit] on_rcache_bnd on_rcache_if del: any)
        (intro steady_rules; assumption)
  qed
qed simp

lemma steady_cmp:
  assumes "unat sz \<le> unat hint" "unat hint \<le> unat (cfg_block_size c)"
    and "unat off \<le> unat (cfg_block_size c)" "unat sz \<le> length data"
    and "unat (cfg_block_size c) < 1073741824"
  shows "reads c contents valid any (on_rcache (lfs_bd_cmp c None hint b off data sz))"
  unfolding lfs_bd_cmp_def by (rule steady_cmp_loop) (use assms in auto)

end

section \<open>The callbacks of the searches\<close>

context readable_device begin

lemma cb_reads_find_match:
  assumes "length name \<le> unat (cfg_block_size c)"
  shows "cb_reads c contents valid fmask ftag (lfs_dir_find_match c name)"
  unfolding cb_reads_def
proof (intro allI impI)
  fix tag b off :: u32 assume off: "unat off \<le> unat (cfg_block_size c)"
  show "reads c contents valid any (lfs_dir_find_match c name tag b off)"
  proof (rule steady_sizes)
    assume bs: "8 \<le> unat (cfg_block_size c)" "unat (cfg_block_size c) < 1073741824"
    then have "unat (of_nat (length name) :: u32) = length name"
      using assms by (intro unat_of_nat_u32) simp
    then show "reads c contents valid any (lfs_dir_find_match c name tag b off)"
      unfolding lfs_dir_find_match_def Let_def
      by (intro steady_rules steady_cmp) (use assms off bs in \<open>auto simp: unat_min_u32\<close>)
  qed
qed

lemma cb_reads_parent_match: "cb_reads c contents valid fmask ftag (lfs_fs_parent_match c pair)"
  unfolding cb_reads_def
proof (intro allI impI)
  fix tag b off :: u32 assume off: "unat off \<le> unat (cfg_block_size c)"
  have rd: "reads c contents valid any (on_rcache (lfs_bd_read c (Some p) (cfg_block_size c) b off 8))"
    if "cache_inside c p" for p
    by (rule steady_sizes, rule steady_read) (use off that in auto)
  show "reads c contents valid any (lfs_fs_parent_match c pair tag b off)"
    unfolding lfs_fs_parent_match_def
    by (rule disk.bnd [where P = "cache_inside c"], rule disk.gets)
      (auto intro!: steady_rules rd dest: same_disk_on simp: same_disk_fields on_disk_def)
qed

section \<open>Predecessor and parent\<close>

lemma steady_pred_loop:
  "chain_fuel c n cycle \<Longrightarrow> log_inside c pdir \<Longrightarrow>
     reads c contents valid (\<lambda>x. log_inside c (fst x)) (pred_loop c pair n cycle pdir)"
proof (induction n arbitrary: cycle pdir)
  case (Suc n)
  have rest: "reads c contents valid (\<lambda>x. log_inside c (fst x)) (case x of (pdir', e) \<Rightarrow> case e of
      Some err \<Rightarrow> ret (pdir', Some err) | None \<Rightarrow> pred_loop c pair n (cycle + 1) pdir')"
    if "log_inside c (fst x)" and "\<not> cfg_block_count c div 2 \<le> cycle" for x
    using that chain_fuel_Suc [OF Suc.prems(1) that(2)]
    by (cases x) (auto intro!: steady_rules Suc.IH)
  show ?case
    unfolding pred_loop.simps
    by (intro steady_rules disk.bnd [OF steady_fetch [OF Suc.prems(2)]] rest) (use Suc.prems in auto)
qed (simp add: chain_fuel_def)

lemma steady_parent_loop:
  "chain_fuel c n cycle \<Longrightarrow> log_inside c parent \<Longrightarrow>
     reads c contents valid (\<lambda>x. log_inside c (fst x)) (parent_loop c pair n cycle parent)"
proof (induction n arbitrary: cycle parent)
  case (Suc n)
  have rest: "reads c contents valid (\<lambda>x. log_inside c (fst x)) (case x of (parent', _, res) \<Rightarrow>
      if res \<noteq> Inr 0 \<and> res \<noteq> Inl LFS_ERR_NOENT then ret (parent', res)
      else parent_loop c pair n (cycle + 1) parent')"
    if "log_inside c (fst x)" and "\<not> cfg_block_count c div 2 \<le> cycle" for x
    using that chain_fuel_Suc [OF Suc.prems(1) that(2)]
    by (cases x) (auto intro!: steady_rules Suc.IH)
  show ?case
    unfolding parent_loop.simps
    by (intro steady_rules disk.bnd [OF steady_fetchmatch [OF cb_reads_parent_match Suc.prems(2)]] rest)
      (use Suc.prems in auto)
qed (simp add: chain_fuel_def)

lemma steady_fs_pred:
  "log_inside c pdir \<Longrightarrow> reads c contents valid (\<lambda>x. log_inside c (fst x)) (lfs_fs_pred c pair pdir)"
  unfolding lfs_fs_pred_def by (intro steady_pred_loop chain_fuel_0) simp

lemma steady_fs_parent:
  "log_inside c parent \<Longrightarrow> reads c contents valid (\<lambda>x. log_inside c (fst x)) (lfs_fs_parent c pair parent)"
  unfolding lfs_fs_parent_def by (intro steady_parent_loop chain_fuel_0) simp

end

section \<open>Mounting\<close>

text \<open>What mounting keeps: the device has a valid state and its contents.\<close>

definition kept_contents ::
  "'z lfs_geometry_scheme \<Rightarrow> ('d \<Rightarrow> u32 \<Rightarrow> u8 list) \<Rightarrow> ('d \<Rightarrow> bool) \<Rightarrow> 'd lfs \<Rightarrow> 'd lfs \<Rightarrow> bool" where
  "kept_contents c contents valid s t \<longleftrightarrow> on_disk c contents valid s \<and> on_disk c contents valid t \<and>
     (\<forall>b < cfg_block_count c. contents (lfs_dev t) b = contents (lfs_dev s) b)"

abbreviation mounts ::
  "'d lfs_config \<Rightarrow> ('d \<Rightarrow> u32 \<Rightarrow> u8 list) \<Rightarrow> ('d \<Rightarrow> bool) \<Rightarrow> ('a \<Rightarrow> bool) \<Rightarrow> ('d lfs, 'a) cmd \<Rightarrow> bool" where
  "mounts c contents valid \<equiv> steady (same_disk c contents valid) (kept_contents c contents valid)"

interpretation mounting: steady_frame "same_disk c contents valid" "kept_contents c contents valid"
  for c :: "'z lfs_geometry_scheme" and contents :: "'d \<Rightarrow> u32 \<Rightarrow> u8 list" and valid
  by unfold_locales (auto simp: kept_contents_def same_disk_on)

lemma same_disk_kept: "same_disk c contents valid s t \<Longrightarrow> kept_contents c contents valid s t"
  by (simp add: kept_contents_def same_disk_on same_disk_contents same_disk_on [OF same_disk_sym])

lemma mounts_reads: "reads c contents valid Q m \<Longrightarrow> mounts c contents valid Q m"
  unfolding steady_def by (blast intro: same_disk_kept)

text \<open>An update of the state that leaves the disk and the open objects alone.\<close>

definition off_disk :: "('d lfs \<Rightarrow> 'd lfs) \<Rightarrow> bool" where
  "off_disk f \<longleftrightarrow> (\<forall>s. lfs_dev (f s) = lfs_dev s \<and> lfs_rcache (f s) = lfs_rcache s \<and>
     lfs_pcache (f s) = lfs_pcache s \<and> lfs_mlist (f s) = lfs_mlist s \<and> lfs_objs (f s) = lfs_objs s)"

lemma on_disk_off: "off_disk f \<Longrightarrow> on_disk c contents valid s \<Longrightarrow> on_disk c contents valid (f s)"
  by (simp add: off_disk_def on_disk_def files_inside_def)

lemma mounts_modify:
  assumes f: "off_disk f"
    and same: "\<And>s t. same_disk c contents valid s t \<Longrightarrow> lfs_root (f t) = lfs_root (f s) \<and>
      lfs_gstate (f t) = lfs_gstate (f s) \<and> lfs_gdisk (f t) = lfs_gdisk (f s) \<and>
      lfs_gdelta (f t) = lfs_gdelta (f s) \<and> lfs_name_max (f t) = lfs_name_max (f s) \<and>
      lfs_file_max (f t) = lfs_file_max (f s) \<and> lfs_attr_max (f t) = lfs_attr_max (f s)"
  shows "mounts c contents valid any (modify f)"
proof (rule mounting.modify, intro conjI)
  fix s t assume st: "same_disk c contents valid s t"
  note on = same_disk_on [OF st] same_disk_on [OF same_disk_sym [OF st]]
  show "same_disk c contents valid (f s) (f t)"
    using on_disk_off [OF f on(1)] on_disk_off [OF f on(2)] same [OF st] f same_disk_fields [OF st]
      same_disk_contents [OF st]
    by (intro same_diskI) (auto simp: off_disk_def)
  show "kept_contents c contents valid s (f s)"
    using on(1) on_disk_off [OF f on(1)] f by (simp add: kept_contents_def off_disk_def)
qed

lemma mounts_gets:
  "(\<And>s t. same_disk c contents valid s t \<Longrightarrow> f t = f s) \<Longrightarrow> mounts c contents valid any (gets f)"
  by (rule mounting.gets) auto

lemma mounts_check_limit: "mounts c contents valid any (check_limit sb limit)"
  unfolding check_limit_def by (intro steady_rules) simp_all

lemma mounts_check_superblock: "mounts c contents valid any (check_superblock c sb)"
  unfolding check_superblock_def
  by (intro steady_rules mounts_gets mounts_modify mounts_check_limit)
    (simp_all add: off_disk_def same_disk_fields)

context readable_device begin

lemma mounts_pair:
  assumes "log_inside c dir"
  shows "mounts c contents valid (log_inside c) (mount_pair c dir)"
proof -
  have name: "length littlefs_name \<le> unat (cfg_block_size c)" if "8 \<le> unat (cfg_block_size c)"
    using that by (simp add: littlefs_name_def)
  note scan = steady_fetchmatch [OF cb_reads_find_match [OF name] assms]
  have "mounts c contents valid (log_inside c) (mount_pair c dir)" if "8 \<le> unat (cfg_block_size c)"
    unfolding mount_pair_def
    by (rule mounting.bnd [OF mounts_reads [OF scan [OF that]]], intro steady_rules mounts_gets mounts_modify
        mounts_check_superblock mounts_reads [OF steady_dir_get] mounts_reads [OF steady_getgstate])
      (auto simp: off_disk_def same_disk_fields)
  then show ?thesis unfolding steady_def using sizes by blast
qed

lemma mounts_loop:
  "chain_fuel c n cycle \<Longrightarrow> log_inside c dir \<Longrightarrow> mounts c contents valid any (mount_loop c n cycle dir)"
proof (induction n arbitrary: cycle dir)
  case (Suc n)
  show ?case
    unfolding mount_loop.simps
    by (intro steady_rules mounting.bnd [OF mounts_pair [OF Suc.prems(2)]])
      (use Suc.IH chain_fuel_Suc [OF Suc.prems(1)] in auto)
qed (simp add: chain_fuel_def)

text \<open>Mounting from the state that the initialisation leaves.\<close>

lemma mounts_rawmount_rest:
  "mounts c contents valid any
     (bnd (mount_loop c (unat (cfg_block_count c div 2) + 2) 0 (mdir_zero\<lparr>md_tail := (0, 1)\<rparr>)) (\<lambda>_.
      bnd (gets lfs_root) (\<lambda>root.
      if lfs_pair_isnull root then throw LFS_ERR_INVAL
      else
        bnd (modify (\<lambda>s. s\<lparr>lfs_gstate := mount_gstate (lfs_gstate s), lfs_gdisk := mount_gstate (lfs_gstate s)\<rparr>)) (\<lambda>_.
        bnd (modify (\<lambda>s. s\<lparr>lfs_free := (lfs_free s)\<lparr>free_off := lfs_seed s mod cfg_block_count c\<rparr>\<rparr>)) (\<lambda>_.
        lfs_alloc_drop c)))))"
proof -
  have on_free: "on_free (modify f) = modify (\<lambda>s. s\<lparr>lfs_free := f (lfs_free s)\<rparr>)" for f :: "lfs_lookahead \<Rightarrow> _"
    by (rule ext) (simp add: on_free_def zoom_def modify_def)
  show ?thesis
    unfolding lfs_alloc_drop_def lfs_alloc_ack_def on_free
    by (intro steady_rules mounts_loop chain_fuel_0 log_inside_zero mounts_gets mounts_modify)
      (simp_all add: off_disk_def same_disk_fields)
qed

lemma rawmount_safe:
  assumes v: "valid (lfs_dev s)" and init: "init_asserts c"
  shows "\<exists>r s'. lfs_rawmount c s = (r, s') \<and> (\<forall>x. r \<noteq> Fault x) \<and> valid (lfs_dev s') \<and>
     (\<forall>b < cfg_block_count c. contents (lfs_dev s') b = contents (lfs_dev s) b)"
proof -
  let ?t = "init_state c s"
  have cache: "cache_coherent c k (fresh_cache c p)" "cache_inside c (fresh_cache c p)" for k p
  proof -
    have "\<not> LFS_BLOCK_NULL < cfg_block_count c"
      by (simp add: LFS_BLOCK_NULL_def not_less word_order.extremum)
    moreover have "cache_block (fresh_cache c p) = LFS_BLOCK_NULL"
      "length (cache_buffer (fresh_cache c p)) = unat (cfg_cache_size c)"
      by (simp_all add: fresh_cache_def lfs_cache_zero_def)
    ultimately show "cache_coherent c k (fresh_cache c p)" "cache_inside c (fresh_cache c p)"
      by (simp_all add: cache_coherent_def cache_inside_def)
  qed
  have dev: "lfs_dev ?t = lfs_dev s" by (simp add: init_state_def)
  have on: "on_disk c contents valid ?t"
    using v cache by (simp add: on_disk_def files_inside_def init_state_def)
  have run: "lfs_init c s = (Ok (), ?t)"
    using init by (simp add: lfs_init_def assertion_def modify_def)
  show ?thesis
    by (rule steadyE [OF mounts_rawmount_rest same_disk_refl [OF on]])
      (auto simp: lfs_rawmount_def bnd_def [of "lfs_init c"] run kept_contents_def on_disk_def dev)
qed

end

section \<open>The allocator on a disk\<close>

lemma cb_steady_collect: "cb_steady c contents valid collect_cb"
  unfolding cb_steady_def steady_def
  by (auto simp: same_data_def kept_disk_def collect_cb_def collect_def intro: same_disk_refl same_disk_on)

lemma same_disk_free:
  assumes "same_disk c contents valid s t"
  shows "same_disk c contents valid s (t\<lparr>lfs_free := fr\<rparr>)"
  by (rule same_diskI; use assms same_disk_fields [OF assms] in
      \<open>auto simp: same_disk_def on_disk_def files_inside_def\<close>)

context readable_device begin

text \<open>
  Every traversal of the blocks in use reports the same blocks, since an allocation leaves the disk
  alone; so the allocator is a queue of the candidates.
\<close>

lemma alloc_queue:
  assumes wf: "wf_lookahead c" and on: "on_disk c contents valid s" and ok: "lookahead_ok c (lfs_free s)"
    and tr: "lfs_fs_rawtraverse c collect_cb True (s, []) = (Ok (), (s1, used))"
    and used: "\<forall>b \<in> set used. b < cfg_block_count c"
  shows "\<exists>s'. same_disk c contents valid s s' \<and> lookahead_ok c (lfs_free s') \<and>
    (case alloc_candidates c used (lfs_free s) of
        [] \<Rightarrow> lfs_alloc c s = (Err LFS_ERR_NOSPC, s')
      | b # rest \<Rightarrow> lfs_alloc c s = (Ok b, s') \<and> alloc_candidates c used (lfs_free s') = rest)"
proof -
  have again: "\<exists>t'. lfs_fs_rawtraverse c collect_cb True (t, []) = (Ok (), (t', used)) \<and> same_disk c contents valid s t'"
    if t: "same_disk c contents valid s t" for t
  proof -
    have "same_data c contents valid (s, [] :: u32 list) (t, [])" using t by (simp add: same_data_def)
    then show ?thesis
      by (rule steadyE [OF steady_rawtraverse [OF cb_steady_collect, where orphans = True]])
        (use tr in \<open>auto simp: same_data_def kept_disk_def intro: same_disk_trans\<close>)
  qed
  have run: "lfs_alloc c s = alloc_loop c (unat (free_ack (lfs_free s)) + 2) s"
    by (simp add: lfs_alloc_def bnd_def gets_def del: alloc_loop.simps)
  show ?thesis
    unfolding run
    by (rule alloc_loop_queue [where good = "same_disk c contents valid s", OF wf used again same_disk_free
        same_disk_refl [OF on] ok alloc_left_fuel])
qed

text \<open>A traversal with data of its own.\<close>

lemma steady_with_data:
  fixes x :: 'x and m :: "('a lfs \<times> 'x, unit) cmd"
  assumes "reads_data c contents valid any m"
  shows "reads c contents valid any (with_data x m)"
  unfolding steady_def
proof (intro allI impI)
  fix s t :: "'a lfs" assume "same_disk c contents valid s t"
  then have st: "same_data c contents valid (s, x) (t, x)" by (simp add: same_data_def)
  show "\<exists>r s' t'. with_data x m s = (r, s') \<and> with_data x m t = (r, t') \<and> same_disk c contents valid s' t' \<and>
      same_disk c contents valid s s' \<and> (case r of Ok a \<Rightarrow> any a | Err e \<Rightarrow> True | Fault x \<Rightarrow> False)"
  proof (rule steadyE [OF assms st])
    fix r y z
    assume r: "m (s, x) = (r, y)" "m (t, x) = (r, z)" "same_data c contents valid y z"
      "kept_disk c contents valid (s, x) y" "\<And>x. r \<noteq> Fault x"
    then show ?thesis
      by (cases r; cases y; cases z)
        (auto simp: with_data_def run_data_def bnd_def ret_def same_data_def kept_disk_def)
  qed
qed

lemma steady_rawsize: "reads c contents valid any (lfs_fs_rawsize c)"
  unfolding lfs_fs_rawsize_def
  by (intro steady_with_data steady_rawtraverse)
    (auto simp: cb_steady_def lfs_fs_size_count_def same_data_def kept_disk_def same_disk_on
      intro!: data.modify same_disk_refl split: prod.splits)

end

end
