(* ===== verification/LFS_Demo.thy ===== *)
theory LFS_Demo
  imports LFS_Examples LFS_Safe
begin

text \<open>
  A small disk with an empty metadata pair: the first block holds a revision count and a checksum
  tag with its checksum, the rest is erased.  The runs of the code on it, on which theorems of the
  root theory are evaluated.
\<close>

section \<open>Results on a disk\<close>

text \<open>\<open>gives\<close>: a command returns \<open>a\<close> from every state with the disk of \<open>u\<close>.\<close>

definition gives ::
  "'d lfs_config \<Rightarrow> ('d \<Rightarrow> u32 \<Rightarrow> u8 list) \<Rightarrow> ('d \<Rightarrow> bool) \<Rightarrow> 'd lfs \<Rightarrow> ('d lfs, 'a) cmd \<Rightarrow> 'a \<Rightarrow> bool" where
  "gives c contents valid u m a \<longleftrightarrow> (\<forall>s. same_disk c contents valid u s \<longrightarrow>
     (\<exists>s'. m s = (Ok a, s') \<and> same_disk c contents valid u s'))"

definition gives_data ::
  "'d lfs_config \<Rightarrow> ('d \<Rightarrow> u32 \<Rightarrow> u8 list) \<Rightarrow> ('d \<Rightarrow> bool) \<Rightarrow> 'd lfs \<Rightarrow> ('d lfs \<times> 'x, 'a) cmd \<Rightarrow> 'x \<Rightarrow>
     'a \<Rightarrow> 'x \<Rightarrow> bool" where
  "gives_data c contents valid u m x a x' \<longleftrightarrow> (\<forall>s. same_disk c contents valid u s \<longrightarrow>
     (\<exists>s'. m (s, x) = (Ok a, (s', x')) \<and> same_disk c contents valid u s'))"

lemma gives_ret: "a = b \<Longrightarrow> gives c contents valid u (ret a) b"
  by (simp add: gives_def ret_def)

lemma gives_bnd:
  "gives c contents valid u m a \<Longrightarrow> gives c contents valid u (k a) b \<Longrightarrow> gives c contents valid u (bnd m k) b"
  unfolding gives_def bnd_def by fastforce

lemma gives_attempt: "gives c contents valid u m a \<Longrightarrow> gives c contents valid u (attempt m) (Inr a)"
  unfolding gives_def attempt_def by fastforce

lemma gives_gets: "(\<And>s. same_disk c contents valid u s \<Longrightarrow> f s = a) \<Longrightarrow> gives c contents valid u (gets f) a"
  by (simp add: gives_def gets_def)

lemma gives_modify:
  "(\<And>s. same_disk c contents valid u s \<Longrightarrow> same_disk c contents valid u (f s)) \<Longrightarrow>
     gives c contents valid u (modify f) ()"
  by (simp add: gives_def modify_def)

lemma gives_fetch_try:
  "gives c contents valid u m a \<Longrightarrow> gives c contents valid u (k a) x \<Longrightarrow>
     gives c contents valid u (fetch_try st m k) x"
  unfolding fetch_try_def by (auto intro: gives_bnd gives_attempt)

lemma gives_data_ret: "gives_data c contents valid u (ret a) x a x"
  by (simp add: gives_data_def ret_def)

lemma gives_data_bnd:
  "gives_data c contents valid u m x a y \<Longrightarrow> gives_data c contents valid u (k a) y b z \<Longrightarrow>
     gives_data c contents valid u (bnd m k) x b z"
  unfolding gives_data_def bnd_def by fastforce

lemma gives_data_on_fst:
  "gives c contents valid u m a \<Longrightarrow> gives_data c contents valid u (on_fst m) x a x"
  unfolding gives_def gives_data_def on_fst_def zoom_def by fastforce

lemma gives_data_collect: "gives_data c contents valid u (collect_cb b) xs () (xs @ [b])"
  by (simp add: gives_data_def collect_cb_def collect_def)

context block_device begin

lemma gives_read:
  assumes "b < cfg_block_count c" and "0 < unat sz \<Longrightarrow> 0 < unat hint" and "unat hint \<le> unat (cfg_block_size c)"
    and "unat off + unat sz \<le> unat (cfg_block_size c)"
    and x: "x = seg (contents (lfs_dev u) b) (unat off) (unat sz)"
  shows "gives c contents valid u (on_rcache (lfs_bd_read c None hint b off sz)) x"
  unfolding gives_def
proof (intro allI impI)
  fix s assume us: "same_disk c contents valid u s"
  note on = same_disk_on [OF same_disk_sym [OF us]]
  have "wp (lfs_bd_read c None hint b off sz)
      (okp (\<lambda>xs (r', d'). d' = lfs_dev s \<and> cache_coherent c (contents (lfs_dev s)) r' \<and>
         xs = seg (overlay None (contents (lfs_dev s)) b) (unat off) (unat sz)))
      (lfs_rcache s, lfs_dev s)"
    using on by (intro bd_read_ok) (use assms in \<open>auto simp: on_disk_def\<close>)
  from wp_okpD [OF this] obtain r where r: "lfs_bd_read c None hint b off sz (lfs_rcache s, lfs_dev s) =
      (Ok (seg (contents (lfs_dev s) b) (unat off) (unat sz)), (r, lfs_dev s))"
      "cache_coherent c (contents (lfs_dev s)) r" by (auto simp: overlay_None)
  then show "\<exists>s'. on_rcache (lfs_bd_read c None hint b off sz) s = (Ok x, s') \<and> same_disk c contents valid u s'"
    using same_disk_contents [OF us assms(1)] same_disk_trans [OF us same_disk_put [OF on r(2)]]
    by (auto simp: on_rcache_def zoom_def x)
qed

lemma gives_read_u32:
  assumes "b < cfg_block_count c" and "unat off + 4 \<le> unat (cfg_block_size c)"
    and x: "x = u32_of_bytes (seg (contents (lfs_dev u) b) (unat off) 4)"
  shows "gives c contents valid u (read_u32 c 4 b off) x"
  unfolding read_u32_def x by (rule gives_bnd [OF gives_read gives_ret [OF refl]]) (use assms in auto)

end

section \<open>An empty metadata pair\<close>

definition demo_pair_device :: lfs_rambd where
  "demo_pair_device = \<lparr>rambd_buffer = [1, 0, 0, 0, 0xAF, 0xF0, 0x03, 0xFB, 220, 34, 249, 247] @ replicate 500 255,
     rambd_cfg = \<lparr>rbcfg_erase_value = 255, rbcfg_buffer = None\<rparr>\<rparr>"

abbreviation "demo_config \<equiv> rambd_config demo_geometry"
abbreviation "demo_disk \<equiv> (demo_lfs demo_pair_device)\<lparr>lfs_free :=
  \<lparr>free_off = 0, free_size = 0, free_i = 0, free_ack = 4, free_buffer = [0, 0]\<rparr>\<rparr>"
abbreviation "demo_gives \<equiv> gives demo_config (rambd_contents demo_geometry) (rambd_usable demo_geometry) demo_disk"

lemma demo_pair_usable [simp]: "rambd_usable demo_geometry demo_pair_device"
  by (simp add: rambd_usable_def rambd_valid_def demo_pair_device_def)

lemma demo_on_disk [simp]:
  "on_disk demo_config (rambd_contents demo_geometry) (rambd_usable demo_geometry) demo_disk"
proof -
  have "cache_inside demo_config demo_cache" using demo_cache_coherent by (simp add: cache_coherent_def)
  then show ?thesis by (simp add: on_disk_def files_inside_def) (simp add: demo_lfs_def)
qed

lemma demo_disk_dev [simp]: "lfs_dev demo_disk = demo_pair_device"
  by simp

lemma demo_seg:
  "seg (rambd_contents demo_geometry demo_pair_device 0) 0 4 = [1, 0, 0, 0]"
  "seg (rambd_contents demo_geometry demo_pair_device 0) 4 4 = [0xAF, 0xF0, 0x03, 0xFB]"
  "seg (rambd_contents demo_geometry demo_pair_device 0) 8 4 = [220, 34, 249, 247]"
  "seg (rambd_contents demo_geometry demo_pair_device 0) 12 4 = [255, 255, 255, 255]"
  "seg (rambd_contents demo_geometry demo_pair_device 1) 0 4 = [255, 255, 255, 255]"
proof -
  have b0: "rambd_contents demo_geometry demo_pair_device 0 =
      [1, 0, 0, 0, 0xAF, 0xF0, 0x03, 0xFB, 220, 34, 249, 247] @ replicate 116 255"
    by (simp add: rambd_contents_def demo_pair_device_def seg_def)
  have b1: "rambd_contents demo_geometry demo_pair_device 1 = replicate 128 255"
    by (simp add: rambd_contents_def demo_pair_device_def seg_def)
  have four: "replicate 4 (255 :: u8) = [255, 255, 255, 255]" by (simp add: numeral_eq_Suc)
  show "seg (rambd_contents demo_geometry demo_pair_device 0) 0 4 = [1, 0, 0, 0]"
    "seg (rambd_contents demo_geometry demo_pair_device 0) 4 4 = [0xAF, 0xF0, 0x03, 0xFB]"
    "seg (rambd_contents demo_geometry demo_pair_device 0) 8 4 = [220, 34, 249, 247]"
    "seg (rambd_contents demo_geometry demo_pair_device 0) 12 4 = [255, 255, 255, 255]"
    "seg (rambd_contents demo_geometry demo_pair_device 1) 0 4 = [255, 255, 255, 255]"
    unfolding b0 b1 by (simp_all add: seg_def four)
qed

definition demo_mdir :: "lfs_mdir \<Rightarrow> lfs_mdir" where
  "demo_mdir dir = dir\<lparr>md_pair := (0, 1), md_rev := 1, md_off := 12, md_etag := 0x500ffc04, md_count := 0,
     md_tail := (LFS_BLOCK_NULL, LFS_BLOCK_NULL), md_split := False, md_erased := True\<rparr>"

text \<open>The state of the scan at an offset, after a tag, with a checksum.\<close>

definition demo_scan :: "lfs_mdir \<Rightarrow> u32 \<Rightarrow> u32 \<Rightarrow> u32 \<Rightarrow> fetch_state" where
  "demo_scan dir off ptag crc = \<lparr>fs_dir = dir, fs_best = - 1, fs_off = off, fs_ptag = ptag, fs_count = 0,
     fs_tail = (LFS_BLOCK_NULL, LFS_BLOCK_NULL), fs_split = False, fs_tempbest = - 1, fs_crc = crc\<rparr>"

lemma demo_crc:
  "lfs_crc (lfs_crc 0xffffffff (u32_bytes (lfs_tole32 1))) [0xAF, 0xF0, 0x03, 0xFB] = 0xf7f922dc"
  "lfs_fromle32 0xf7f922dc = 0xf7f922dc" "lfs_frombe32 0xfb03f0af XOR 0xffffffff = 0x500ffc04"
  "lfs_frombe32 0xffffffff XOR 0x500ffc04 = 0xaff003fb"
  by code_simp+

lemma demo_tags:
  "lfs_tag_dsize 0xffffffff = 4" "lfs_tag_dsize 0x500ffc04 = 8" "lfs_tag_isvalid 0x500ffc04"
  "lfs_tag_type1 0x500ffc04 = LFS_TYPE_CRC" "lfs_tag_chunk 0x500ffc04 = 0" "\<not> lfs_tag_isvalid 0xaff003fb"
  by code_simp+

lemma demo_fetch_read:
  assumes "b < 4" and "unat off + 4 \<le> 128" and "xs = seg (rambd_contents demo_geometry demo_pair_device b) (unat off) 4"
    and "fst (md_pair (fs_dir st)) = b"
  shows "demo_gives (fetch_read demo_config st off 4) xs"
  unfolding fetch_read_def by (rule rambd_read.gives_read) (use assms in simp_all)

lemma demo_gdisk: "demo_gives (gets lfs_gdisk) gstate_zero"
  by (rule gives_gets) (simp add: same_disk_fields, simp add: demo_lfs_def)

lemma demo_seed: "demo_gives (modify (\<lambda>s. s\<lparr>lfs_seed := f (lfs_seed s)\<rparr>)) ()"
  by (rule gives_modify) (rule same_disk_trans, assumption, rule same_disk_seed(2), erule same_disk_sym)

lemma demo_fetch_crc:
  assumes "md_pair dir = (0, 1)"
  shows "demo_gives (fetch_crc demo_config 0x500ffc04 (demo_scan dir 4 0x500ffc04 0xf7f922dc))
      (demo_scan ((demo_mdir dir)\<lparr>md_erased := md_erased dir, md_rev := md_rev dir\<rparr>) 4 0x500ffc04 0xffffffff, Fetch_Next)"
  unfolding fetch_crc_def
  by (rule gives_fetch_try [where a = "[220, 34, 249, 247]"])
    (use assms in \<open>auto simp: demo_seg demo_crc demo_tags demo_scan_def demo_mdir_def Let_def
      intro!: gives_bnd [OF demo_seed] gives_ret demo_fetch_read [where b = 0]
      simp del: lfs_crc.simps\<close>)

lemma demo_fetch_step1:
  assumes "md_pair dir = (0, 1)"
  shows "demo_gives (fetch_step demo_config (- 1) (- 1) null_cb
      (demo_scan dir 0 0xffffffff (lfs_crc 0xffffffff (u32_bytes (lfs_tole32 1)))))
    (demo_scan ((demo_mdir dir)\<lparr>md_erased := md_erased dir, md_rev := md_rev dir\<rparr>) 4 0x500ffc04 0xffffffff, Fetch_Next)"
  unfolding fetch_step_def Let_def
  by (rule gives_fetch_try [where a = "[0xAF, 0xF0, 0x03, 0xFB]"])
    (use assms demo_fetch_crc [OF assms] in \<open>auto simp: demo_seg demo_crc demo_tags demo_scan_def
      intro!: demo_fetch_read [where b = 0] simp del: lfs_crc.simps\<close>)

lemma demo_fetch_step2:
  assumes "md_pair dir = (0, 1)" and "md_off dir = 12"
  shows "demo_gives (fetch_step demo_config (- 1) (- 1) null_cb (demo_scan dir 4 0x500ffc04 0xffffffff))
    (demo_scan (dir\<lparr>md_erased := True\<rparr>) 12 0x500ffc04 (lfs_crc 0xffffffff [255, 255, 255, 255]), Fetch_Break)"
  unfolding fetch_step_def Let_def
  by (rule gives_fetch_try [where a = "[255, 255, 255, 255]"])
    (use assms in \<open>auto simp: demo_seg demo_crc demo_tags demo_scan_def
      intro!: demo_fetch_read [where b = 0] gives_ret simp del: lfs_crc.simps\<close>)

lemma demo_fetch_loop:
  assumes "md_pair dir = (0, 1)"
  shows "demo_gives (fetch_loop demo_config (- 1) (- 1) null_cb (Suc (Suc n))
      (demo_scan dir 0 0xffffffff (lfs_crc 0xffffffff (u32_bytes (lfs_tole32 1)))))
    (demo_scan ((demo_mdir dir)\<lparr>md_rev := md_rev dir\<rparr>) 12 0x500ffc04 (lfs_crc 0xffffffff [255, 255, 255, 255]), None)"
proof -
  let ?d = "(demo_mdir dir)\<lparr>md_erased := md_erased dir, md_rev := md_rev dir\<rparr>"
  have step2: "demo_gives (fetch_step demo_config (- 1) (- 1) null_cb (demo_scan ?d 4 0x500ffc04 0xffffffff))
      (demo_scan ((demo_mdir dir)\<lparr>md_rev := md_rev dir\<rparr>) 12 0x500ffc04 (lfs_crc 0xffffffff [255, 255, 255, 255]), Fetch_Break)"
    using demo_fetch_step2 [of ?d] by (simp add: demo_mdir_def del: lfs_crc.simps)
  have "demo_gives (fetch_loop demo_config (- 1) (- 1) null_cb (Suc n) (demo_scan ?d 4 0x500ffc04 0xffffffff))
      (demo_scan ((demo_mdir dir)\<lparr>md_rev := md_rev dir\<rparr>) 12 0x500ffc04 (lfs_crc 0xffffffff [255, 255, 255, 255]), None)"
    unfolding fetch_loop.simps by (rule gives_bnd [OF step2]) (simp add: gives_ret del: lfs_crc.simps)
  then show ?thesis
    unfolding fetch_loop.simps(2) [where n = "Suc n"]
    by (intro gives_bnd [OF demo_fetch_step1 [OF assms]]) simp
qed

lemma demo_rev:
  assumes "b < 4" and "seg (rambd_contents demo_geometry demo_pair_device b) 0 4 = xs" and "lfs_fromle32 (u32_of_bytes xs) = w"
  shows "demo_gives (fetch_rev demo_config b) (w, True)"
  unfolding fetch_rev_def
  by (rule gives_bnd [where a = "Inr (u32_of_bytes xs)"], rule gives_attempt, rule rambd_read.gives_read_u32)
    (use assms in \<open>simp_all add: gives_ret\<close>)

lemma demo_fetch_revs:
  "demo_gives (fetch_rev demo_config 0) (1, True)" "demo_gives (fetch_rev demo_config 1) (0xffffffff, True)"
  by (rule demo_rev, simp, rule demo_seg, simp add: lfs_fromle32_def)+

lemma demo_fetch_result:
  "fs_best st = - 1 \<Longrightarrow> md_count (fs_dir st) = 0 \<Longrightarrow> fetch_result gstate_zero st = (0, Inr 0)"
proof -
  have "lfs_tag_id (- 1) = 0x3ff" "\<not> lfs_tag_isvalid (- 1)" "\<not> lfs_gstate_hasmovehere gstate_zero p" for p
    by (simp_all add: lfs_tag_id_def lfs_tag_isvalid_def lfs_gstate_hasmovehere_def gstate_zero_def
        lfs_tag_type1_def)
  then show "fs_best st = - 1 \<Longrightarrow> md_count (fs_dir st) = 0 \<Longrightarrow> fetch_result gstate_zero st = (0, Inr 0)"
    by (simp add: fetch_result_def Let_def lfs_min_def)
qed

lemma demo_pass:
  assumes "md_pair dir = (0, 1)" and "md_rev dir = 1"
  shows "demo_gives (fetch_passes demo_config (- 1) (- 1) null_cb orev (Suc i) dir (- 1)) (demo_mdir dir, Some 0, Inr 0)"
proof -
  let ?fin = "demo_scan ((demo_mdir dir)\<lparr>md_rev := md_rev dir\<rparr>) 12 0x500ffc04 (lfs_crc 0xffffffff [255, 255, 255, 255])"
  have st: "fetch_start dir (- 1) = demo_scan dir 0 0xffffffff (lfs_crc 0xffffffff (u32_bytes (lfs_tole32 1)))"
    using assms(2) by (simp add: fetch_start_def demo_scan_def del: lfs_crc.simps)
  have n: "unat (cfg_block_size demo_config) + 2 = Suc (Suc 128)" by simp
  have d: "fs_dir ?fin = demo_mdir dir" "fs_best ?fin = - 1" "md_count (demo_mdir dir) = 0" "md_off (demo_mdir dir) = 12"
    using assms(2) by (simp_all add: demo_scan_def demo_mdir_def)
  have r: "fetch_result gstate_zero ?fin = (0, Inr 0)"
    by (rule demo_fetch_result) (simp_all only: d)
  have "demo_gives (bnd (gets lfs_gdisk) (\<lambda>g. let (i, res) = fetch_result g ?fin in ret (demo_mdir dir, Some i, res)))
      (demo_mdir dir, Some 0, Inr 0)"
    by (rule gives_bnd [OF demo_gdisk]) (simp only: r Let_def prod.case gives_ret)
  then show ?thesis
    unfolding fetch_passes.simps n st
    by (intro gives_bnd [OF demo_fetch_loop [OF assms(1)]]) (simp add: d del: lfs_crc.simps)
qed

lemma demo_fetch: "demo_gives (lfs_dir_fetch demo_config dir (0, 1)) (demo_mdir dir, None)"
proof -
  let ?d = "dir\<lparr>md_pair := (0, 1), md_rev := 1, md_off := 0\<rparr>"
  have d: "demo_mdir ?d = demo_mdir dir" by (simp add: demo_mdir_def)
  have revs: "demo_gives (bnd (fetch_rev demo_config 0) (\<lambda>(rev0, _).
      bnd (fetch_rev demo_config 1) (\<lambda>(rev1, ok1). ret (rev0, rev1, ok1)))) (1, 0xffffffff, True)"
    by (intro gives_bnd [OF demo_fetch_revs(1)]) (simp, intro gives_bnd [OF demo_fetch_revs(2)], simp add: gives_ret)
  have inside: "\<not> (cfg_block_count demo_config \<le> 0 \<or> cfg_block_count demo_config \<le> 1)"
    by (simp add: u32_simps)
  have old: "\<not> 0 < lfs_scmp 0xffffffff 1" by code_simp
  have pass: "demo_gives (fetch_passes demo_config (- 1) (- 1) null_cb 0xffffffff 2 ?d (- 1)) (demo_mdir dir, Some 0, Inr 0)"
    unfolding numeral_2_eq_2 using demo_pass [of ?d "0xffffffff" "Suc 0"] by (simp only: d) simp
  have "demo_gives (lfs_dir_fetchmatch demo_config dir (0, 1) (- 1) (- 1) null_cb) (demo_mdir dir, Some 0, Inr 0)"
    unfolding lfs_dir_fetchmatch_def fst_conv snd_conv if_not_P [OF inside]
    by (rule gives_bnd [OF gives_attempt [OF revs]]) (use pass old in \<open>simp add: Let_def del: fetch_passes.simps\<close>)
  then show ?thesis
    unfolding lfs_dir_fetch_def by (rule gives_bnd) (simp add: gives_ret)
qed

section \<open>The blocks in use\<close>

lemma demo_traverse:
  "\<exists>s. lfs_fs_rawtraverse demo_config collect_cb orphans (demo_disk, []) = (Ok (), (s, [0, 1]))"
proof -
  let ?data = "gives_data demo_config (rambd_contents demo_geometry) (rambd_usable demo_geometry) demo_disk"
  let ?start = "mdir_zero\<lparr>md_tail := (0, 1)\<rparr>"
  have n: "unat (cfg_block_count demo_config div 2) + 2 = Suc (Suc 2)" by (simp add: u32_simps)
  have null: "lfs_pair_isnull (md_tail (demo_mdir dir))" for dir
    by (simp add: lfs_pair_isnull_def demo_mdir_def)
  have stop: "?data (rawtraverse_chain demo_config collect_cb orphans (Suc 2) (0 + 1) (demo_mdir ?start)) [0, 1] () [0, 1]"
    using null by (simp only: rawtraverse_chain.simps if_True gives_data_ret)
  have pair: "?data (for_each collect_cb [0, 1]) [] () [0, 1]"
    unfolding for_each.simps
    by (rule gives_data_bnd [OF gives_data_collect], rule gives_data_bnd [OF gives_data_collect])
      (simp add: gives_data_ret)
  have ids: "mdir_ids (demo_mdir ?start) = []" by (simp add: mdir_ids_def demo_mdir_def)
  have tail: "md_tail ?start = (0, 1)" by simp
  have cont: "\<not> lfs_pair_isnull (0, 1)" "\<not> cfg_block_count demo_config div 2 \<le> 0"
    by (simp_all add: lfs_pair_isnull_def u32_simps LFS_BLOCK_NULL_def)
  have "?data (rawtraverse_chain demo_config collect_cb orphans (Suc (Suc 2)) 0 ?start) [] () [0, 1]"
    unfolding rawtraverse_chain.simps(2) [where n = "Suc 2"] tail fst_conv snd_conv if_not_P [OF cont(1)]
      if_not_P [OF cont(2)]
    by (rule gives_data_bnd, rule pair, rule gives_data_bnd, rule gives_data_on_fst, rule demo_fetch)
      (use stop in \<open>simp add: ids gives_data_bnd [OF gives_data_ret] del: rawtraverse_chain.simps\<close>)
  moreover have "?data (on_fst (gets lfs_mlist)) [0, 1] [] [0, 1]"
    by (rule gives_data_on_fst, rule gives_gets) (simp add: same_disk_fields, simp add: demo_lfs_def)
  ultimately have "?data (lfs_fs_rawtraverse demo_config collect_cb orphans) [] () [0, 1]"
    unfolding lfs_fs_rawtraverse_def n
    by - (erule gives_data_bnd, erule gives_data_bnd, simp add: gives_data_ret)
  then show ?thesis
    unfolding gives_data_def using same_disk_refl [OF demo_on_disk] by blast
qed

end
