(* ===== verification/LFS_Api.thy ===== *)
theory LFS_Api
  imports LFS_Mount
begin

text \<open>
  The public functions at the end of \<^verbatim>\<open>src/src/lfs/lfs.c\<close>, as they are compiled with
  \<^verbatim>\<open>LFS_THREADSAFE\<close>: each takes the lock of the configuration, checks that its file or directory
  is open (or is not), calls the function of the library and releases the lock, whatever the call
  returned.  The lock and unlock functions are those of the configuration, on the device context.
  The trace output is left out.
\<close>

section \<open>Locking\<close>

record 'd lfs_locks =
  cfg_lock :: "('d, unit) cmd"
  cfg_unlock :: "('d, unit) cmd"

text \<open>The result of \<open>unlock\<close> is ignored.\<close>

definition with_lock :: "('s, unit) cmd \<Rightarrow> ('s, unit) cmd \<Rightarrow> ('s, 'a) cmd \<Rightarrow> ('s, 'a) cmd" where
  "with_lock lock unlock m =
     bnd lock (\<lambda>_.
     bnd (attempt m) (\<lambda>r.
     bnd (attempt unlock) (\<lambda>_.
     case r of Inl e \<Rightarrow> throw e | Inr a \<Rightarrow> ret a)))"

definition locked :: "'d lfs_locks \<Rightarrow> ('d lfs, 'a) cmd \<Rightarrow> ('d lfs, 'a) cmd" where
  "locked k = with_lock (on_dev (cfg_lock k)) (on_dev (cfg_unlock k))"

definition assert_open :: "obj_ref \<Rightarrow> bool \<Rightarrow> ('d lfs, unit) cmd" where
  "assert_open x is_open =
     bnd (gets lfs_mlist) (\<lambda>ml. assertion (lfs_mlist_isopen ml x = is_open))"

definition locked_open :: "'d lfs_locks \<Rightarrow> obj_ref \<Rightarrow> ('d lfs, 'a) cmd \<Rightarrow> ('d lfs, 'a) cmd" where
  "locked_open k x m = locked k (bnd (assert_open x True) (\<lambda>_. m))"

definition locked_fresh :: "'d lfs_locks \<Rightarrow> obj_ref \<Rightarrow> ('d lfs, 'a) cmd \<Rightarrow> ('d lfs, 'a) cmd" where
  "locked_fresh k x m = locked k (bnd (assert_open x False) (\<lambda>_. m))"

section \<open>File system\<close>

definition lfs_format ::
  "'d lfs_config \<Rightarrow> 'd lfs_locks \<Rightarrow> ('d lfs, unit) cmd" where
  "lfs_format c k = locked k (lfs_rawformat c)"

text \<open>Mounting is the one function that does not lock.\<close>

definition lfs_mount ::
  "'d lfs_config \<Rightarrow> 'd lfs_locks \<Rightarrow> ('d lfs, unit) cmd" where
  "lfs_mount c k = lfs_rawmount c"

definition lfs_unmount ::
  "'d lfs_locks \<Rightarrow> ('d lfs, unit) cmd" where
  "lfs_unmount k = locked k lfs_rawunmount"

definition lfs_remove ::
  "'d lfs_config \<Rightarrow> 'd lfs_locks \<Rightarrow> u8 list \<Rightarrow> ('d lfs, unit) cmd" where
  "lfs_remove c k path = locked k (lfs_rawremove c path)"

definition lfs_rename ::
  "'d lfs_config \<Rightarrow> 'd lfs_locks \<Rightarrow> u8 list \<Rightarrow> u8 list \<Rightarrow> ('d lfs, unit) cmd" where
  "lfs_rename c k oldpath newpath = locked k (lfs_rawrename c oldpath newpath)"

definition lfs_stat ::
  "'d lfs_config \<Rightarrow> 'd lfs_locks \<Rightarrow> u8 list \<Rightarrow> lfs_info \<Rightarrow> ('d lfs, lfs_info) cmd" where
  "lfs_stat c k path info = locked k (lfs_rawstat c path info)"

definition lfs_getattr ::
  "'d lfs_config \<Rightarrow> 'd lfs_locks \<Rightarrow> u8 list \<Rightarrow> u8 \<Rightarrow> u32 \<Rightarrow> ('d lfs, u32 \<times> u8 list) cmd" where
  "lfs_getattr c k path type sz = locked k (lfs_rawgetattr c path type sz)"

definition lfs_setattr ::
  "'d lfs_config \<Rightarrow> 'd lfs_locks \<Rightarrow> u8 list \<Rightarrow> u8 \<Rightarrow> u8 list \<Rightarrow> ('d lfs, unit) cmd" where
  "lfs_setattr c k path type data = locked k (lfs_rawsetattr c path type data)"

definition lfs_removeattr ::
  "'d lfs_config \<Rightarrow> 'd lfs_locks \<Rightarrow> u8 list \<Rightarrow> u8 \<Rightarrow> ('d lfs, unit) cmd" where
  "lfs_removeattr c k path type = locked k (lfs_rawremoveattr c path type)"

definition lfs_fs_size ::
  "'d lfs_config \<Rightarrow> 'd lfs_locks \<Rightarrow> ('d lfs, u32) cmd" where
  "lfs_fs_size c k = locked k (lfs_fs_rawsize c)"

definition lfs_fs_traverse ::
  "'d lfs_config \<Rightarrow> 'd lfs_locks \<Rightarrow> ('d, 'x) block_cb \<Rightarrow> ('d lfs \<times> 'x, unit) cmd" where
  "lfs_fs_traverse c k cb =
     with_lock (on_fst (on_dev (cfg_lock k))) (on_fst (on_dev (cfg_unlock k)))
       (lfs_fs_rawtraverse c cb True)"

section \<open>Files\<close>

definition lfs_file_open ::
  "'d lfs_config \<Rightarrow> 'd lfs_locks \<Rightarrow> obj_ref \<Rightarrow> u8 list \<Rightarrow> u32 \<Rightarrow> ('d lfs, unit) cmd" where
  "lfs_file_open c k x path flags = locked_fresh k x (lfs_file_rawopen c x path flags)"

definition lfs_file_opencfg ::
  "'d lfs_config \<Rightarrow> 'd lfs_locks \<Rightarrow> obj_ref \<Rightarrow> u8 list \<Rightarrow> u32 \<Rightarrow> (u8 \<times> u8 list) list \<Rightarrow> ('d lfs, unit) cmd" where
  "lfs_file_opencfg c k x path flags attrs = locked_fresh k x (lfs_file_rawopencfg c x path flags attrs)"

definition lfs_file_close ::
  "'d lfs_config \<Rightarrow> 'd lfs_locks \<Rightarrow> obj_ref \<Rightarrow> ('d lfs, unit) cmd" where
  "lfs_file_close c k x = locked_open k x (lfs_file_rawclose c x)"

definition lfs_file_sync ::
  "'d lfs_config \<Rightarrow> 'd lfs_locks \<Rightarrow> obj_ref \<Rightarrow> ('d lfs, unit) cmd" where
  "lfs_file_sync c k x = locked_open k x (lfs_file_rawsync c x)"

definition lfs_file_read ::
  "'d lfs_config \<Rightarrow> 'd lfs_locks \<Rightarrow> obj_ref \<Rightarrow> u32 \<Rightarrow> ('d lfs, u8 list) cmd" where
  "lfs_file_read c k x sz = locked_open k x (lfs_file_rawread c x sz)"

definition lfs_file_write ::
  "'d lfs_config \<Rightarrow> 'd lfs_locks \<Rightarrow> obj_ref \<Rightarrow> u8 list \<Rightarrow> ('d lfs, u32) cmd" where
  "lfs_file_write c k x data = locked_open k x (lfs_file_rawwrite c x data)"

definition lfs_file_seek ::
  "'d lfs_config \<Rightarrow> 'd lfs_locks \<Rightarrow> obj_ref \<Rightarrow> u32 \<Rightarrow> lfs_whence \<Rightarrow> ('d lfs, u32) cmd" where
  "lfs_file_seek c k x off whence = locked_open k x (lfs_file_rawseek c x off whence)"

definition lfs_file_truncate ::
  "'d lfs_config \<Rightarrow> 'd lfs_locks \<Rightarrow> obj_ref \<Rightarrow> u32 \<Rightarrow> ('d lfs, unit) cmd" where
  "lfs_file_truncate c k x sz = locked_open k x (lfs_file_rawtruncate c x sz)"

definition lfs_file_tell ::
  "'d lfs_locks \<Rightarrow> obj_ref \<Rightarrow> ('d lfs, u32) cmd" where
  "lfs_file_tell k x = locked_open k x (lfs_file_rawtell x)"

text \<open>Rewinding does not check that the file is open.\<close>

definition lfs_file_rewind ::
  "'d lfs_config \<Rightarrow> 'd lfs_locks \<Rightarrow> obj_ref \<Rightarrow> ('d lfs, unit) cmd" where
  "lfs_file_rewind c k x = locked k (lfs_file_rawrewind c x)"

definition lfs_file_size ::
  "'d lfs_locks \<Rightarrow> obj_ref \<Rightarrow> ('d lfs, u32) cmd" where
  "lfs_file_size k x = locked_open k x (lfs_file_rawsize x)"

section \<open>Directories\<close>

text \<open>Only the opening of a directory has an assertion.\<close>

definition lfs_mkdir ::
  "'d lfs_config \<Rightarrow> 'd lfs_locks \<Rightarrow> u8 list \<Rightarrow> ('d lfs, unit) cmd" where
  "lfs_mkdir c k path = locked k (lfs_rawmkdir c path)"

definition lfs_dir_open ::
  "'d lfs_config \<Rightarrow> 'd lfs_locks \<Rightarrow> obj_ref \<Rightarrow> u8 list \<Rightarrow> ('d lfs, unit) cmd" where
  "lfs_dir_open c k x path = locked_fresh k x (lfs_dir_rawopen c x path)"

definition lfs_dir_close ::
  "'d lfs_locks \<Rightarrow> obj_ref \<Rightarrow> ('d lfs, unit) cmd" where
  "lfs_dir_close k x = locked k (lfs_dir_rawclose x)"

definition lfs_dir_read ::
  "'d lfs_config \<Rightarrow> 'd lfs_locks \<Rightarrow> obj_ref \<Rightarrow> ('d lfs, lfs_info option) cmd" where
  "lfs_dir_read c k x = locked k (lfs_dir_rawread c x)"

definition lfs_dir_seek ::
  "'d lfs_config \<Rightarrow> 'd lfs_locks \<Rightarrow> obj_ref \<Rightarrow> u32 \<Rightarrow> ('d lfs, unit) cmd" where
  "lfs_dir_seek c k x off = locked k (lfs_dir_rawseek c x off)"

definition lfs_dir_tell ::
  "'d lfs_locks \<Rightarrow> obj_ref \<Rightarrow> ('d lfs, u32) cmd" where
  "lfs_dir_tell k x = locked k (lfs_dir_rawtell x)"

definition lfs_dir_rewind ::
  "'d lfs_config \<Rightarrow> 'd lfs_locks \<Rightarrow> obj_ref \<Rightarrow> ('d lfs, unit) cmd" where
  "lfs_dir_rewind c k x = locked k (lfs_dir_rawrewind c x)"

end
