(* ===== verification/LFS_Log.thy ===== *)
theory LFS_Log
  imports LFS_Commit
begin

text \<open>
  The machine that traverses a metadata log and the writer of commits: the depth of its stack, what
  a traversal keeps of the state of its callback, the bounds of a commit, and the end of the loop that
  pads it.
\<close>

section \<open>The stack of the traversal\<close>

text \<open>
  The states that a traversal goes through, with any callback and from any state.  A callback sees the
  file system and its data, so a step is one of the relation below.
\<close>

inductive trav_next :: "'d lfs_config \<Rightarrow> ('d, 'x) tag_cb \<Rightarrow> trav_state \<Rightarrow> trav_state \<Rightarrow> bool"
  for c cb where
  trav_stepI: "trav_step c cb ts y = (Ok ts', y') \<Longrightarrow> trav_next c cb ts ts'"

inductive trav_reach :: "'d lfs_config \<Rightarrow> ('d, 'x) tag_cb \<Rightarrow> trav_frame \<Rightarrow> trav_state \<Rightarrow> bool"
  for c cb t where
  reach_start: "trav_reach c cb t (Trav_Loop t [])"
| reach_next: "trav_reach c cb t ts \<Longrightarrow> trav_next c cb ts ts' \<Longrightarrow> trav_reach c cb t ts'"

text \<open>
  A frame that reads the directory of a move has no attributes, so its tags come from the disk.
  There are four shapes of the stack: the frame of the caller alone or with its filter, and the frame
  of a move above it, alone or with its filter.
\<close>

definition from_log :: "trav_frame \<Rightarrow> bool" where
  "from_log t \<longleftrightarrow> (\<forall>dir. tv_buffer t \<noteq> Buf_Mdir dir)"

fun trav_shape :: "bool \<Rightarrow> trav_frame \<Rightarrow> trav_frame list \<Rightarrow> bool" where
  "trav_shape p t [] \<longleftrightarrow> \<not> tv_filter t"
| "trav_shape p t [f] \<longleftrightarrow> \<not> tv_filter f \<and>
     (if tv_filter t then tv_tmask t = 0 else tv_attrs t = [] \<and> (p \<longrightarrow> from_log t))"
| "trav_shape p t [m, f] \<longleftrightarrow> tv_filter t \<and> tv_tmask t = 0 \<and>
     \<not> tv_filter m \<and> tv_attrs m = [] \<and> from_log m \<and> \<not> tv_filter f"
| "trav_shape p t (_ # _ # _ # _) \<longleftrightarrow> False"

fun trav_ok :: "trav_state \<Rightarrow> bool" where
  "trav_ok (Trav_Loop t stack) = trav_shape False t stack"
| "trav_ok (Trav_Popped t stack) = trav_shape True t stack"
| "trav_ok (Trav_Done res) = True"

inductive_cases trav_nextE: "trav_next c cb ts ts'"

lemma trav_shape_cases:
  assumes "trav_shape p t stack"
  obtains (base) "stack = []" "\<not> tv_filter t"
    | (filter_base) f where "stack = [f]" "tv_filter t" "tv_tmask t = 0" "\<not> tv_filter f"
    | (move) f where "stack = [f]" "\<not> tv_filter t" "\<not> tv_filter f" "tv_attrs t = []" "p \<longrightarrow> from_log t"
    | (filter_move) m f where "stack = [m, f]" "tv_filter t" "tv_tmask t = 0" "\<not> tv_filter m"
        "tv_attrs m = []" "from_log m" "\<not> tv_filter f"
  using assms by (cases "(p, t, stack)" rule: trav_shape.cases) (auto split: if_splits)

text \<open>A frame on top of which the filter may write: the shape does not depend on its tag.\<close>

lemma trav_shape_tag [simp]:
  "trav_shape p t (f\<lparr>tv_tag := w\<rparr> # rest) = trav_shape p t (f # rest)"
  by (cases rest rule: remdups_adj.cases) (auto simp: from_log_def)

lemma trav_shape_weaken: "trav_shape p t stack \<Longrightarrow> trav_shape False t stack"
  by (cases "(p, t, stack)" rule: trav_shape.cases) (auto split: if_splits)

lemma trav_break_ok: "trav_shape p t stack \<Longrightarrow> trav_ok (trav_break res stack)"
  by (erule trav_shape_cases) (auto simp: trav_break_def)

lemma trav_fetch_frame:
  assumes "trav_fetch c t y = (Ok (Some t'), y')"
  shows "tv_filter t' = tv_filter t \<and> tv_tmask t' = tv_tmask t \<and>
    (tv_attrs t = [] \<longrightarrow> tv_attrs t' = [] \<and> from_log t')"
  using assms
  by (auto simp: trav_fetch_def bnd_def ret_def Let_def from_log_def split: if_splits prod.splits outcome.splits list.splits)

lemma trav_fetch_shape:
  assumes "trav_fetch c t y = (Ok (Some t'), y')" and "trav_shape p t stack"
  shows "trav_shape True t' stack"
  using assms(2)
  by (cases rule: trav_shape_cases) (use trav_fetch_frame [OF assms(1)] in auto)

lemma trav_call_shape:
  assumes "trav_call cb b stack tag buf y = (Ok (stack', res), y')" and "trav_shape p t stack"
  shows "trav_shape p t stack'"
  using assms
  by (auto simp: trav_call_def bnd_def ret_def stuck_def split: if_splits list.splits prod.splits outcome.splits)

lemma trav_userattrs_shape:
  "trav_userattrs cb t stack as y = (Ok stack', y') \<Longrightarrow> trav_shape p t stack \<Longrightarrow> trav_shape p t stack'"
proof (induction as arbitrary: stack y)
  case (Cons a as)
  then show ?case
    by (auto simp: bnd_def ret_def split: if_splits prod.splits outcome.splits dest: trav_call_shape)
qed (simp add: ret_def)

lemma trav_push_ok:
  assumes "trav_push f t stack y = (Ok ts', y')" and "trav_shape True t (f # stack) \<or> trav_shape False t (f # stack)"
  shows "trav_ok ts'"
  using assms by (auto simp: trav_push_def ret_def stuck_def trav_shape_weaken split: if_splits)

lemma trav_loop_ok:
  assumes "trav_loop c t stack y = (Ok ts', y')" and s: "trav_shape False t stack"
  shows "trav_ok ts'"
proof -
  obtain r y1 where f: "on_fst (trav_fetch c t) y = (r, y1)" by (metis surj_pair)
  then obtain x where x: "r = Ok x"
    using assms(1) by (cases r) (auto simp: trav_loop_def bnd_def)
  show ?thesis
  proof (cases x)
    case None
    then show ?thesis
      using assms(1) f x trav_break_ok [OF s] by (auto simp: trav_loop_def bnd_def ret_def)
  next
    case (Some t')
    from f x Some obtain s0 s1 where "trav_fetch c t s0 = (Ok (Some t'), s1)"
      by (auto simp: on_fst_def zoom_def split: prod.splits)
    note s' = trav_fetch_shape [OF this s]
    let ?g = "t'\<lparr>tv_tmask := 0, tv_ttag := 0, tv_begin := 0, tv_end := 0, tv_diff := 0, tv_filter := True\<rparr>"
    have push: "trav_shape True ?g (t' # stack)" if "lfs_tag_id (tv_tmask t') \<noteq> 0"
      using s' by (cases rule: trav_shape_cases) (use that in \<open>auto simp: lfs_tag_id_def\<close>)
    show ?thesis
      using assms(1) f x Some s' trav_shape_weaken [OF s'] trav_push_ok [OF _ disjI1 [OF push]]
      by (auto simp: trav_loop_def bnd_def ret_def Let_def split: if_splits)
  qed
qed

lemma trav_popped_ok:
  assumes run: "trav_popped cb t stack y = (Ok ts', y')" and s: "trav_shape True t stack"
  shows "trav_ok ts'"
proof -
  note weak = trav_shape_weaken [OF s]
  show ?thesis
  proof (cases "lfs_tag_type3 (tv_tag t) = LFS_FROM_MOVE \<or> lfs_tag_type3 (tv_tag t) = LFS_FROM_USERATTRS")
    case True
    have push: "trav_shape False (t\<lparr>tv_dir := dir, tv_off := 0, tv_ptag := 0xffffffff, tv_attrs := [],
          tv_tmask := m, tv_ttag := g, tv_begin := i, tv_end := j, tv_diff := d\<rparr>)
        (t\<lparr>tv_tag := LFS_MKTAG LFS_FROM_NOOP 0 0, tv_buffer := Buf_Null\<rparr> # stack)"
      if "\<not> tv_filter t" "tv_buffer t = Buf_Mdir dir'" for dir dir' m g i j d
      using s by (cases rule: trav_shape_cases) (use that in \<open>auto simp: from_log_def\<close>)
    show ?thesis
      using run weak True push
      by (auto simp: trav_popped_def Let_def ret_def stuck_def bnd_def split: if_splits mattr_buffer.splits
          prod.splits outcome.splits dest: trav_userattrs_shape intro: trav_push_ok)
  next
    case False
    then show ?thesis
      using run weak
      by (auto simp: trav_popped_def Let_def ret_def bnd_def split: if_splits prod.splits outcome.splits
          dest: trav_call_shape intro: trav_break_ok)
  qed
qed

lemma trav_next_ok: "trav_next c cb ts ts' \<Longrightarrow> trav_ok ts \<Longrightarrow> trav_ok ts'"
  by (erule trav_nextE, cases ts)
    (auto simp: trav_step_def ret_def intro: trav_loop_ok trav_popped_ok)

lemma trav_reach_ok: "trav_reach c cb t ts \<Longrightarrow> \<not> tv_filter t \<Longrightarrow> trav_ok ts"
  by (induction rule: trav_reach.induct) (auto intro: trav_next_ok)

text \<open>What the shape says of the array: a frame is pushed only when there is room for it.\<close>

lemma trav_shape_depth:
  "trav_shape p t stack \<Longrightarrow> length stack \<le> LFS_DIR_TRAVERSE_DEPTH - 1"
  by (erule trav_shape_cases) (simp_all add: LFS_DIR_TRAVERSE_DEPTH_def)

section \<open>What a traversal keeps\<close>

text \<open>A predicate on the data of a callback that a command keeps, whatever its outcome.\<close>

named_theorems keeps_rules \<comment> \<open>commands that keep a predicate on the data\<close>

definition keeps_data :: "('x \<Rightarrow> bool) \<Rightarrow> ('s \<times> 'x, 'a) cmd \<Rightarrow> bool" where
  "keeps_data P m \<longleftrightarrow> (\<forall>y. P (snd y) \<longrightarrow> P (snd (snd (m y))))"

lemma keeps_dataD: "keeps_data P m \<Longrightarrow> m y = (r, y') \<Longrightarrow> P (snd y) \<Longrightarrow> P (snd y')"
  unfolding keeps_data_def by (metis snd_conv)

lemma keeps_data_simple [keeps_rules]:
  "keeps_data P (ret a)" "keeps_data P (throw e)" "keeps_data P (stuck x)" "keeps_data P (on_fst m)"
  by (auto simp: keeps_data_def ret_def throw_def stuck_def on_fst_def zoom_def split: prod.splits)

lemma keeps_data_bnd [keeps_rules]:
  fixes m :: "('s \<times> 'x, 'a) cmd" and k :: "'a \<Rightarrow> ('s \<times> 'x, 'b) cmd"
  assumes "keeps_data P m" and "\<And>a. keeps_data P (k a)"
  shows "keeps_data P (bnd m k)"
  unfolding keeps_data_def
proof (intro allI impI)
  fix y :: "'s \<times> 'x" assume "P (snd y)"
  moreover obtain r z where run: "m y = (r, z)" by (metis surj_pair)
  ultimately have z: "P (snd z)" using assms(1) unfolding keeps_data_def by (metis snd_conv)
  then show "P (snd (snd (bnd m k y)))"
    using assms(2) by (cases r) (auto simp: bnd_def run keeps_data_def simp del: split_paired_All)
qed

lemma keeps_data_if [keeps_rules]:
  "(b \<Longrightarrow> keeps_data P m) \<Longrightarrow> (\<not> b \<Longrightarrow> keeps_data P k) \<Longrightarrow> keeps_data P (if b then m else k)"
  by simp

lemma keeps_data_cases [keeps_rules]:
  "keeps_data P k \<Longrightarrow> (\<And>a. keeps_data P (f a)) \<Longrightarrow> keeps_data P (case x of None \<Rightarrow> k | Some a \<Rightarrow> f a)"
  "(\<And>a b. keeps_data P (g a b)) \<Longrightarrow> keeps_data P (case z of (a, b) \<Rightarrow> g a b)"
  by (cases x, simp_all, cases z, simp)

text \<open>A callback that keeps a predicate, whatever tags it is called with.\<close>

locale keeping_callback =
  fixes P :: "'x \<Rightarrow> bool" and cb :: "('d, 'x) tag_cb"
  assumes cb: "keeps_data P (cb tag buf)"
begin

lemma keeps_call: "keeps_data P (trav_call cb b stack tag buf)"
  unfolding trav_call_def by (cases stack) (auto intro!: keeps_rules cb simp: Let_def)

lemma keeps_userattrs: "keeps_data P (trav_userattrs cb t stack as)"
  by (induction as arbitrary: stack) (auto intro!: keeps_rules keeps_call)

lemma keeps_step: "keeps_data P (trav_step c cb ts)"
proof (cases ts)
  case (Trav_Loop t stack)
  then show ?thesis
    by (auto simp: trav_step_def trav_loop_def Let_def trav_push_def intro!: keeps_rules)
next
  case (Trav_Popped t stack)
  then show ?thesis
    by (auto simp: trav_step_def trav_popped_def Let_def trav_push_def intro!: keeps_rules keeps_call keeps_userattrs
        split: mattr_buffer.splits)
qed (simp add: trav_step_def keeps_rules)

lemma keeps_run: "keeps_data P (trav_run c cb n ts)"
proof (induction n arbitrary: ts)
  case (Suc n)
  then show ?case by (cases ts) (auto intro!: keeps_rules keeps_step)
qed (simp add: keeps_rules)

lemma keeps_traverse: "keeps_data P (lfs_dir_traverse c dir off ptag attrs tmask ttag i j d cb)"
  unfolding lfs_dir_traverse_def by (rule keeps_run)

end

section \<open>Reads of the right length\<close>

text \<open>A device that returns as many bytes as it is asked for, when it returns any.\<close>

locale exact_reads =
  fixes c :: "'d lfs_config"
  assumes read_length: "cfg_read c b off sz d = (Ok xs, d') \<Longrightarrow> length xs = unat sz"
begin

lemma cache_lookup_le:
  "cache_lookup p b off k = Inl n \<Longrightarrow> unat n \<le> unat k" "cache_lookup p b off k = Inr n \<Longrightarrow> unat n \<le> unat k"
  by (auto simp: cache_lookup_def unat_lfs_min split: if_splits)

definition sized :: "nat \<Rightarrow> u8 list outcome \<Rightarrow> 's \<Rightarrow> bool" where
  "sized n r s \<longleftrightarrow> (\<forall>xs. r = Ok xs \<longrightarrow> length xs = n)"

lemma sized_simps [simp]: "sized n (Ok xs) s \<longleftrightarrow> length xs = n" "sized n (Err e) s" "sized n (Fault x) s"
  by (simp_all add: sized_def)

lemma wp_sized_any: "wp m (\<lambda>r s'. case r of Ok a \<Rightarrow> wp (f a) (sized n) s' | Err e \<Rightarrow> sized n (Err e) s' |
    Fault x \<Rightarrow> sized n (Fault x) s') s"
  if "\<And>a s'. wp (f a) (sized n) s'" for m :: "('s, 'a) cmd" and f n
  using that by (auto simp: wp_def split: prod.splits outcome.splits)

lemma read_loop_sized: "wp (bd_read_loop c pcache hint b n off sz) (sized (unat sz)) y"
proof (induction n arbitrary: off sz y)
  case (Suc n off sz y)
  obtain r d where y: "y = (r, d)" by (metis surj_pair)
  define more where "more = (\<lambda>diff xs. bnd (bd_read_loop c pcache hint b n (off + diff) (sz - diff)) (\<lambda>ys. ret (xs @ ys)))"
  have more: "wp (more diff xs) (sized (unat sz)) y" if "length xs = unat diff" "unat diff \<le> unat sz" for diff xs y
    using Suc.IH [of "off + diff" "sz - diff" y] that
    by (auto simp: more_def wp_bnd wp_ret unat_sub_u32 elim!: wp_mono split: outcome.splits)
  have copy: "wp (bnd (cache_copy p off diff) (more diff)) (sized (unat sz)) y" if "unat diff \<le> unat sz" for p diff y
    using more that by (simp add: wp_bnd cache_copy_def wp_mem_read)
  have bypass: "wp (bnd (on_snd (cfg_read c b off diff)) (more diff)) (sized (unat sz)) (r, d)"
    if "unat diff \<le> unat sz" for diff
    using more that read_length [of b off diff d]
    by (auto simp: wp_bnd wp_on_snd wp_def [of "cfg_read c b off diff"] split: prod.splits outcome.splits)
  have again: "wp (bnd m (\<lambda>_. bd_read_loop c pcache hint b n off sz)) (sized (unat sz)) y" for m :: "(lfs_cache \<times> 'd, unit) cmd" and y
    using Suc.IH by (auto simp: wp_bnd wp_def [of m] split: prod.splits outcome.splits)
  have rest: "wp (bnd (gets fst) (\<lambda>r. case cache_lookup r b off limit of
         Inl diff \<Rightarrow> bnd (cache_copy r off diff) (more diff)
       | Inr limit' \<Rightarrow>
           if hint \<le> sz \<and> off mod cfg_read_size c = 0 \<and> cfg_read_size c \<le> sz then
             let diff = lfs_aligndown limit' (cfg_read_size c)
             in bnd (on_snd (cfg_read c b off diff)) (more diff)
           else bnd (lfs_bd_load c hint b off) (\<lambda>_. bd_read_loop c pcache hint b n off sz)))
      (sized (unat sz)) y" if "unat limit \<le> unat sz" for limit
  proof -
    have "unat (lfs_aligndown k a) \<le> unat k" for k a by (simp add: unat_lfs_aligndown)
    then show ?thesis
      using that cache_lookup_le [of r b off limit] le_trans [OF _ that]
      by (auto simp: y wp_bnd_gets Let_def intro!: copy bypass again split: sum.splits)
        (meson le_trans)+
  qed
  have fold: "(\<lambda>xs. bnd (bd_read_loop c pcache hint b n (off + diff) (sz - diff)) (\<lambda>ys. ret (xs @ ys))) = more diff" for diff
    by (simp add: more_def)
  note rest' = rest [unfolded Let_def]
  show ?case
  proof (cases "sz = 0")
    case False
    note unfold = bd_read_loop.simps if_not_P [OF False] Let_def fold
    show ?thesis
    proof (cases pcache)
      case None
      then show ?thesis unfolding unfold using rest' [of sz] by simp
    next
      case (Some p)
      then show ?thesis
        unfolding unfold using copy rest' cache_lookup_le [of p b off sz]
        by (cases "cache_lookup p b off sz") simp_all
    qed
  qed (simp add: wp_ret)
qed (simp add: wp_stuck)

lemma read_sized: "wp (lfs_bd_read c pcache hint b off sz) (sized (unat sz)) y"
  by (simp add: lfs_bd_read_def wp_throw read_loop_sized del: bd_read_loop.simps)

end

lemma rambd_read_length: "lfs_rambd_read g b off sz d = (Ok xs, d') \<Longrightarrow> length xs = unat sz"
  by (auto simp: lfs_rambd_read_def cmd_simps split: if_splits)

interpretation rambd_exact: exact_reads "rambd_config g" for g
  by unfold_locales (simp add: rambd_read_length)

section \<open>The bounds of a commit\<close>

text \<open>
  \<open>wrote k r cm cm'\<close>: at most \<open>k\<close> bytes were added to the commit, and exactly \<open>k\<close> when the outcome
  is a result.
\<close>

definition wrote :: "nat \<Rightarrow> 'a outcome \<Rightarrow> lfs_commit \<Rightarrow> lfs_commit \<Rightarrow> bool" where
  "wrote k r cm cm' \<longleftrightarrow> cm_end cm' = cm_end cm \<and> cm_begin cm' = cm_begin cm \<and>
     cm_block cm' = cm_block cm \<and> cm_ptag cm' = cm_ptag cm \<and>
     unat (cm_off cm') \<le> unat (cm_off cm) + k \<and> (\<forall>a. r = Ok a \<longrightarrow> unat (cm_off cm') = unat (cm_off cm) + k)"

lemma wrote_none: "r \<noteq> Ok () \<Longrightarrow> wrote k r cm cm"
  by (simp add: wrote_def)

lemma wrote_trans:
  assumes "wrote j (Ok a) cm cm1" and "wrote k r cm1 cm2"
  shows "wrote (j + k) r cm cm2"
  using assms by (auto simp: wrote_def)

lemma wrote_error:
  assumes "wrote j (Ok a) cm cm1" and "\<And>a. r \<noteq> Ok a"
  shows "wrote (j + k) r cm cm1"
  using assms by (auto simp: wrote_def)

abbreviation writes :: "('d, unit) commit_cmd \<Rightarrow> nat \<Rightarrow> lfs_commit \<Rightarrow> 'd lfs \<Rightarrow> bool" where
  "writes m k cm s \<equiv> wp m (\<lambda>r y. wrote k r cm (snd y)) (s, cm)"

lemma writes_bnd:
  assumes "writes m j cm s" and "\<And>s' cm'. wrote j (Ok ()) cm cm' \<Longrightarrow> writes (f ()) k cm' s'"
  shows "writes (bnd m f) (j + k) cm s"
  unfolding wp_bnd
proof (rule wp_mono [OF assms(1)])
  fix r :: "unit outcome" and y :: "'a lfs \<times> lfs_commit"
  assume w: "wrote j r cm (snd y)"
  show "case r of Ok a \<Rightarrow> wp (f a) (\<lambda>r y. wrote (j + k) r cm (snd y)) y
      | Err e \<Rightarrow> wrote (j + k) (Err e) cm (snd y) | Fault x \<Rightarrow> wrote (j + k) (Fault x) cm (snd y)"
  proof (cases r)
    case (Ok a)
    have "writes (f ()) k (snd y) (fst y)" using w Ok by (intro assms(2)) simp
    then show ?thesis
      using w Ok by (auto elim!: wp_mono intro: wrote_trans)
  qed (use w in \<open>auto simp: wrote_def\<close>)
qed

lemma writes_prog:
  assumes "unat (cm_off cm) + length data < 4294967296"
  shows "writes (lfs_dir_commitprog c data) (length data) cm s"
proof -
  have "unat (cm_off cm + of_nat (length data)) = unat (cm_off cm) + length data"
    using assms by (simp add: unat_add_u32 unat_of_nat_u32)
  then show ?thesis
    by (auto simp: lfs_dir_commitprog_def get_commit_def upd_commit_def wp_simps wrote_def
        intro!: wp_trivial split: outcome.splits)
qed

context exact_reads begin

lemma writes_read:
  assumes "\<And>dat s'. length dat = unat k \<Longrightarrow> writes (f dat) j cm s'"
  shows "writes (bnd (on_fst (on_rcache (lfs_bd_read c p hint b off k))) f) j cm s"
  using read_sized [of p hint b off k "(lfs_rcache s, lfs_dev s)"] assms
  by (auto simp: wp_bnd wp_on_fst wp_on_rcache wp_def [of "lfs_bd_read c p hint b off k"] wrote_none
      split: prod.splits outcome.splits)

lemma writes_copy:
  "unat (cm_off cm) + (unat sz - unat i) < 4294967296 \<Longrightarrow> unat i \<le> unat sz \<Longrightarrow>
     writes (commit_copy c block off sz n i) (unat sz - unat i) cm s"
proof (induction n arbitrary: i cm s)
  case 0
  show ?case by (simp add: wp_stuck wrote_none)
next
  case (Suc n)
  show ?case
  proof (cases "i < sz")
    case True
    then have i: "unat (i + 1) = unat i + 1" "unat i < unat sz"
      using unat_add_u32 [of i 1] unat_less_u32 [of sz] by (auto simp: u32_simps)
    then have split: "unat sz - unat i = 1 + (unat sz - unat (i + 1))" by simp
    have prog: "writes (bnd (lfs_dir_commitprog c dat) (\<lambda>_. commit_copy c block off sz n (i + 1)))
        (1 + (unat sz - unat (i + 1))) cm s'" if "length dat = unat (1 :: u32)" for dat s'
    proof (rule writes_bnd)
      show "writes (lfs_dir_commitprog c dat) 1 cm s'"
        using writes_prog [of cm dat c s'] that Suc.prems i by simp
      show "writes (commit_copy c block off sz n (i + 1)) (unat sz - unat (i + 1)) cm' s''"
        if "wrote 1 (Ok ()) cm cm'" for s'' cm'
        using that Suc.prems i by (intro Suc.IH) (auto simp: wrote_def)
    qed
    show ?thesis
      unfolding commit_copy.simps if_P [OF True] split by (rule writes_read) (rule prog)
  next
    case False
    then show ?thesis by (simp add: wp_ret wrote_def u32_simps)
  qed
qed

text \<open>An entry is written to its end, or not past it.\<close>

lemma commitattr_wrote:
  assumes fit: "unat (cm_off cm) \<le> unat (cm_end cm)" "unat (cm_end cm) + 1026 < 4294967296"
  shows "wp (lfs_dir_commitattr c tag buffer) (\<lambda>r y. let cm' = snd y in
      cm_end cm' = cm_end cm \<and> cm_begin cm' = cm_begin cm \<and> cm_block cm' = cm_block cm \<and>
      unat (cm_off cm') \<le> unat (cm_end cm) \<and>
      (r = Ok () \<longrightarrow> unat (cm_off cm') = unat (cm_off cm) + unat (lfs_tag_dsize tag) \<and> cm_ptag cm' = tag AND 0x7fffffff)) (s, cm)"
proof -
  let ?n = "unat (lfs_tag_dsize tag)"
  note d = lfs_tag_dsize_bounds [of tag]
  have no: "unat (cm_off cm + lfs_tag_dsize tag) = unat (cm_off cm) + ?n"
    using fit d by (intro unat_add_u32) simp
  show ?thesis
  proof (cases "cm_end cm < cm_off cm + lfs_tag_dsize tag")
    case True
    then show ?thesis using fit by (simp add: lfs_dir_commitattr_def get_commit_def wp_simps Let_def)
  next
    case False
    then have le: "unat (cm_off cm) + ?n \<le> unat (cm_end cm)" using no by (simp add: u32_simps)
    have d4: "unat (lfs_tag_dsize tag - 4) = ?n - 4" using d by (simp add: unat_sub_u32)
    define body where "body = (if \<not> bit tag 31 then
              if lfs_tag_dsize tag = 4 then lfs_dir_commitprog c []
              else case buffer of
                  Buf_Mem bs \<Rightarrow> bnd (mem_read bs 0 (unat (lfs_tag_dsize tag - 4))) (lfs_dir_commitprog c)
                | _ \<Rightarrow> stuck Out_Of_Bounds
            else case buffer of
                Buf_Disk block off \<Rightarrow> commit_copy c block off (lfs_tag_dsize tag - 4) (unat (lfs_tag_dsize tag)) 0
              | _ \<Rightarrow> stuck Out_Of_Bounds)"
    have body: "writes body (?n - 4) cm1 s1" if o1: "unat (cm_off cm1) = unat (cm_off cm) + 4" for cm1 s1
    proof -
      have "writes (lfs_dir_commitprog c (take (?n - 4) bs)) (?n - 4) cm1 s1" if "?n - 4 \<le> length bs" for bs
      proof -
        have "length (take (?n - 4) bs) = ?n - 4" using that by simp
        then show ?thesis using writes_prog [of cm1 "take (?n - 4) bs" c s1] o1 le d fit by (simp del: length_take)
      qed
      then show ?thesis
        using o1 writes_prog [of cm1 "[]" c s1] writes_copy [of cm1 "lfs_tag_dsize tag - 4" 0] le d fit d4
        by (auto simp: body_def wp_stuck wrote_none wp_bnd wp_mem_read split: mattr_buffer.splits)
    qed
    have all: "writes (bnd (lfs_dir_commitprog c (u32_bytes (lfs_tobe32 ((tag AND 0x7fffffff) XOR cm_ptag cm)))) (\<lambda>_. body))
        (4 + (?n - 4)) cm s"
    proof (rule writes_bnd)
      show "writes (lfs_dir_commitprog c (u32_bytes (lfs_tobe32 ((tag AND 0x7fffffff) XOR cm_ptag cm)))) 4 cm s"
        using writes_prog [of cm "u32_bytes (lfs_tobe32 ((tag AND 0x7fffffff) XOR cm_ptag cm))" c s] le d fit by simp
      show "writes body (?n - 4) cm' s'" if "wrote 4 (Ok ()) cm cm'" for s' cm'
        by (rule body) (use that in \<open>simp add: wrote_def\<close>)
    qed
    have run: "wp (lfs_dir_commitattr c tag buffer) Q (s, cm) = wp (bnd (bnd (lfs_dir_commitprog c
        (u32_bytes (lfs_tobe32 ((tag AND 0x7fffffff) XOR cm_ptag cm)))) (\<lambda>_. body))
        (\<lambda>_. upd_commit (\<lambda>cm. cm\<lparr>cm_ptag := tag AND 0x7fffffff\<rparr>))) Q (s, cm)" for Q
      using False by (simp add: lfs_dir_commitattr_def get_commit_def wp_bnd_gets Let_def body_def bnd_assoc)
    show ?thesis
      unfolding run wp_bnd [of "bnd _ _"]
      by (rule wp_mono [OF all])
        (use le d in \<open>auto simp: wrote_def upd_commit_def wp_modify split: outcome.splits prod.splits\<close>)
  qed
qed

end

text \<open>The invariant of a commit: it lies inside its block up to its end.\<close>

definition commit_inside :: "u32 \<Rightarrow> lfs_commit \<Rightarrow> bool" where
  "commit_inside e cm \<longleftrightarrow> cm_end cm = e \<and> cm_off cm \<le> e \<and> unat e + 1026 < 4294967296"

context exact_reads begin

lemma keeps_commit: "keeps_data (commit_inside e) (lfs_dir_commit_commit c tag buffer)"
  unfolding keeps_data_def
proof (intro allI impI)
  fix y :: "'d lfs \<times> lfs_commit" assume y: "commit_inside e (snd y)"
  have "wp (lfs_dir_commitattr c tag buffer) (\<lambda>r y'. commit_inside e (snd y')) (fst y, snd y)"
    by (rule wp_mono [OF commitattr_wrote]) (use y in \<open>auto simp: commit_inside_def u32_simps Let_def\<close>)
  then have "wp (lfs_dir_commit_commit c tag buffer) (\<lambda>r y'. commit_inside e (snd y')) (fst y, snd y)"
    unfolding lfs_dir_commit_commit_def wp_bnd
    by (rule wp_mono) (auto simp: wp_ret split: outcome.splits)
  then show "commit_inside e (snd (snd (lfs_dir_commit_commit c tag buffer y)))"
    by (simp add: wp_def split: prod.splits)
qed

end

interpretation rambd_commit: keeping_callback "commit_inside e" "lfs_dir_commit_commit (rambd_config g)" for e g
  by unfold_locales (rule rambd_exact.keeps_commit)

section \<open>Padding\<close>

text \<open>The next checksum tag of the padding ends the commit, or leaves room for another one.\<close>

definition pad_next :: "u32 \<Rightarrow> u32 \<Rightarrow> u32" where
  "pad_next lim off = (let noff = lfs_min (lim - off) 0x3fe + off
     in if noff < lim then lfs_min noff (lim - 2 * 4) else noff)"

lemma pad_next:
  assumes "unat off + 4 \<le> unat lim" and "unat lim < 4000000000"
  shows "unat off < unat (pad_next lim off)"
    and "unat (pad_next lim off) = unat lim \<or> unat (pad_next lim off) + 8 \<le> unat lim"
    and "unat (pad_next lim off - off) < 1023"
proof -
  have d: "unat (lim - off) = unat lim - unat off" using assms by (intro unat_sub_u32) simp
  have n: "unat (lfs_min (lim - off) 0x3fe + off) = min (unat lim - unat off) 0x3fe + unat off"
    using d assms by (simp add: unat_add_u32 unat_lfs_min)
  have "unat (pad_next lim off) = (if min (unat lim - unat off) 0x3fe + unat off < unat lim
      then min (0x3fe + unat off) (unat lim - 8) else unat lim)"
    using n assms by (auto simp: pad_next_def Let_def u32_simps unat_lfs_min unat_sub_u32)
  then show "unat off < unat (pad_next lim off)"
    "unat (pad_next lim off) = unat lim \<or> unat (pad_next lim off) + 8 \<le> unat lim"
    "unat (pad_next lim off - off) < 1023"
    using assms by (auto simp: unat_sub_u32 split: if_splits)
qed

text \<open>One turn of the loop: the tag and its checksum are written, the checksum is the result.\<close>

definition pad_turn :: "'d lfs_config \<Rightarrow> u32 \<Rightarrow> lfs_commit \<Rightarrow> ('d, u32) commit_cmd" where
  "pad_turn c lim cm =
     (let off = cm_off cm + 4; noff = pad_next lim off in
      bnd (attempt (on_fst (read_u32 c 4 (cm_block cm) noff))) (\<lambda>r.
      bnd (case r of Inl e \<Rightarrow> if e \<noteq> LFS_ERR_CORRUPT then throw e else ret 0xffffffff | Inr w \<Rightarrow> ret w) (\<lambda>w.
      let reset = (\<not> bit (lfs_frombe32 w) 31);
          tag = LFS_MKTAG (LFS_TYPE_CRC + (if reset then 1 else 0)) 0x3ff (noff - off);
          footer0 = u32_bytes (lfs_tobe32 (tag XOR cm_ptag cm));
          crc = lfs_crc (cm_crc cm) footer0
      in bnd (upd_commit (\<lambda>cm. cm\<lparr>cm_crc := crc\<rparr>)) (\<lambda>_.
         bnd (on_fst (on_caches (lfs_bd_prog c False (cm_block cm) (cm_off cm)
                (footer0 @ u32_bytes (lfs_tole32 crc))))) (\<lambda>_.
         bnd (upd_commit (\<lambda>cm. cm\<lparr>cm_off := cm_off cm + (4 + lfs_tag_size tag),
                cm_ptag := tag XOR (if reset then 0x80000000 else 0), cm_crc := 0xffffffff\<rparr>)) (\<lambda>_.
         ret crc))))))"

lemma commitcrc_pad_Suc:
  "commitcrc_pad c lim (Suc n) off1 crc1 =
     bnd get_commit (\<lambda>cm. if cm_off cm < lim then
       bnd (pad_turn c lim cm) (\<lambda>crc. if off1 = 0 then commitcrc_pad c lim n (cm_off cm + 4) crc
         else commitcrc_pad c lim n off1 crc1)
     else ret (off1, crc1))"
  unfolding commitcrc_pad.simps pad_turn_def pad_next_def Let_def bnd_assoc bnd_ret by (rule refl)

lemma pad_tag_size:
  assumes "unat n < 1023"
  shows "lfs_tag_size (LFS_MKTAG (LFS_TYPE_CRC + (if b then 1 else 0)) 0x3ff n) = n"
  by (rule mktag_fields(3)) (use assms in \<open>auto simp: LFS_TYPE_CRC_def\<close>)

text \<open>What is left of a commit before a turn: nothing, or room for a tag and its checksum.\<close>

definition pad_room :: "u32 \<Rightarrow> u32 \<Rightarrow> bool" where
  "pad_room lim off \<longleftrightarrow> unat lim < 4000000000 \<and> (off = lim \<or> unat off + 8 \<le> unat lim)"

lemma pad_turn:
  assumes room: "pad_room lim (cm_off cm)" and less: "cm_off cm < lim"
    and run: "pad_turn c lim cm (s, cm) = (Ok crc, (s', cm'))"
  shows "pad_room lim (cm_off cm') \<and> unat (cm_off cm) < unat (cm_off cm')"
proof -
  let ?off = "cm_off cm + 4"
  have r: "unat (cm_off cm) + 8 \<le> unat lim" "unat lim < 4000000000"
    using room less by (auto simp: pad_room_def)
  then have o: "unat ?off = unat (cm_off cm) + 4" by (simp add: unat_add_u32)
  have pn: "unat ?off < unat (pad_next lim ?off)"
      "unat (pad_next lim ?off) = unat lim \<or> unat (pad_next lim ?off) + 8 \<le> unat lim"
      "unat (pad_next lim ?off - ?off) < 1023"
    using pad_next [of ?off lim] o r by auto
  have "cm_off cm' = cm_off cm + (4 + (pad_next lim ?off - ?off))"
    using run by (auto simp: pad_turn_def Let_def upd_commit_def cmd_simps pad_tag_size [OF pn(3)]
        split: prod.splits outcome.splits sum.splits if_splits)
  then have "cm_off cm' = pad_next lim ?off" by simp
  then show ?thesis using pn o r by (auto simp: pad_room_def u32_eq)
qed

lemma commitcrc_pad_end:
  "pad_room lim (cm_off cm) \<Longrightarrow> commitcrc_pad c lim n off1 crc1 (s, cm) = (Ok x, (s', cm')) \<Longrightarrow> cm_off cm' = lim"
proof (induction n arbitrary: off1 crc1 s cm)
  case (Suc n)
  show ?case
  proof (cases "cm_off cm < lim")
    case True
    from Suc.prems(2) obtain crc s1 cm1 where t: "pad_turn c lim cm (s, cm) = (Ok crc, (s1, cm1))"
      unfolding commitcrc_pad_Suc using True
      by (auto simp: get_commit_def bnd_def gets_def split: prod.splits outcome.splits)
    then show ?thesis
      using Suc.prems(2) Suc.IH [of cm1] pad_turn [OF Suc.prems(1) True t] True
      unfolding commitcrc_pad_Suc by (auto simp: get_commit_def bnd_def gets_def split: if_splits)
  next
    case False
    then have "cm_off cm = lim" using Suc.prems(1) by (auto simp: pad_room_def u32_simps)
    then show ?thesis
      using Suc.prems(2) unfolding commitcrc_pad_Suc by (auto simp: get_commit_def bnd_def gets_def ret_def)
  qed
qed (simp add: stuck_def)

lemma commitcrc_pad_fuel:
  "pad_room lim (cm_off cm) \<Longrightarrow> unat lim - unat (cm_off cm) < n \<Longrightarrow>
     commitcrc_pad c lim (n + k) off1 crc1 (s, cm) = commitcrc_pad c lim n off1 crc1 (s, cm)"
proof (induction n arbitrary: off1 crc1 s cm)
  case (Suc n)
  show ?case
  proof (cases "cm_off cm < lim")
    case True
    obtain r y where t: "pad_turn c lim cm (s, cm) = (r, y)" by (metis surj_pair)
    show ?thesis
    proof (cases r)
      case (Ok crc)
      obtain s1 cm1 where y: "y = (s1, cm1)" by (metis surj_pair)
      note p = pad_turn [OF Suc.prems(1) True t [unfolded Ok y]]
      then have "unat lim - unat (cm_off cm1) < n" using Suc.prems(2) True [unfolded u32_less] by arith
      then show ?thesis
        using p Suc.IH [of cm1] t Ok y True
        by (simp add: commitcrc_pad_Suc get_commit_def bnd_def gets_def del: commitcrc_pad.simps)
    qed (use t True in \<open>simp_all add: commitcrc_pad_Suc get_commit_def bnd_def gets_def del: commitcrc_pad.simps\<close>)
  next
    case False
    then show ?thesis by (simp add: commitcrc_pad_Suc get_commit_def bnd_def gets_def del: commitcrc_pad.simps)
  qed
qed simp

text \<open>The end that \<^verbatim>\<open>lfs_dir_commitcrc\<close> pads to: the next program unit with room for one tag.\<close>

lemma pad_room_alignup:
  assumes g: "wf_geometry c" and off: "unat off \<le> unat (cfg_block_size c)"
  defines "lim \<equiv> lfs_alignup (off + 2 * 4) (cfg_prog_size c)"
  shows "pad_room lim off" and "unat (cfg_prog_size c) dvd unat lim"
    and "unat lim < unat off + 8 + unat (cfg_prog_size c)" and "unat off + 8 \<le> unat lim"
proof -
  let ?p = "unat (cfg_prog_size c)"
  have p: "0 < ?p" "?p \<le> unat (cfg_block_size c)" "unat (cfg_block_size c) < 1073741824"
    using wf_geometryD [OF g] by (auto intro: dvd_imp_le)
  have o: "unat (off + 2 * 4) = unat off + 8" using off p by (simp add: unat_add_u32)
  have lim: "unat lim = ?p * ((unat off + 8 + ?p - 1) div ?p)"
    using o p off by (simp add: lim_def unat_lfs_alignup)
  show "?p dvd unat lim" by (simp add: lim)
  have "unat off + 8 + ?p - 1 = unat lim + (unat off + 8 + ?p - 1) mod ?p"
    by (simp add: lim mult_div_mod_eq)
  moreover have "(unat off + 8 + ?p - 1) mod ?p < ?p" using p by simp
  ultimately obtain m where m: "unat off + 8 + ?p - 1 = unat lim + m" "m < ?p" by blast
  show "unat lim < unat off + 8 + ?p" using m by arith
  show "unat off + 8 \<le> unat lim" using m by arith
  show "pad_room lim off"
    unfolding pad_room_def
  proof (intro conjI disjI2)
    show "unat off + 8 \<le> unat lim" using m by arith
    show "unat lim < 4000000000" using m p off by arith
  qed
qed

text \<open>The rest of \<^verbatim>\<open>lfs_dir_commitcrc\<close> leaves the commit as the padding does.\<close>

lemma lfs_dir_commitcrc_pad:
  assumes "lfs_dir_commitcrc c (s, cm) = (Ok (), (s', cm'))"
  shows "\<exists>x s1. commitcrc_pad c (lfs_alignup (cm_off cm + 2 * 4) (cfg_prog_size c))
      (unat (lfs_alignup (cm_off cm + 2 * 4) (cfg_prog_size c) - cm_off cm) + 1) 0 0 (s, cm) = (Ok x, (s1, cm'))"
  using assms
  by (auto simp: lfs_dir_commitcrc_def get_commit_def bnd_def gets_def Let_def on_fst_def zoom_def
      simp del: commitcrc_pad.simps split: prod.splits outcome.splits)

text \<open>A frame of a compaction with one attribute, for the examples.\<close>

definition demo_frame :: trav_frame where
  "demo_frame = \<lparr>tv_dir = mdir_zero, tv_off = 0, tv_ptag = 0xffffffff,
     tv_attrs = [\<lparr>mattr_tag = LFS_MKTAG 0x201 1 0, mattr_buffer = Buf_Null\<rparr>],
     tv_tmask = LFS_MKTAG 0x400 0x3ff 0, tv_ttag = 0, tv_begin = 0, tv_end = 2, tv_diff = 0,
     tv_filter = False, tv_tag = 0, tv_buffer = Buf_Null\<rparr>"

end
