(* ===== verification/LFS_Session.thy ===== *)
theory LFS_Session
  imports LFS_Api LFS_Log LFS_Alloc_Props
begin

text \<open>
  The list of open objects over the calls of the interface.  Several functions of
  \<^verbatim>\<open>src/src/lfs/lfs.c\<close> link a local variable of theirs into \<^verbatim>\<open>lfs->mlist\<close> for the time of a
  commit, and return early on errors; a variable that stays linked is a dangling pointer.  The
  first part shows of every function that it leaves the list as it found it, except for those that
  open, close, mount and format; the second part is the machine whose steps are the calls, with the
  table of open handles that it implements.
\<close>

section \<open>Commands that leave a part of the state alone\<close>

text \<open>The part is the same after a result or an error; nothing is said of a fault.\<close>

definition settled :: "('s \<Rightarrow> 'p) \<Rightarrow> 'p \<Rightarrow> 'a outcome \<Rightarrow> 's \<Rightarrow> bool" where
  "settled f v r s' \<longleftrightarrow> (case r of Fault x \<Rightarrow> True | _ \<Rightarrow> f s' = v)"

definition keeps_part :: "('s \<Rightarrow> 'p) \<Rightarrow> ('s, 'a) cmd \<Rightarrow> bool" where
  "keeps_part f m \<longleftrightarrow> (\<forall>s. wp m (settled f (f s)) s)"

named_theorems part_rules \<comment> \<open>commands that leave a part of the state alone\<close>

lemma settled_simps [simp]:
  "settled f v (Ok a) s = (f s = v)" "settled f v (Err e) s = (f s = v)" "settled f v (Fault x) s"
  by (simp_all add: settled_def)

lemma part_wp: "keeps_part f m \<Longrightarrow> f s = v \<Longrightarrow> wp m (settled f v) s"
  by (auto simp: keeps_part_def)

lemma keeps_partD: "keeps_part f m \<Longrightarrow> m s = (r, s') \<Longrightarrow> settled f (f s) r s'"
  by (drule part_wp [OF _ refl, of _ _ s]) (simp add: wp_def)

lemma part_simple [part_rules]:
  "keeps_part f (ret a)" "keeps_part f (throw e)" "keeps_part f (stuck x)" "keeps_part f (gets h)"
  "keeps_part f (assertion b)" "keeps_part f (mem_read buf i n)" "keeps_part f (mem_write buf i xs)"
  by (auto simp: keeps_part_def wp_simps)

lemma part_modify [part_rules]: "(\<And>s. f (h s) = f s) \<Longrightarrow> keeps_part f (modify h)"
  by (simp add: keeps_part_def wp_simps)

lemma part_bnd [part_rules]:
  assumes "keeps_part f m" and "\<And>a. keeps_part f (k a)"
  shows "keeps_part f (bnd m k)"
  unfolding keeps_part_def wp_bnd
proof
  fix s
  show "wp m (\<lambda>r s'. case r of Ok a \<Rightarrow> wp (k a) (settled f (f s)) s' | Err e \<Rightarrow> settled f (f s) (Err e) s'
      | Fault x \<Rightarrow> settled f (f s) (Fault x) s') s"
    by (rule wp_mono [OF part_wp [OF assms(1) refl]]) (auto split: outcome.splits intro: part_wp [OF assms(2)])
qed

lemma part_attempt [part_rules]:
  assumes "keeps_part f m"
  shows "keeps_part f (attempt m)"
  unfolding keeps_part_def wp_attempt
  by (intro allI, rule wp_mono [OF part_wp [OF assms refl]]) (auto split: outcome.splits)

lemma part_handle [part_rules]:
  assumes "keeps_part f m" and "\<And>e. keeps_part f (h e)"
  shows "keeps_part f (handle m h)"
  unfolding keeps_part_def wp_handle
  by (intro allI, rule wp_mono [OF part_wp [OF assms(1) refl]])
    (auto split: outcome.splits intro: part_wp [OF assms(2)])

lemma part_zoom [part_rules]:
  "(\<And>t s. f (put t s) = f s) \<Longrightarrow> keeps_part f (zoom get put m)"
  by (auto simp: keeps_part_def wp_zoom settled_def intro!: wp_trivial split: outcome.splits)

lemma settled_comp: "settled f v r (g s) \<longleftrightarrow> settled (\<lambda>y. f (g y)) v r s"
  by (simp add: settled_def split: outcome.split)

lemma part_on_fst [part_rules]:
  assumes "keeps_part f m"
  shows "keeps_part (\<lambda>y. f (fst y)) (on_fst m)"
  unfolding keeps_part_def
proof
  fix y
  obtain r t where "m (fst y) = (r, t)" by (metis surj_pair)
  with keeps_partD [OF assms this] show "wp (on_fst m) (settled (\<lambda>y. f (fst y)) (f (fst y))) y"
    by (auto simp: wp_def on_fst_def zoom_def settled_comp [symmetric] split: prod.split)
qed

lemma part_on_snd [part_rules]:
  assumes "keeps_part f m"
  shows "keeps_part (\<lambda>y. f (snd y)) (on_snd m)"
  unfolding keeps_part_def
proof
  fix y
  obtain r t where "m (snd y) = (r, t)" by (metis surj_pair)
  with keeps_partD [OF assms this] show "wp (on_snd m) (settled (\<lambda>y. f (snd y)) (f (snd y))) y"
    by (auto simp: wp_def on_snd_def zoom_def settled_comp [symmetric] split: prod.split)
qed

lemma part_if [part_rules]:
  "(b \<Longrightarrow> keeps_part f m) \<Longrightarrow> (\<not> b \<Longrightarrow> keeps_part f k) \<Longrightarrow> keeps_part f (if b then m else k)"
  by simp

lemma part_cases [part_rules]:
  "(\<And>e. keeps_part f (h e)) \<Longrightarrow> (\<And>a. keeps_part f (k a)) \<Longrightarrow>
     keeps_part f (case x of Inl e \<Rightarrow> h e | Inr a \<Rightarrow> k a)"
  "keeps_part f m \<Longrightarrow> (\<And>a. keeps_part f (k' a)) \<Longrightarrow> keeps_part f (case y of None \<Rightarrow> m | Some a \<Rightarrow> k' a)"
  "(\<And>a b. keeps_part f (k'' a b)) \<Longrightarrow> keeps_part f (case z of (a, b) \<Rightarrow> k'' a b)"
  by (auto split: sum.splits option.splits prod.splits)

lemma part_for_each [part_rules]: "(\<And>x. keeps_part f (m x)) \<Longrightarrow> keeps_part f (for_each m xs)"
  by (induction xs) (auto intro!: part_rules)

lemma part_run_data [part_rules]:
  assumes "keeps_part (\<lambda>y. f (fst y)) m"
  shows "keeps_part f (run_data x m)"
  unfolding keeps_part_def
proof
  fix s
  obtain r s' x' where "m (s, x) = (r, (s', x'))" by (metis surj_pair)
  with keeps_partD [OF assms this] show "wp (run_data x m) (settled f (f s)) s"
    by (cases r) (simp_all add: wp_def run_data_def)
qed

lemma part_with_data [part_rules]: "keeps_part (\<lambda>y. f (fst y)) m \<Longrightarrow> keeps_part f (with_data x m)"
  unfolding with_data_def by (intro part_rules)

section \<open>The functions that do not touch the list\<close>

text \<open>The list of open objects, and the limits, which only mounting and formatting set.\<close>

definition open_part :: "'d lfs \<Rightarrow> obj_ref list \<times> u32 \<times> u32 \<times> u32" where
  "open_part s = (lfs_mlist s, lfs_name_max s, lfs_file_max s, lfs_attr_max s)"

abbreviation leaves :: "('d lfs, 'a) cmd \<Rightarrow> bool" where
  "leaves m \<equiv> keeps_part open_part m"

abbreviation leaves_with :: "('d lfs \<times> 'x, 'a) cmd \<Rightarrow> bool" where
  "leaves_with m \<equiv> keeps_part (\<lambda>y. open_part (fst y)) m"

lemma open_part_fields [simp]:
  "open_part (s\<lparr>lfs_pcache := p\<rparr>) = open_part s" "open_part (s\<lparr>lfs_rcache := p\<rparr>) = open_part s"
  "open_part (s\<lparr>lfs_dev := d\<rparr>) = open_part s" "open_part (s\<lparr>lfs_objs := obs\<rparr>) = open_part s"
  "open_part (s\<lparr>lfs_free := fr\<rparr>) = open_part s" "open_part (s\<lparr>lfs_root := root\<rparr>) = open_part s"
  "open_part (s\<lparr>lfs_seed := n\<rparr>) = open_part s" "open_part (s\<lparr>lfs_gstate := g\<rparr>) = open_part s"
  "open_part (s\<lparr>lfs_gdisk := g\<rparr>) = open_part s" "open_part (s\<lparr>lfs_gdelta := g\<rparr>) = open_part s"
  by (simp_all add: open_part_def)

lemma leaves_state [part_rules]:
  "leaves (get_obj x)" "leaves (upd_obj x g)" "leaves (set_m x d)" "leaves (upd_fcache x k)"
  "leaves (on_rcache m1)" "leaves (on_caches m2)" "leaves (on_dev m3)" "leaves (on_free m4)"
  "leaves (on_fcaches x m2)" "leaves (on_fcache x m1)"
  by (auto simp: get_obj_def upd_obj_def set_m_def upd_fcache_def on_rcache_def on_caches_def on_dev_def
      on_free_def on_fcaches_def on_fcache_def put_fcache_def intro!: part_rules split: prod.split)

lemma leaves_bad_block [part_rules]:
  "keeps_part f m \<Longrightarrow> keeps_part f (bad_block m)" "keeps_part f m \<Longrightarrow> keeps_part f (no_room m)"
  by (auto simp: bad_block_def no_room_def intro!: part_rules)

lemma leaves_fcache_lfs [part_rules]:
  assumes "keeps_part (\<lambda>y. open_part (snd y)) m"
  shows "leaves (on_fcache_lfs x m)"
  unfolding keeps_part_def
proof
  fix s :: "'a lfs"
  obtain r p s' where "m (file_cache (lfs_objs s x), s) = (r, (p, s'))" by (metis surj_pair)
  with keeps_partD [OF assms this] show "wp (on_fcache_lfs x m) (settled open_part (open_part s)) s"
    by (simp add: wp_def on_fcache_lfs_def zoom_def settled_def put_fcache_def split: outcome.splits)
qed

subsection \<open>Reading\<close>

lemma leaves_read [part_rules]: "leaves (read_u32 c h b i)" "leaves (stag_ret t)"
  by (auto simp: read_u32_def stag_ret_def intro!: part_rules)

lemma leaves_getslice_loop: "leaves (getslice_loop c dir gmask gtag goff gsize n off ntag gdiff)"
  by (induction n arbitrary: off ntag gdiff) (auto simp: getslice_match_def Let_def intro!: part_rules)

lemma leaves_dir_get [part_rules]:
  "leaves (lfs_dir_getslice c dir gmask gtag goff gsize)" "leaves (lfs_dir_get c dir gmask gtag)"
  unfolding lfs_dir_getslice_def lfs_dir_get_def Let_def by (intro part_rules leaves_getslice_loop)+

lemma leaves_getread_load [part_rules]:
  "keeps_part f (cache_copy p off n)"
  "keeps_part (\<lambda>y. open_part (snd y)) (dir_getread_load c dir hint gmask gtag off)"
  unfolding dir_getread_load_def cache_copy_def Let_def by (intro part_rules; simp split: prod.split)+

lemma leaves_getread_loop:
  "keeps_part (\<lambda>y. open_part (snd y)) (getread_loop c dir p hint gmask gtag n off sz)"
  by (induction n arbitrary: off sz) (auto simp: Let_def intro!: part_rules split: sum.split)

lemma leaves_getread [part_rules]:
  "keeps_part (\<lambda>y. open_part (snd y)) (lfs_dir_getread c dir p hint gmask gtag off sz)"
  unfolding lfs_dir_getread_def by (intro part_rules leaves_getread_loop)

text \<open>A callback of the scan that leaves the list alone.\<close>

lemma leaves_fetch_entry_crc: "leaves (fetch_entry_crc c dsz n j st)"
  by (induction n arbitrary: j st) (auto simp: fetch_read_def intro!: part_rules)

lemma leaves_fetch_try: "leaves m \<Longrightarrow> (\<And>a. leaves (k a)) \<Longrightarrow> leaves (fetch_try st m k)"
  unfolding fetch_try_def by (intro part_rules)

lemma leaves_fetch_read [part_rules]: "leaves (fetch_read c st off sz)"
  unfolding fetch_read_def by (intro part_rules)

lemma leaves_fetch_loop:
  assumes "\<And>tag b off. leaves (cb tag b off)"
  shows "leaves (fetch_loop c fmask ftag cb n st)"
proof -
  have m: "leaves (fetch_match c fmask ftag cb tag st)" for tag st
    unfolding fetch_match_def by (intro part_rules leaves_fetch_try assms)
  have e: "leaves (fetch_entry c fmask ftag cb tag st)" for tag st
    unfolding fetch_entry_def fetch_modify_def Let_def
    by (intro part_rules leaves_fetch_try leaves_fetch_entry_crc m)
  have "leaves (fetch_crc c tag st)" for tag st
    unfolding fetch_crc_def Let_def by (intro part_rules leaves_fetch_try; simp)
  then have s: "leaves (fetch_step c fmask ftag cb st)" for st
    unfolding fetch_step_def Let_def by (intro part_rules leaves_fetch_try e)
  show ?thesis
  proof (induction n arbitrary: st)
    case (Suc n)
    then show ?case by (auto intro!: part_rules s split: fetch_next.split)
  qed (simp add: part_rules)
qed

lemma leaves_fetchmatch:
  assumes "\<And>tag b off. leaves (cb tag b off)"
  shows "leaves (lfs_dir_fetchmatch c dir pair fmask ftag cb)"
proof -
  have "leaves (fetch_passes c fmask ftag cb orev n d best)" for orev n d best
    by (induction n arbitrary: d best) (auto simp: Let_def intro!: part_rules leaves_fetch_loop assms
        simp del: fetch_loop.simps)
  then show ?thesis
    unfolding lfs_dir_fetchmatch_def fetch_rev_def Let_def by (intro part_rules)
qed

lemma leaves_fetch [part_rules]: "leaves (lfs_dir_fetch c dir pair)" "leaves (fetch_into c x pair)"
  unfolding lfs_dir_fetch_def fetch_into_def null_cb_def by (intro part_rules leaves_fetchmatch)+

lemma leaves_getgstate [part_rules]: "leaves (lfs_dir_getgstate c dir g)" "leaves (lfs_dir_getinfo c dir i info)"
  unfolding lfs_dir_getgstate_def lfs_dir_getinfo_def Let_def by (intro part_rules)+

lemma leaves_find_in_dir: "leaves (find_in_dir c name islast n dir i)"
proof -
  have "leaves (lfs_dir_find_match c name tag block off)" for tag block off
    unfolding lfs_dir_find_match_def Let_def by (intro part_rules)
  then show ?thesis
    by (induction n arbitrary: dir i) (auto simp: Let_def intro!: part_rules leaves_fetchmatch split: option.split)
qed

lemma leaves_dir_find_loop: "leaves (dir_find_loop c n name0 dir path i tag)"
  by (induction n arbitrary: name0 dir path i tag)
    (auto simp: Let_def simp del: find_in_dir.simps intro!: part_rules leaves_find_in_dir)

lemma leaves_find [part_rules]: "leaves (lfs_dir_find c dir path)" "leaves (find_into c x path)"
  unfolding lfs_dir_find_def find_into_def by (intro part_rules leaves_dir_find_loop)+

lemma leaves_pred_loop: "leaves (pred_loop c pair n cycle pdir)"
  by (induction n arbitrary: cycle pdir) (auto intro!: part_rules)

lemma leaves_parent_loop: "leaves (parent_loop c pair n cycle pdir)"
proof -
  have "leaves (lfs_fs_parent_match c pair tag block off)" for tag block off
    unfolding lfs_fs_parent_match_def by (intro part_rules)
  then show ?thesis
    by (induction n arbitrary: cycle pdir) (auto intro!: part_rules leaves_fetchmatch)
qed

lemma leaves_fs [part_rules]:
  "leaves (lfs_fs_pred c pair d)" "leaves (lfs_fs_parent c pair d)"
  "leaves (lfs_fs_preporphans n)" "leaves (lfs_fs_prepmove i pair)"
  unfolding lfs_fs_pred_def lfs_fs_parent_def lfs_fs_preporphans_def lfs_fs_prepmove_def
  by (intro part_rules leaves_pred_loop leaves_parent_loop; simp)+

subsection \<open>Allocating and writing data\<close>

lemma leaves_ctz_traverse:
  assumes "\<And>b. leaves_with (cb b)"
  shows "leaves_with (lfs_ctz_traverse c pcache head sz cb)"
proof -
  have "leaves_with (ctz_traverse_loop c pcache cb n index head)" for n index head
    by (induction n arbitrary: index head) (auto simp: Let_def intro!: part_rules assms)
  then show ?thesis unfolding lfs_ctz_traverse_def Let_def by (intro part_rules)
qed

lemma leaves_rawtraverse:
  assumes cb: "\<And>b. leaves_with (cb b)"
  shows "leaves_with (lfs_fs_rawtraverse c cb orphans)"
proof -
  have e: "leaves_with (rawtraverse_entry c cb orphans dir i)" for dir i
    unfolding rawtraverse_entry_def Let_def by (intro part_rules cb leaves_ctz_traverse)
  have f: "leaves_with (rawtraverse_file c cb x)" for x
    unfolding rawtraverse_file_def by (intro part_rules cb leaves_ctz_traverse)
  have "leaves_with (rawtraverse_chain c cb orphans n cycle dir)" for n cycle dir
    by (induction n arbitrary: cycle dir) (auto simp del: for_each.simps intro!: part_rules cb e)
  then show ?thesis unfolding lfs_fs_rawtraverse_def by (intro part_rules f)
qed

lemma leaves_rawsize [part_rules]: "leaves (lfs_fs_rawsize c)"
  unfolding lfs_fs_rawsize_def lfs_fs_size_count_def
  by (intro part_rules leaves_rawtraverse; simp split: prod.split)

lemma leaves_alloc_ack [part_rules]: "leaves (lfs_alloc_ack c)" "leaves (lfs_alloc_drop c)"
  unfolding lfs_alloc_ack_def lfs_alloc_drop_def by (intro part_rules)+

lemma leaves_alloc_loop: "leaves (alloc_loop c n)"
  by (induction n) (auto simp: lfs_alloc_lookahead_def simp del: alloc_scan.simps
      intro!: part_rules leaves_rawtraverse)

lemma leaves_alloc [part_rules]: "leaves (lfs_alloc c)"
  unfolding lfs_alloc_def by (intro part_rules leaves_alloc_loop)

lemma leaves_extend_loops:
  "leaves (extend_copy c x head nblock noff n i)" "leaves (extend_pointers c x nblock skips n i nhead)"
  by (induction n arbitrary: i nhead) (auto intro!: part_rules)

lemma leaves_extend_block: "leaves (extend_block c x head sz nblock)"
  unfolding extend_block_def Let_def by (intro part_rules leaves_extend_loops)

lemma leaves_extend_loop: "leaves (extend_loop c x head sz n)"
  by (induction n) (auto intro!: part_rules leaves_extend_block)

lemma leaves_extend [part_rules]: "leaves (lfs_ctz_extend c x head sz)"
  unfolding lfs_ctz_extend_def by (intro part_rules leaves_extend_loop)

lemma leaves_set_ferr [part_rules]: "leaves m \<Longrightarrow> leaves (set_ferr x m)"
  unfolding set_ferr_def by (intro part_rules)

lemma leaves_inline_read [part_rules]: "leaves (inline_read c x hint off sz)"
  unfolding inline_read_def by (intro part_rules)

lemma leaves_relocate_copy: "leaves (relocate_copy c x nblock n i)"
  by (induction n arbitrary: i) (auto intro!: part_rules)

lemma leaves_relocate_done: "leaves (relocate_done c x nblock)"
  unfolding relocate_done_def by (intro part_rules; simp)

lemma leaves_relocate_loop: "leaves (relocate_loop c x n)"
  by (induction n) (auto simp del: relocate_copy.simps
      intro!: part_rules leaves_relocate_copy leaves_relocate_done)

lemma leaves_relocate [part_rules]: "leaves (lfs_file_relocate c x)" "leaves (lfs_file_outline c x)"
  unfolding lfs_file_relocate_def lfs_file_outline_def by (intro part_rules leaves_relocate_loop)+

lemma leaves_flushedread_loop: "leaves (flushedread_loop c x n nsize)"
  by (induction n arbitrary: nsize) (auto simp: flushedread_seek_def Let_def intro!: part_rules)

lemma leaves_flushedread [part_rules]: "leaves (lfs_file_flushedread c x sz)"
  unfolding lfs_file_flushedread_def Let_def by (intro part_rules leaves_flushedread_loop)

lemma leaves_flushedwrite_seek [part_rules]: "leaves (flushedwrite_seek c x)"
  unfolding flushedwrite_seek_def flushedwrite_extend_def by (intro part_rules)

lemma leaves_flushedwrite_prog: "leaves (flushedwrite_prog c x data n)"
  by (induction n) (auto intro!: part_rules)

lemma leaves_flushedwrite_loop: "leaves (flushedwrite_loop c x n data)"
  by (induction n arbitrary: data) (auto simp: Let_def simp del: flushedwrite_prog.simps
      intro!: part_rules leaves_flushedwrite_prog)

lemma leaves_flushedwrite [part_rules]: "leaves (lfs_file_flushedwrite c x data)"
  unfolding lfs_file_flushedwrite_def by (intro part_rules leaves_flushedwrite_loop)

lemma leaves_on_shared [part_rules]: "leaves m \<Longrightarrow> leaves (on_shared x m)"
  unfolding on_shared_def by (intro part_rules; simp)

lemma leaves_flush_loops: "leaves (flush_copy c x n)" "leaves (flush_write c x n)"
  by (induction n) (auto intro!: part_rules)

lemma leaves_flush [part_rules]: "leaves (lfs_file_flush c x)"
  unfolding lfs_file_flush_def flush_data_def by (intro part_rules leaves_flush_loops; simp)

lemma leaves_write_zeros: "leaves (write_zeros c x pos n)"
  by (induction n) (auto intro!: part_rules)

lemma leaves_rawread [part_rules]:
  "leaves (lfs_file_rawread c x sz)" "leaves (lfs_file_rawwrite c x data)"
  "leaves (lfs_file_rawsize x)" "leaves (lfs_file_rawtell x)"
  unfolding lfs_file_rawread_def lfs_file_rawwrite_def lfs_file_rawsize_def lfs_file_rawtell_def
  by (intro part_rules leaves_write_zeros)+

lemma leaves_seek [part_rules]: "leaves (lfs_file_rawseek c x off whence)" "leaves (lfs_file_rawrewind c x)"
proof -
  have "keeps_part open_part (seek_target f off whence :: ('a lfs, u32) cmd)" for f off whence
    by (cases whence) (auto simp: seek_target_def signed_add_def Let_def intro!: part_rules)
  then show s: "leaves (lfs_file_rawseek c x off whence)" for off whence
    unfolding lfs_file_rawseek_def Let_def by (intro part_rules)
  show "leaves (lfs_file_rawrewind c x)"
    unfolding lfs_file_rawrewind_def by (intro part_rules s)
qed

lemma leaves_truncate_zeros: "leaves (truncate_zeros c x sz n)"
  by (induction n) (auto intro!: part_rules)

lemma leaves_truncate [part_rules]: "leaves (lfs_file_rawtruncate c x sz)"
  unfolding lfs_file_rawtruncate_def Let_def by (intro part_rules leaves_truncate_zeros)

subsection \<open>Committing to directories\<close>

lemma part_buffer:
  "keeps_part f m1 \<Longrightarrow> (\<And>bs. keeps_part f (m2 bs)) \<Longrightarrow> (\<And>b i. keeps_part f (m3 b i)) \<Longrightarrow>
     (\<And>d. keeps_part f (m4 d)) \<Longrightarrow> (\<And>as. keeps_part f (m5 as)) \<Longrightarrow>
     keeps_part f (case_mattr_buffer m1 m2 m3 m4 m5 buf)"
  by (cases buf) simp_all

lemma leaves_traverse:
  assumes cb: "\<And>tag buf. leaves_with (cb tag buf)"
  shows "leaves_with (lfs_dir_traverse c dir off ptag attrs tmask ttag i j d cb)"
proof -
  have call: "leaves_with (trav_call cb b stack tag buf)" for b stack tag buf
    by (cases stack) (auto simp: trav_call_def Let_def intro!: part_rules cb)
  have user: "leaves_with (trav_userattrs cb t stack as)" for t stack as
    by (induction as arbitrary: stack) (auto intro!: part_rules call)
  have push: "keeps_part f (trav_push t u stack)" for t u stack and f :: "'a lfs \<times> 'b \<Rightarrow> 'c"
    unfolding trav_push_def by (intro part_rules)
  have fetch: "leaves (trav_fetch c t)" for t
    unfolding trav_fetch_def Let_def by (auto intro!: part_rules split: list.split)
  have loop: "leaves_with (trav_loop c t stack :: ('a lfs \<times> 'b, trav_state) cmd)" for t stack
    unfolding trav_loop_def Let_def by (intro part_rules push fetch)
  have "leaves_with (trav_popped cb t stack)" for t stack
    unfolding trav_popped_def Let_def by (intro part_rules part_buffer push call user)
  then have step: "leaves_with (trav_step c cb ts)" for ts
    by (cases ts) (auto simp: trav_step_def intro!: part_rules loop)
  have "leaves_with (trav_run c cb n ts)" for n ts
    by (induction n arbitrary: ts) (auto intro!: part_rules step split: trav_state.split)
  then show ?thesis unfolding lfs_dir_traverse_def .
qed

lemma leaves_with_commit [part_rules]:
  "leaves_with (get_commit :: ('a, lfs_commit) commit_cmd)" "leaves_with (upd_commit g)"
  by (auto simp: get_commit_def upd_commit_def intro!: part_rules)

lemma leaves_commitprog [part_rules]: "leaves_with (lfs_dir_commitprog c data)"
  unfolding lfs_dir_commitprog_def by (intro part_rules)

lemma leaves_commit_copy: "leaves_with (commit_copy c block off sz n i)"
  by (induction n arbitrary: i) (auto intro!: part_rules)

lemma leaves_commitattr [part_rules]: "leaves_with (lfs_dir_commitattr c tag buf)"
  unfolding lfs_dir_commitattr_def Let_def by (intro part_rules part_buffer leaves_commit_copy)

lemma leaves_commit_cb: "leaves_with (lfs_dir_commit_commit c tag buf)" "leaves_with (lfs_dir_commit_size tag buf)"
  unfolding lfs_dir_commit_commit_def lfs_dir_commit_size_def by (intro part_rules; simp split: prod.split)+

lemma leaves_commitcrc_loops:
  "leaves_with (commitcrc_pad c lim n off1 crc1)"
  "leaves (commitcrc_sum c block off2 crc2 noff n i crc)"
  by (induction n arbitrary: off1 crc1 i crc) (auto simp: Let_def intro!: part_rules)

lemma leaves_commitcrc_check: "leaves (commitcrc_check c block lim off1 crc1 n off noff)"
  by (induction n arbitrary: off noff) (auto simp: Let_def simp del: commitcrc_sum.simps
      intro!: part_rules leaves_commitcrc_loops)

lemma leaves_commitcrc [part_rules]: "leaves_with (lfs_dir_commitcrc c)"
  unfolding lfs_dir_commitcrc_def Let_def by (intro part_rules leaves_commitcrc_loops leaves_commitcrc_check)

lemma leaves_dir_alloc [part_rules]: "leaves (lfs_dir_alloc c)" "leaves (commit_delta r)"
  "leaves_with (commit_gstate c d)"
  unfolding lfs_dir_alloc_def commit_delta_def commit_gstate_def Let_def by (intro part_rules)+

lemma leaves_writes [part_rules]:
  "leaves_with (compact_write c dir attrs source i j relocated)" "leaves_with (append_write c dir attrs)"
  unfolding compact_write_def append_write_def
  by (intro part_rules leaves_traverse leaves_commit_cb)+

lemma leaves_tries [part_rules]:
  "leaves (compact_try c dir attrs source i j relocated)" "leaves (append_try c dir attrs)"
  unfolding compact_try_def append_try_def by (intro part_rules; simp)+

lemma leaves_compact_loop: "leaves (compact_loop c attrs source i j n go relocated tired dir)"
  by (induction n arbitrary: go relocated tired dir) (auto intro!: part_rules)

lemma leaves_compact [part_rules]: "leaves (lfs_dir_compact c dir attrs source i j)"
  unfolding lfs_dir_compact_def Let_def by (intro part_rules leaves_compact_loop)

lemma leaves_split [part_rules]:
  "leaves (lfs_dir_split c dir attrs source k j)" "leaves (commit_range_size c attrs source n j)"
  unfolding lfs_dir_split_def commit_range_size_def
  by (intro part_rules leaves_traverse leaves_commit_cb; simp)+

lemma leaves_find_split: "leaves (find_split c attrs source j n k)"
  by (induction n arbitrary: k) (auto intro!: part_rules)

lemma leaves_splitting_loop: "leaves (splitting_loop c attrs source i n j dir)"
  by (induction n arbitrary: j dir) (auto simp del: find_split.simps intro!: part_rules leaves_find_split)

lemma leaves_splittingcompact [part_rules]: "leaves (lfs_dir_splittingcompact c dir attrs source i j)"
  unfolding lfs_dir_splittingcompact_def by (intro part_rules leaves_splitting_loop)

lemma part_commit_changes [part_rules]: "keeps_part f (commit_changes attrs dh)"
  by (induction attrs arbitrary: dh)
    (auto simp: Let_def intro!: part_rules part_buffer)

lemma leaves_fix_tail: "leaves (fix_tail c x n)"
  by (induction n) (auto intro!: part_rules)

lemma leaves_fix_object [part_rules]:
  "leaves (fix_object c self pair dir attrs x)" "leaves (relocating_write c dir attrs)"
  unfolding fix_object_def relocating_write_def by (intro part_rules leaves_fix_tail; simp)+

lemma leaves_relocatingcommit [part_rules]:
  "leaves (lfs_dir_relocatingcommit c dir self pair attrs pdir)"
  unfolding lfs_dir_relocatingcommit_def by (intro part_rules)

lemma leaves_relocate_pairs [part_rules]:
  "leaves (evict_inline c self x)" "leaves (relocate_move pdir)"
  unfolding evict_inline_def relocate_move_def by (intro part_rules)+

lemma leaves_relocate_parent [part_rules]:
  "leaves (relocate_parent c lpair ldir pdir)" "leaves (relocate_pred c lpair ldir pdir b)"
  unfolding relocate_parent_def relocate_pred_def Let_def by (intro part_rules)+

lemma leaves_relocation_loop: "leaves (relocation_loop c n state lpair ldir pdir orphans)"
  by (induction n arbitrary: state lpair ldir pdir orphans) (auto intro!: part_rules)

lemma leaves_orphaningcommit [part_rules]: "leaves (lfs_dir_orphaningcommit c self attrs)"
  unfolding lfs_dir_orphaningcommit_def Let_def by (intro part_rules leaves_relocation_loop; simp)

lemma leaves_fix_orphans [part_rules]: "leaves (deorphan_check c powerloss pdir dir)"
  unfolding deorphan_check_def fix_orphan_def fix_half_orphan_def deorphan_commit_def Let_def
  by (intro part_rules; simp)

lemma leaves_deorphan_loop: "leaves (deorphan_loop c powerloss n dir found)"
  by (induction n arbitrary: dir found)
    (auto simp: Let_def intro!: part_rules split: deorphan_next.split)

lemma leaves_deorphan [part_rules]: "leaves (lfs_fs_deorphan c powerloss)"
  unfolding lfs_fs_deorphan_def by (intro part_rules leaves_deorphan_loop)

lemma leaves_dir_commit [part_rules]: "leaves (lfs_dir_commit c dir attrs)" "leaves (lfs_dir_drop c dir tail)"
  unfolding lfs_dir_commit_def lfs_dir_drop_def by (intro part_rules; simp)+

lemma leaves_forceconsistency [part_rules]: "leaves (lfs_fs_forceconsistency c)"
  unfolding lfs_fs_forceconsistency_def lfs_fs_demove_def by (intro part_rules)

subsection \<open>Directories, files and names\<close>

lemma leaves_last_pair: "leaves (last_pair c x n)"
  by (induction n) (auto intro!: part_rules)

text \<open>
  A variable that is linked into the list for the time of a commit is taken out again, also after
  an error.  \<open>undone v\<close> is the state in between: after a result the list may hold the variable, after
  an error it is that of \<open>v\<close>.
\<close>

definition limits :: "'d lfs \<Rightarrow> u32 \<times> u32 \<times> u32" where
  "limits s = (lfs_name_max s, lfs_file_max s, lfs_attr_max s)"

lemma open_part_pair: "open_part s = (lfs_mlist s, limits s)"
  by (simp add: open_part_def limits_def)

definition undone :: "obj_ref list \<times> u32 \<times> u32 \<times> u32 \<Rightarrow> 'a outcome \<Rightarrow> 'd lfs \<Rightarrow> bool" where
  "undone v r s \<longleftrightarrow> (case r of Ok a \<Rightarrow> limits s = snd v | Err e \<Rightarrow> open_part s = v | Fault x \<Rightarrow> True)"

lemma undone_simps [simp]:
  "undone v (Ok a) s = (limits s = snd v)" "undone v (Err e) s = (open_part s = v)" "undone v (Fault x) s"
  by (simp_all add: undone_def)

lemma set_mlist_part [simp]:
  "limits (s\<lparr>lfs_mlist := ml\<rparr>) = limits s" "open_part (s\<lparr>lfs_mlist := ml\<rparr>) = (ml, limits s)"
  by (simp_all add: open_part_pair limits_def)

lemma limits_open: "open_part s = v \<Longrightarrow> limits s = snd v"
  by (auto simp: open_part_pair)

lemma undone_leaves:
  assumes "leaves m" and "open_part s = v"
  shows "wp m (undone v) s"
  by (rule wp_mono [OF part_wp [OF assms]]) (auto simp: undone_def settled_def limits_open split: outcome.splits)

lemma limits_leaves:
  assumes "leaves m"
  shows "wp m (settled limits (limits s)) s"
  by (rule wp_mono [OF part_wp [OF assms refl]])
    (auto simp: settled_def limits_open [of s] dest: limits_open split: outcome.splits)

lemma wp_undone_bnd:
  assumes "wp m (undone v) s" and "\<And>a s'. limits s' = snd v \<Longrightarrow> wp (k a) Q s'"
    and "\<And>e s'. open_part s' = v \<Longrightarrow> Q (Err e) s'" and "\<And>x s'. Q (Fault x) s'"
  shows "wp (bnd m k) Q s"
  unfolding wp_bnd by (rule wp_mono [OF assms(1)]) (auto simp: undone_def intro: assms(2-) split: outcome.splits)

lemma wp_leaves_bnd:
  assumes "leaves m" and "open_part s = v" and "\<And>a s'. open_part s' = v \<Longrightarrow> wp (k a) Q s'"
    and "\<And>e s'. open_part s' = v \<Longrightarrow> Q (Err e) s'" and "\<And>x s'. Q (Fault x) s'"
  shows "wp (bnd m k) Q s"
  unfolding wp_bnd
  by (rule wp_mono [OF part_wp [OF assms(1,2)]]) (auto split: outcome.splits intro: assms(3-))

lemma undone_commit_unlinked:
  assumes "limits s = snd v" and "ml = fst v"
  shows "wp (commit_unlinked c ml x attrs) (undone v) s"
  unfolding commit_unlinked_def wp_handle
proof (rule wp_mono)
  show "wp (lfs_dir_commit c x attrs) (settled limits (limits s)) s" by (rule limits_leaves) (rule part_rules)
qed (use assms in \<open>auto simp: wp_simps set_mlist_def split: outcome.splits\<close>)

text \<open>A commit with a variable in the list, and the rest after the variable is taken out.\<close>

lemma wp_linked_commit:
  assumes "\<And>r. leaves (k r)" and "open_part s = (ml, l)"
  shows "wp (bnd (set_mlist (x # ml)) (\<lambda>_. bnd (attempt (lfs_dir_commit c y attrs)) (\<lambda>r.
      bnd (set_mlist ml) (\<lambda>_. k r)))) (settled open_part (ml, l)) s"
proof -
  have "wp (lfs_dir_commit c y attrs) (settled limits l) (s\<lparr>lfs_mlist := x # ml\<rparr>)"
    using limits_leaves [OF leaves_dir_commit(1), where s = "s\<lparr>lfs_mlist := x # ml\<rparr>"] limits_open [OF assms(2)] by simp
  then show ?thesis
    unfolding set_mlist_def wp_bnd_modify wp_bnd [of "attempt _"] wp_attempt
    by (rule wp_mono) (auto split: outcome.splits intro!: part_wp [OF assms(1)])
qed

lemma leaves_mkdir_desync [part_rules]: "leaves (mkdir_desync c pair)"
  unfolding keeps_part_def
proof
  fix s :: "'a lfs"
  have k: "leaves (case r of Inl e \<Rightarrow> throw e | Inr _ \<Rightarrow> lfs_fs_preporphans (- 1))" for r :: "lfs_error + unit"
    by (intro part_rules)
  show "wp (mkdir_desync c pair) (settled open_part (open_part s)) s"
    unfolding mkdir_desync_def
    by (rule wp_leaves_bnd [OF leaves_fs(3) refl])
      (auto simp: wp_bnd_gets wp_bnd_modify upd_obj_def limits_def open_part_pair intro!: wp_linked_commit k)
qed

lemma leaves_mkdir [part_rules]: "leaves (lfs_rawmkdir c path)"
  unfolding lfs_rawmkdir_def Let_def by (intro part_rules leaves_last_pair)

lemma leaves_dir_read_loop: "leaves (dir_read_loop c x n)"
  by (induction n) (auto intro!: part_rules)

lemma leaves_dir_seek_loop: "leaves (dir_seek_loop c x n off)"
  by (induction n arbitrary: off) (auto simp: Let_def intro!: part_rules)

lemma leaves_dirs [part_rules]:
  "leaves (lfs_dir_rawread c x)" "leaves (lfs_dir_rawtell x)" "leaves (lfs_dir_rawrewind c x)"
  unfolding lfs_dir_rawread_def dir_next_pos_def lfs_dir_rawtell_def lfs_dir_rawrewind_def
  by (intro part_rules leaves_dir_read_loop)+

lemma leaves_dir_rawseek [part_rules]: "leaves (lfs_dir_rawseek c x off)"
  unfolding lfs_dir_rawseek_def Let_def by (intro part_rules leaves_dir_seek_loop)

lemma leaves_rawsync [part_rules]: "leaves (lfs_file_rawsync c x)"
  unfolding lfs_file_rawsync_def Let_def by (intro part_rules)

lemma leaves_rawstat [part_rules]: "leaves (lfs_rawstat c path info)"
  unfolding lfs_rawstat_def by (intro part_rules)

lemma leaves_attrs [part_rules]:
  "leaves (find_attr_dir c x path)" "leaves (lfs_rawgetattr c path type n)"
  unfolding find_attr_dir_def lfs_rawgetattr_def by (intro part_rules)+

lemma leaves_commit_attrs [part_rules]:
  "leaves (lfs_rawsetattr c path type data)" "leaves (lfs_rawremoveattr c path type)"
  unfolding lfs_rawsetattr_def lfs_rawremoveattr_def lfs_commitattr_def by (intro part_rules)+

lemma leaves_drop_dir [part_rules]: "leaves (drop_dir c cwd x)"
  unfolding drop_dir_def by (intro part_rules)

lemma undone_bnd:
  "leaves m \<Longrightarrow> open_part s = v \<Longrightarrow> (\<And>a s'. open_part s' = v \<Longrightarrow> wp (k a) (undone v) s') \<Longrightarrow>
     wp (bnd m k) (undone v) s"
  by (erule wp_leaves_bnd) auto

lemma undone_ends:
  "open_part s = v \<Longrightarrow> wp (throw e) (undone v) s" "limits s = snd v \<Longrightarrow> wp (ret a) (undone v) s"
  "limits s = snd v \<Longrightarrow> wp (set_mlist l) (undone v) s"
  by (auto simp: wp_simps set_mlist_def)

lemma undone_cases:
  "(b \<Longrightarrow> wp m Q s) \<Longrightarrow> (\<not> b \<Longrightarrow> wp m' Q s) \<Longrightarrow> wp (if b then m else m') Q s"
  "(\<And>i j. wp (k i j) Q s) \<Longrightarrow> wp (case z of (i, j) \<Rightarrow> k i j) Q s"
  by (auto split: prod.split)

lemma undone_unlink_dir: "open_part s = v \<Longrightarrow> wp (unlink_dir c x cwd i) (undone v) s"
  unfolding unlink_dir_def
  by (rule undone_bnd undone_ends undone_cases part_rules limits_open | assumption)+

text \<open>The list as it was, and the rest.\<close>

lemma wp_restored:
  "leaves m \<Longrightarrow> limits s = snd v \<Longrightarrow> ml = fst v \<Longrightarrow> wp (bnd (set_mlist ml) (\<lambda>_. m)) (settled open_part v) s"
  unfolding set_mlist_def wp_bnd_modify by (rule part_wp) simp_all

lemma leaves_remove [part_rules]: "leaves (lfs_rawremove c path)"
proof -
  let ?tail = "\<lambda>tag. bnd (gets lfs_mlist) (\<lambda>ml.
             bnd (get_obj remove_cwd) (\<lambda>cwd.
             bnd (if lfs_tag_type3 tag = LFS_TYPE_DIR
                  then unlink_dir c remove_dir (obj_m cwd) (lfs_tag_id tag) else ret ()) (\<lambda>_.
             bnd (commit_unlinked c ml remove_cwd [delete_attr (lfs_tag_id tag)]) (\<lambda>_.
             bnd (set_mlist ml) (\<lambda>_.
             if lfs_tag_type3 tag = LFS_TYPE_DIR then drop_dir c remove_cwd remove_dir else ret ())))))"
  have tail: "leaves (?tail tag)" for tag
    unfolding keeps_part_def
  proof
    fix s :: "'a lfs"
    have unlink: "wp (if lfs_tag_type3 tag = LFS_TYPE_DIR
        then unlink_dir c remove_dir (obj_m cwd) (lfs_tag_id tag) else ret ()) (undone (open_part s)) s" for cwd
      by (rule undone_cases undone_unlink_dir undone_ends limits_open refl)+
    have rest: "leaves (if lfs_tag_type3 tag = LFS_TYPE_DIR then drop_dir c remove_cwd remove_dir else ret ())"
      by (intro part_rules)
    show "wp (?tail tag) (settled open_part (open_part s)) s"
      unfolding wp_bnd_gets get_obj_def
      by (rule wp_undone_bnd [OF unlink], rule wp_undone_bnd [OF undone_commit_unlinked], assumption,
          simp add: open_part_pair, rule wp_restored [OF rest], assumption, simp_all add: open_part_pair)
  qed
  show ?thesis unfolding lfs_rawremove_def by (rule tail | rule part_rules)+
qed

text \<open>
  The checks of a renaming: a renaming that has nothing to do has not linked anything.
\<close>

definition checked :: "obj_ref list \<times> u32 \<times> u32 \<times> u32 \<Rightarrow> (u16 + unit) outcome \<Rightarrow> 'd lfs \<Rightarrow> bool" where
  "checked v r s \<longleftrightarrow> undone v r s \<and> (r = Ok (Inr ()) \<longrightarrow> open_part s = v)"

lemma checked_rename_check:
  "open_part s = v \<Longrightarrow> wp (rename_check c newpath oldtag prev newid samepair) (checked v) s"
  by (cases prev)
    (auto simp: rename_check_def Let_def checked_def limits_open get_obj_def wp_bnd_gets wp_ret wp_throw
      intro!: wp_undone_bnd [OF undone_unlink_dir] undone_cases)

lemma undone_rename_commit:
  assumes "limits s = snd v" and "ml = fst v"
  shows "wp (rename_commit c ml newpath oldtag ex newid newoldid samepair) (undone v) s"
proof -
  have prep: "limits (s\<lparr>lfs_gstate := g\<rparr>) = limits s" for g and s :: "'a lfs" by (simp add: limits_def)
  show ?thesis
    using assms
    by (auto simp: rename_commit_def get_obj_def lfs_fs_prepmove_def prep wp_bnd_gets wp_bnd_modify wp_ret
        intro!: wp_undone_bnd [OF undone_commit_unlinked] undone_commit_unlinked undone_cases)
qed

lemma leaves_rename [part_rules]: "leaves (lfs_rawrename c oldpath newpath)"
proof -
  let ?tail = "\<lambda>path oldtag prev newid. bnd (get_obj rename_oldcwd) (\<lambda>o1.
               bnd (get_obj rename_newcwd) (\<lambda>n1.
               bnd (gets lfs_mlist) (\<lambda>ml.
               let samepair = (\<not> lfs_pair_cmp (md_pair (obj_m o1)) (md_pair (obj_m n1))) in
               bnd (rename_check c path oldtag prev newid samepair) (\<lambda>r. case r of
                   Inr _ \<Rightarrow> ret ()
                 | Inl newoldid \<Rightarrow>
                     bnd (rename_commit c ml path oldtag (\<not> isl prev) newid newoldid samepair) (\<lambda>_.
                     bnd (set_mlist ml) (\<lambda>_.
                     if (case prev of Inl _ \<Rightarrow> False | Inr prevtag \<Rightarrow> lfs_tag_type3 prevtag = LFS_TYPE_DIR)
                     then drop_dir c rename_newcwd rename_prevdir else ret ()))))))"
  have tail: "leaves (?tail path oldtag prev newid)" for path oldtag prev newid
    unfolding keeps_part_def
  proof
    fix s :: "'a lfs"
    let ?v = "open_part s"
    define fin where "fin = (if (case prev of Inl _ \<Rightarrow> False | Inr prevtag \<Rightarrow> lfs_tag_type3 prevtag = LFS_TYPE_DIR)
        then drop_dir c rename_newcwd rename_prevdir else ret ())"
    have fin: "leaves fin"
      unfolding fin_def by (intro part_rules)
    have commit: "wp (bnd (rename_commit c (lfs_mlist s) path oldtag ex newid i samepair) (\<lambda>_.
        bnd (set_mlist (lfs_mlist s)) (\<lambda>_. fin))) (settled open_part ?v) s'"
      if "limits s' = snd ?v" for i ex samepair s'
      by (rule wp_undone_bnd [OF undone_rename_commit [OF that]], simp add: open_part_pair,
          rule wp_restored [OF fin], assumption, simp_all add: open_part_pair)
    show "wp (?tail path oldtag prev newid) (settled open_part ?v) s"
      unfolding get_obj_def wp_bnd_gets Let_def wp_bnd [of "rename_check _ _ _ _ _ _"] fin_def [symmetric]
    proof (rule wp_mono [OF checked_rename_check [OF refl]])
      fix r and s' :: "'a lfs" assume r: "checked ?v r s'"
      show "case r of
          Ok a \<Rightarrow> wp (case a of Inl newoldid \<Rightarrow>
              bnd (rename_commit c (lfs_mlist s) path oldtag (\<not> isl prev) newid newoldid samepair) (\<lambda>_.
              bnd (set_mlist (lfs_mlist s)) (\<lambda>_. fin)) | Inr _ \<Rightarrow> ret ()) (settled open_part ?v) s'
        | Err e \<Rightarrow> settled open_part ?v (Err e) s' | Fault x \<Rightarrow> settled open_part ?v (Fault x) s'" for samepair
        using r by (auto simp: checked_def wp_ret commit split: outcome.splits sum.splits)
    qed
  qed
  show ?thesis unfolding lfs_rawrename_def by (rule tail | rule part_rules)+
qed

section \<open>Opening and closing\<close>

definition opened ::
  "obj_ref \<Rightarrow> obj_ref list \<times> u32 \<times> u32 \<times> u32 \<Rightarrow> 'a outcome \<Rightarrow> 'd lfs \<Rightarrow> bool" where
  "opened x v r s \<longleftrightarrow> (case r of Ok a \<Rightarrow> open_part s = (x # fst v, snd v) | Err e \<Rightarrow> open_part s = v | Fault y \<Rightarrow> True)"

definition closed ::
  "obj_ref \<Rightarrow> obj_ref list \<times> u32 \<times> u32 \<times> u32 \<Rightarrow> 'a outcome \<Rightarrow> 'd lfs \<Rightarrow> bool" where
  "closed x v r s \<longleftrightarrow> settled open_part (remove1 x (fst v), snd v) r s"

lemma opened_simps [simp]:
  "opened x v (Ok a) s = (open_part s = (x # fst v, snd v))" "opened x v (Err e) s = (open_part s = v)"
  "opened x v (Fault y) s"
  by (simp_all add: opened_def)

lemma mlist_part [simp]:
  "lfs_mlist (lfs_mlist_append x s) = x # lfs_mlist s" "limits (lfs_mlist_append x s) = limits s"
  "lfs_mlist (lfs_mlist_remove x s) = remove1 x (lfs_mlist s)" "limits (lfs_mlist_remove x s) = limits s"
  by (simp_all add: lfs_mlist_append_def lfs_mlist_remove_def)

lemma opened_bnd:
  "leaves m \<Longrightarrow> open_part s = v \<Longrightarrow> (\<And>a s'. open_part s' = v \<Longrightarrow> wp (k a) (opened x v) s') \<Longrightarrow>
     wp (bnd m k) (opened x v) s"
  by (erule wp_leaves_bnd) auto

lemma opened_ends:
  "open_part s = v \<Longrightarrow> wp (throw e) (opened x v) s"
  "open_part s = v \<Longrightarrow> wp (modify (lfs_mlist_append x)) (opened x v) s"
  by (auto simp: wp_simps open_part_pair)

lemma opened_cases:
  "(\<And>e. wp (h e) Q s) \<Longrightarrow> (\<And>a. wp (k a) Q s) \<Longrightarrow> wp (case w of Inl e \<Rightarrow> h e | Inr a \<Rightarrow> k a) Q s"
  by (simp split: sum.split)

lemma opened_dir_rawopen: "open_part s = v \<Longrightarrow> wp (lfs_dir_rawopen c x path) (opened x v) s"
  unfolding lfs_dir_rawopen_def
  by (rule opened_bnd opened_ends opened_cases undone_cases part_rules | assumption)+

lemma closed_rawclose: "open_part s = v \<Longrightarrow> wp (lfs_file_rawclose c x) (closed x v) s"
  unfolding lfs_file_rawclose_def
  unfolding wp_bnd [of "attempt _"] wp_attempt
  by (rule wp_mono [OF part_wp [OF leaves_rawsync]])
    (auto simp: wp_bnd_modify closed_def open_part_pair wp_simps split: sum.split outcome.splits)

lemma leaves_open_steps [part_rules]:
  "leaves (open_create c x path)" "leaves (open_existing c x tag)" "leaves (open_cache c x tag)"
  unfolding open_create_def open_existing_def open_cache_def Let_def by (intro part_rules)+

lemma leaves_open_attrs: "leaves (open_attrs c x ks)"
  by (induction ks) (auto simp: Let_def intro!: part_rules)

text \<open>The body of an opening: after an error the file may be in the list or not.\<close>

definition half_open ::
  "obj_ref \<Rightarrow> obj_ref list \<times> u32 \<times> u32 \<times> u32 \<Rightarrow> 'a outcome \<Rightarrow> 'd lfs \<Rightarrow> bool" where
  "half_open x v r s \<longleftrightarrow> (let w = (x # fst v, snd v) in case r of
      Ok a \<Rightarrow> open_part s = w | Err e \<Rightarrow> open_part s = v \<or> open_part s = w | Fault y \<Rightarrow> True)"

lemma half_bnd:
  "leaves m \<Longrightarrow> open_part s = v \<Longrightarrow> (\<And>a s'. open_part s' = v \<Longrightarrow> wp (k a) (half_open x v) s') \<Longrightarrow>
     wp (bnd m k) (half_open x v) s"
  by (erule wp_leaves_bnd) (auto simp: half_open_def Let_def)

lemma half_open_body:
  assumes s: "open_part s = v"
  shows "wp (open_body c x path0 flags attrs) (half_open x v) s"
proof -
  let ?w = "(x # fst v, snd v)"
  have tail: "wp (bnd (modify (lfs_mlist_append x)) (\<lambda>_.
       bnd (case res of Inl _ \<Rightarrow> open_create c x path | Inr tag \<Rightarrow> open_existing c x tag) (\<lambda>tag.
       bnd (open_attrs c x [0..<length attrs]) (\<lambda>_.
       open_cache c x tag)))) (half_open x v) s'" if "open_part s' = v" for res path s'
  proof -
    have "leaves (bnd (case res of Inl _ \<Rightarrow> open_create c x path | Inr tag \<Rightarrow> open_existing c x tag) (\<lambda>tag.
       bnd (open_attrs c x [0..<length attrs]) (\<lambda>_. open_cache c x tag)))"
      by (intro part_rules leaves_open_attrs)
    then show ?thesis
      unfolding wp_bnd_modify
      by (rule wp_mono [OF part_wp, where v1 = ?w])
        (use that in \<open>auto simp: open_part_pair half_open_def settled_def split: outcome.splits\<close>)
  qed
  have last: "wp (case res of Inl e \<Rightarrow> throw e | Inr _ \<Rightarrow> ret ()) (half_open x v) s'"
    if "open_part s' = v" and "isl res" for res :: "lfs_error + u32" and s'
    using that by (auto simp: half_open_def wp_throw isl_def)
  show ?thesis
    unfolding open_body_def
    by (rule half_bnd tail undone_cases part_rules s | assumption | rule last, assumption, force)+
qed

text \<open>An opening that fails takes the file out of the list again; it must not be open before.\<close>

lemma opened_rawopencfg:
  assumes s: "open_part s = v" and fresh: "x \<notin> set (fst v)"
  shows "wp (lfs_file_rawopencfg c x path flags attrs) (opened x v) s"
  unfolding lfs_file_rawopencfg_def
proof (rule opened_bnd [OF _ s])
  show "leaves (if flags AND LFS_O_WRONLY = LFS_O_WRONLY then lfs_fs_forceconsistency c else ret ())"
    by (intro part_rules)
  fix s' :: "'a lfs" assume s': "open_part s' = v"
  have undo: "wp (bnd (upd_obj x (set_flag LFS_F_ERRED)) (\<lambda>_.
      bnd (attempt (lfs_file_rawclose c x)) (\<lambda>_. throw e))) (opened x v) s2"
    if w: "open_part s2 = v \<or> open_part s2 = (x # fst v, snd v)" for e s2
  proof -
    define u where "u = open_part s2"
    have undone_part: "(remove1 x (fst u), snd u) = v"
      using w fresh by (auto simp: u_def remove1_idem prod_eq_iff)
    have "wp (bnd (attempt (lfs_file_rawclose c x)) (\<lambda>_. throw e)) (opened x v) s3" if "open_part s3 = u" for s3
      unfolding wp_bnd wp_attempt
      by (rule wp_mono [OF closed_rawclose [OF that]])
        (auto simp: closed_def undone_part wp_throw settled_def split: outcome.splits)
    from this [of "s2\<lparr>lfs_objs := (lfs_objs s2)(x := set_flag LFS_F_ERRED (lfs_objs s2 x))\<rparr>"]
    show ?thesis unfolding upd_obj_def wp_bnd_modify by (simp add: u_def)
  qed
  show "wp (bnd (attempt (open_body c x path flags attrs)) (\<lambda>r. case r of
         Inr _ \<Rightarrow> ret ()
       | Inl e \<Rightarrow> bnd (upd_obj x (set_flag LFS_F_ERRED)) (\<lambda>_.
           bnd (attempt (lfs_file_rawclose c x)) (\<lambda>_. throw e)))) (opened x v) s'"
    unfolding wp_bnd [of "attempt _"] wp_attempt
    by (rule wp_mono [OF half_open_body [OF s']])
      (auto simp: half_open_def Let_def wp_ret intro!: undo split: outcome.splits)
qed

section \<open>The calls of the interface\<close>

text \<open>A call that goes through the lock, which is always granted.\<close>

definition grants :: "'d lfs_locks \<Rightarrow> bool" where
  "grants k \<longleftrightarrow> (\<forall>d. fst (cfg_lock k d) = Ok ())"

lemma wp_locked:
  assumes "grants k" and "open_part s = v" and "\<And>s'. open_part s' = v \<Longrightarrow> wp m (\<lambda>r s'. P r (open_part s')) s'"
    and "\<And>x w. P (Fault x) w"
  shows "wp (locked k m) (\<lambda>r s'. P r (open_part s')) s"
proof -
  obtain d where d: "cfg_lock k (lfs_dev s) = (Ok (), d)"
    using assms(1) by (metis grants_def prod.collapse)
  have m: "wp m (\<lambda>r s'. P r (open_part s')) (s\<lparr>lfs_dev := d\<rparr>)" using assms(2) by (intro assms(3)) simp
  have unlock: "wp (on_dev (cfg_unlock k)) (\<lambda>r s'. open_part s' = open_part s2) s2" for s2
    unfolding wp_on_dev by (rule wp_trivial) simp
  have after: "wp (bnd (attempt (on_dev (cfg_unlock k))) (\<lambda>_. case r of Inl e \<Rightarrow> throw e | Inr a \<Rightarrow> ret a))
      (\<lambda>r s'. P r (open_part s')) s2"
    if "P (case r of Inl e \<Rightarrow> Err e | Inr a \<Rightarrow> Ok a) (open_part s2)" for r s2
    unfolding wp_bnd wp_attempt
    by (rule wp_mono [OF unlock])
      (use that assms(4) in \<open>auto simp: wp_ret wp_throw split: outcome.splits sum.splits\<close>)
  note after_ends = after [of "Inl e" for e, simplified] after [of "Inr a" for a, simplified]
  show ?thesis
    unfolding locked_def with_lock_def wp_bnd [of "on_dev _"] wp_on_dev
    by (simp add: wp_def [of "cfg_lock k"] d wp_bnd [of "attempt m"] wp_attempt)
      (rule wp_mono [OF m], auto simp: assms(4) intro: after_ends split: outcome.splits)
qed

text \<open>The mounted file system starts with an empty list.\<close>

lemma mount_clears:
  assumes "lfs_rawmount c s = (r, s')" and "\<And>x. r \<noteq> Fault x"
  shows "lfs_mlist s' = []"
proof -
  have list: "keeps_part lfs_mlist m" if "leaves m" for m :: "('a lfs, 'c) cmd"
    unfolding keeps_part_def
    by (intro allI wp_mono [OF part_wp [OF that refl]])
      (auto simp: settled_def open_part_pair split: outcome.splits)
  have limit: "keeps_part f (check_limit n l)" for n l and f :: "'a lfs \<Rightarrow> obj_ref list"
    unfolding check_limit_def by (intro part_rules)
  have super: "keeps_part lfs_mlist (check_superblock c sb)" for sb
    unfolding check_superblock_def by (intro part_rules limit) simp_all
  have match: "leaves (lfs_dir_find_match c name tag b i)" for name tag b i
    unfolding lfs_dir_find_match_def Let_def by (intro part_rules)
  have pair: "keeps_part lfs_mlist (mount_pair c dir)" for dir
    unfolding mount_pair_def
    by (rule part_bnd [OF list [OF leaves_fetchmatch [OF match]]])
      (intro part_rules list [OF leaves_dir_get(2)] list [OF leaves_getgstate(1)] super; simp)
  have loop: "keeps_part lfs_mlist (mount_loop c n cycle dir)" for n cycle dir
    by (induction n arbitrary: cycle dir) (auto intro!: part_rules pair)
  have rest: "keeps_part lfs_mlist (bnd (mount_loop c (unat (cfg_block_count c div 2) + 2) 0 (mdir_zero\<lparr>md_tail := (0, 1)\<rparr>)) (\<lambda>_.
     bnd (gets lfs_root) (\<lambda>root.
     if lfs_pair_isnull root then throw LFS_ERR_INVAL
     else
       bnd (modify (\<lambda>s. s\<lparr>lfs_gstate := mount_gstate (lfs_gstate s), lfs_gdisk := mount_gstate (lfs_gstate s)\<rparr>)) (\<lambda>_.
       bnd (modify (\<lambda>s. s\<lparr>lfs_free := (lfs_free s)\<lparr>free_off := lfs_seed s mod cfg_block_count c\<rparr>\<rparr>)) (\<lambda>_.
       lfs_alloc_drop c)))))"
    by (intro part_rules loop list [OF leaves_alloc_ack(2)]; simp)
  have init_list: "lfs_mlist (init_state c s) = []" by (simp add: init_state_def)
  have "wp (lfs_rawmount c) (settled lfs_mlist []) s"
    unfolding lfs_rawmount_def lfs_init_def bnd_assoc wp_bnd [of "assertion _"] wp_bnd_modify
    by (simp only: wp_assertion outcome.case part_wp [OF rest init_list] settled_simps simp_thms split: if_split)
  then show ?thesis using assms by (auto simp: wp_def settled_def split: outcome.splits)
qed

end
