(* ===== verification/LFS_Sys.thy ===== *)
theory LFS_Sys
  imports LFS_Api
begin

text \<open>
  The synchronous layer between the library and its host, \<^verbatim>\<open>src/src/lfs-sys/lfs_sys.c\<close>: mounting a
  RAM disk, sizes of files and directories, the attributes of a path and the statistics of the file
  system.  The global \<^verbatim>\<open>DISK\<close> is the state, the global \<^verbatim>\<open>CFG\<close> the configuration with its locks.
  A path is its bytes without the terminating zero.  The functions that only allocate or free memory for
  the host are left out, memory is always available, and sizes have 32 bits.
\<close>

section \<open>Locks and paths\<close>

text \<open>The lock functions of the host return nothing, so their wrappers always succeed.\<close>

definition lfs_lock :: "('d \<Rightarrow> 'd) \<Rightarrow> ('d, unit) cmd" where
  "lfs_lock lock = bnd (modify lock) (\<lambda>_. ret ())"

definition lfs_unlock :: "('d \<Rightarrow> 'd) \<Rightarrow> ('d, unit) cmd" where
  "lfs_unlock unlock = bnd (modify unlock) (\<lambda>_. ret ())"

text \<open>
  Joining reads the last byte of the first part; the buffer of the caller has room for both parts, a
  slash and the terminating zero.
\<close>

definition path_join :: "u8 list \<Rightarrow> u8 list \<Rightarrow> ('s, u8 list) cmd" where
  "path_join part1 part2 =
     (if part1 = [] then stuck Out_Of_Bounds
      else ret (part1 @ (if List.last part1 \<noteq> slash then [slash] else []) @ part2))"

text \<open>The test, as it is written: true when \<^verbatim>\<open>lfs_stat\<close> does not return \<^verbatim>\<open>LFS_ERR_OK\<close>.\<close>

definition exists :: "'d lfs_config \<Rightarrow> 'd lfs_locks \<Rightarrow> u8 list \<Rightarrow> ('d lfs, bool) cmd" where
  "exists c k path = bnd (attempt (lfs_stat c k path info_zero)) (\<lambda>r. ret (isl r))"

section \<open>Mounting\<close>

text \<open>The size in bytes is computed in 32 bits.\<close>

definition sys_geometry :: "u32 \<Rightarrow> lfs_geometry" where
  "sys_geometry sizeMB = \<lparr>cfg_read_size = 1024, cfg_prog_size = 1024, cfg_block_size = 4096,
     cfg_block_count = (sizeMB * 1024 * 1024) div 4096, cfg_block_cycles = 500, cfg_cache_size = 1024,
     cfg_lookahead_size = 1024, cfg_name_max = 0, cfg_file_max = 0, cfg_attr_max = 0,
     cfg_metadata_max = 0\<rparr>"

definition sys_config :: "u32 \<Rightarrow> lfs_rambd lfs_config" where
  "sys_config sizeMB = rambd_config (sys_geometry sizeMB)"

definition sys_locks :: "('d \<Rightarrow> 'd) \<Rightarrow> ('d \<Rightarrow> 'd) \<Rightarrow> 'd lfs_locks" where
  "sys_locks lock unlock = \<lparr>cfg_lock = lfs_lock lock, cfg_unlock = lfs_unlock unlock\<rparr>"

text \<open>An error of a step ends in the assertion that follows it.\<close>

definition assert_ok :: "('s, 'a) cmd \<Rightarrow> ('s, unit) cmd" where
  "assert_ok m = bnd (attempt m) (\<lambda>r. assertion (\<not> isl r))"

definition sys_create :: "u32 \<Rightarrow> (nat \<Rightarrow> u8 list option) \<Rightarrow> (lfs_rambd lfs, unit) cmd" where
  "sys_create sizeMB fresh = (case lfs_rambd_create (sys_geometry sizeMB) fresh of
      Ok d \<Rightarrow> modify (\<lambda>s. s\<lparr>lfs_dev := d\<rparr>)
    | Err e \<Rightarrow> throw e
    | Fault x \<Rightarrow> stuck x)"

definition lfs_sys_mount ::
  "u32 \<Rightarrow> (lfs_rambd \<Rightarrow> lfs_rambd) \<Rightarrow> (lfs_rambd \<Rightarrow> lfs_rambd) \<Rightarrow> (nat \<Rightarrow> u8 list option) \<Rightarrow>
     (lfs_rambd lfs, unit) cmd" where
  "lfs_sys_mount sizeMB lock unlock fresh =
     bnd (assert_ok (sys_create sizeMB fresh)) (\<lambda>_.
     bnd (assert_ok (lfs_format (sys_config sizeMB) (sys_locks lock unlock))) (\<lambda>_.
     assert_ok (lfs_mount (sys_config sizeMB) (sys_locks lock unlock))))"

section \<open>Sizes\<close>

text \<open>
  The directory of an activation is an object of its own; \<open>depth\<close> tells the activations apart.  The
  fuel bounds the entries and the nesting together, since the code bounds neither.
\<close>

definition sizeof_dir :: "nat \<Rightarrow> obj_ref" where
  "sizeof_dir depth = Local (''sizeof_directory.dir'' @ replicate depth CHR ''+'')"

definition c_string :: "u8 list \<Rightarrow> u8 list" where
  "c_string = takeWhile (\<lambda>x. x \<noteq> 0)"

fun sizeof_directory :: "'d lfs_config \<Rightarrow> 'd lfs_locks \<Rightarrow> nat \<Rightarrow> nat \<Rightarrow> u8 list \<Rightarrow> ('d lfs, u32) cmd"
and sizeof_entries :: "'d lfs_config \<Rightarrow> 'd lfs_locks \<Rightarrow> nat \<Rightarrow> nat \<Rightarrow> u8 list \<Rightarrow> u32 \<Rightarrow> ('d lfs, u32) cmd" where
  "sizeof_directory c k 0 depth path = stuck Out_Of_Fuel"
| "sizeof_directory c k (Suc n) depth path =
     bnd (upd_obj (sizeof_dir depth) (\<lambda>d. d\<lparr>obj_id := 0, obj_type := 0, obj_m := mdir_zero,
            dir_pos := 0, dir_head := (0, 0)\<rparr>)) (\<lambda>_.
     bnd (attempt (lfs_dir_open c k (sizeof_dir depth) path)) (\<lambda>r. case r of
         Inl _ \<Rightarrow> ret 0
       | Inr _ \<Rightarrow>
           bnd (sizeof_entries c k n depth path 0) (\<lambda>sz.
           bnd (assert_ok (lfs_dir_close k (sizeof_dir depth))) (\<lambda>_.
           ret sz))))"
| "sizeof_entries c k 0 depth path sz = stuck Out_Of_Fuel"
| "sizeof_entries c k (Suc n) depth path sz =
     bnd (attempt (lfs_dir_read c k (sizeof_dir depth))) (\<lambda>r. case r of
         Inr (Some info) \<Rightarrow>
           if ucast (info_type info) = LFS_TYPE_REG then
             sizeof_entries c k n depth path (sz + info_size info)
           else
             bnd (path_join path (c_string (info_name info))) (\<lambda>subpath.
             bnd (exists c k subpath) (\<lambda>b.
             if b then
               bnd (sizeof_directory c k n (depth + 1) subpath) (\<lambda>m.
               sizeof_entries c k n depth path (sz + m))
             else sizeof_entries c k n depth path sz))
       | _ \<Rightarrow> ret sz)"

text \<open>The counters of the caller, when it has any.\<close>

definition sizeof_path ::
  "'d lfs_config \<Rightarrow> 'd lfs_locks \<Rightarrow> nat \<Rightarrow> u8 list \<Rightarrow> u32 option \<Rightarrow> u32 option \<Rightarrow>
     ('d lfs, u32 \<times> u32 option \<times> u32 option) cmd" where
  "sizeof_path c k fuel path file_count dir_count =
     bnd (attempt (lfs_stat c k path info_zero)) (\<lambda>r. case r of
         Inl _ \<Rightarrow> ret (0, file_count, dir_count)
       | Inr info \<Rightarrow>
           if ucast (info_type info) = LFS_TYPE_REG then
             ret (info_size info, map_option (\<lambda>n. n + 1) file_count, dir_count)
           else
             bnd (sizeof_directory c k fuel 0 path) (\<lambda>sz.
             ret (sz, file_count, map_option (\<lambda>n. n + 1) dir_count)))"

section \<open>Attributes\<close>

text \<open>A double is its eight bytes; as numbers, two zeros are equal, and no NaN equals anything.\<close>

record lfs_sys_query =
  sys_ino :: u32
  sys_mode :: u32
  sys_uid :: u32
  sys_gid :: u32
  sys_birthtime :: "u8 list"
  sys_atime :: "u8 list"
  sys_mtime :: "u8 list"
  sys_ctime :: "u8 list"
  sys_nlink :: u32
  sys_link :: bool
  sys_symlink :: bool
  sys_size :: u32

definition double_word :: "u8 list \<Rightarrow> 64 word" where
  "double_word bs = push_bit 32 (ucast (u32_of_bytes (seg bs 4 4))) OR ucast (u32_of_bytes (seg bs 0 4))"

definition double_nan :: "64 word \<Rightarrow> bool" where
  "double_nan x \<longleftrightarrow> push_bit 1 (0x7ff0000000000000 :: 64 word) < push_bit 1 x"

definition double_eq :: "u8 list \<Rightarrow> u8 list \<Rightarrow> bool" where
  "double_eq a b \<longleftrightarrow>
     (let x = double_word a; y = double_word b
      in \<not> double_nan x \<and> \<not> double_nan y \<and> (x = y \<or> push_bit 1 x = 0 \<and> push_bit 1 y = 0))"

text \<open>
  The type numbers.  All values go through one buffer of eight bytes, which a call that fails leaves as
  it was.
\<close>

definition LFS_SYS_ATTR_TYPE_INO :: u8 where "LFS_SYS_ATTR_TYPE_INO = 0"
definition LFS_SYS_ATTR_TYPE_MODE :: u8 where "LFS_SYS_ATTR_TYPE_MODE = 1"
definition LFS_SYS_ATTR_TYPE_USERID :: u8 where "LFS_SYS_ATTR_TYPE_USERID = 2"
definition LFS_SYS_ATTR_TYPE_GROUPID :: u8 where "LFS_SYS_ATTR_TYPE_GROUPID = 3"
definition LFS_SYS_ATTR_TYPE_BIRTHTIME :: u8 where "LFS_SYS_ATTR_TYPE_BIRTHTIME = 4"
definition LFS_SYS_ATTR_TYPE_ATIME :: u8 where "LFS_SYS_ATTR_TYPE_ATIME = 5"
definition LFS_SYS_ATTR_TYPE_MTIME :: u8 where "LFS_SYS_ATTR_TYPE_MTIME = 6"
definition LFS_SYS_ATTR_TYPE_CTIME :: u8 where "LFS_SYS_ATTR_TYPE_CTIME = 7"
definition LFS_SYS_ATTR_TYPE_NLINK :: u8 where "LFS_SYS_ATTR_TYPE_NLINK = 8"
definition LFS_SYS_ATTR_TYPE_LINK :: u8 where "LFS_SYS_ATTR_TYPE_LINK = 9"
definition LFS_SYS_ATTR_TYPE_SYMLINK :: u8 where "LFS_SYS_ATTR_TYPE_SYMLINK = 10"

definition query_attr ::
  "'d lfs_config \<Rightarrow> 'd lfs_locks \<Rightarrow> u8 list \<Rightarrow> u8 \<Rightarrow> u32 \<Rightarrow> u8 list \<Rightarrow> ('d lfs, u8 list) cmd" where
  "query_attr c k path type sz buf =
     bnd (attempt (lfs_getattr c k path type sz)) (\<lambda>r. case r of
         Inl _ \<Rightarrow> ret buf
       | Inr (_, bs) \<Rightarrow> mem_write buf 0 bs)"

definition buf_int :: "u8 list \<Rightarrow> u32" where
  "buf_int buf = u32_of_bytes (seg buf 0 4)"

definition buf_bool :: "u8 list \<Rightarrow> bool" where
  "buf_bool buf \<longleftrightarrow> seg buf 0 1 \<noteq> [0]"

definition lfs_sys_attr_query_new ::
  "'d lfs_config \<Rightarrow> 'd lfs_locks \<Rightarrow> nat \<Rightarrow> u8 list \<Rightarrow> ('d lfs, lfs_sys_query) cmd" where
  "lfs_sys_attr_query_new c k fuel path =
     bnd (query_attr c k path LFS_SYS_ATTR_TYPE_INO 4 (replicate 8 0)) (\<lambda>ino.
     bnd (query_attr c k path LFS_SYS_ATTR_TYPE_MODE 4 ino) (\<lambda>mode.
     bnd (query_attr c k path LFS_SYS_ATTR_TYPE_USERID 4 mode) (\<lambda>uid.
     bnd (query_attr c k path LFS_SYS_ATTR_TYPE_GROUPID 4 uid) (\<lambda>gid.
     bnd (query_attr c k path LFS_SYS_ATTR_TYPE_BIRTHTIME 8 gid) (\<lambda>birthtime.
     bnd (query_attr c k path LFS_SYS_ATTR_TYPE_ATIME 8 birthtime) (\<lambda>atime.
     bnd (query_attr c k path LFS_SYS_ATTR_TYPE_MTIME 8 atime) (\<lambda>mtime.
     bnd (query_attr c k path LFS_SYS_ATTR_TYPE_CTIME 8 mtime) (\<lambda>ctime.
     bnd (query_attr c k path LFS_SYS_ATTR_TYPE_LINK 1 ctime) (\<lambda>link.
     bnd (query_attr c k path LFS_SYS_ATTR_TYPE_NLINK 4 link) (\<lambda>nlink.
     bnd (query_attr c k path LFS_SYS_ATTR_TYPE_SYMLINK 1 nlink) (\<lambda>symlink.
     bnd (sizeof_path c k fuel path None None) (\<lambda>(sz, _).
     ret \<lparr>sys_ino = buf_int ino, sys_mode = buf_int mode, sys_uid = buf_int uid, sys_gid = buf_int gid,
          sys_birthtime = birthtime, sys_atime = atime, sys_mtime = mtime, sys_ctime = ctime,
          sys_nlink = buf_int nlink, sys_link = buf_bool link, sys_symlink = buf_bool symlink,
          sys_size = sz\<rparr>))))))))))))"

text \<open>Setting attributes one after the other; errors are ignored.\<close>

fun set_attrs ::
  "'d lfs_config \<Rightarrow> 'd lfs_locks \<Rightarrow> u8 list \<Rightarrow> (u8 \<times> u8 list) list \<Rightarrow> ('d lfs, unit) cmd" where
  "set_attrs c k path [] = ret ()"
| "set_attrs c k path ((type, data) # as) =
     bnd (attempt (lfs_setattr c k path type data)) (\<lambda>_. set_attrs c k path as)"

definition bool_byte :: "bool \<Rightarrow> u8 list" where
  "bool_byte b = [if b then 1 else 0]"

definition patch_attrs :: "lfs_sys_query \<Rightarrow> lfs_sys_query \<Rightarrow> (u8 \<times> u8 list) list" where
  "patch_attrs cur new =
     (if sys_ino cur \<noteq> sys_ino new then [(LFS_SYS_ATTR_TYPE_INO, u32_bytes (sys_ino new))] else []) @
     (if sys_mode cur \<noteq> sys_mode new then [(LFS_SYS_ATTR_TYPE_MODE, u32_bytes (sys_mode new))] else []) @
     (if sys_uid cur \<noteq> sys_uid new then [(LFS_SYS_ATTR_TYPE_USERID, u32_bytes (sys_uid new))] else []) @
     (if sys_gid cur \<noteq> sys_gid new then [(LFS_SYS_ATTR_TYPE_GROUPID, u32_bytes (sys_gid new))] else []) @
     (if \<not> double_eq (sys_birthtime cur) (sys_birthtime new)
      then [(LFS_SYS_ATTR_TYPE_BIRTHTIME, sys_birthtime new)] else []) @
     (if \<not> double_eq (sys_atime cur) (sys_atime new) then [(LFS_SYS_ATTR_TYPE_ATIME, sys_atime new)] else []) @
     (if \<not> double_eq (sys_mtime cur) (sys_mtime new) then [(LFS_SYS_ATTR_TYPE_MTIME, sys_mtime new)] else []) @
     (if \<not> double_eq (sys_ctime cur) (sys_ctime new) then [(LFS_SYS_ATTR_TYPE_CTIME, sys_ctime new)] else []) @
     (if sys_link cur \<noteq> sys_link new then [(LFS_SYS_ATTR_TYPE_LINK, bool_byte (sys_link new))] else []) @
     (if sys_nlink cur \<noteq> sys_nlink new then [(LFS_SYS_ATTR_TYPE_NLINK, u32_bytes (sys_nlink new))] else []) @
     (if sys_symlink cur \<noteq> sys_symlink new
      then [(LFS_SYS_ATTR_TYPE_SYMLINK, bool_byte (sys_symlink new))] else [])"

definition lfs_sys_attr_patch ::
  "'d lfs_config \<Rightarrow> 'd lfs_locks \<Rightarrow> nat \<Rightarrow> u8 list \<Rightarrow> lfs_sys_query \<Rightarrow> ('d lfs, unit) cmd" where
  "lfs_sys_attr_patch c k fuel path new =
     bnd (lfs_sys_attr_query_new c k fuel path) (\<lambda>cur. set_attrs c k path (patch_attrs cur new))"

definition lfs_sys_attr_reset ::
  "'d lfs_config \<Rightarrow> 'd lfs_locks \<Rightarrow> u8 list \<Rightarrow> ('d lfs, unit) cmd" where
  "lfs_sys_attr_reset c k path =
     set_attrs c k path
       [(LFS_SYS_ATTR_TYPE_INO, replicate 4 0), (LFS_SYS_ATTR_TYPE_MODE, replicate 4 0),
        (LFS_SYS_ATTR_TYPE_USERID, replicate 4 0), (LFS_SYS_ATTR_TYPE_GROUPID, replicate 4 0),
        (LFS_SYS_ATTR_TYPE_BIRTHTIME, replicate 8 0), (LFS_SYS_ATTR_TYPE_ATIME, replicate 8 0),
        (LFS_SYS_ATTR_TYPE_MTIME, replicate 8 0), (LFS_SYS_ATTR_TYPE_CTIME, replicate 8 0),
        (LFS_SYS_ATTR_TYPE_NLINK, replicate 4 0), (LFS_SYS_ATTR_TYPE_LINK, replicate 1 0),
        (LFS_SYS_ATTR_TYPE_SYMLINK, replicate 1 0)]"

section \<open>Statistics\<close>

definition lfs_sys_get_block_size :: "'d lfs_config \<Rightarrow> u32" where
  "lfs_sys_get_block_size c = cfg_block_size c"

definition lfs_sys_get_block_count :: "'d lfs_config \<Rightarrow> u32" where
  "lfs_sys_get_block_count c = cfg_block_count c"

record lfs_sys_statvfs =
  st_type :: u32
  st_bsize :: u32
  st_blocks :: u32
  st_bfree :: u32
  st_bavail :: u32
  st_files :: u32
  st_ffree :: u32
  st_dirs :: u32

definition lfs_sys_statvfs_traverse :: "('d, lfs_sys_statvfs) block_cb" where
  "lfs_sys_statvfs_traverse block = modify (\<lambda>(s, st). (s, st\<lparr>st_bfree := st_bfree st - 1\<rparr>))"

definition statvfs_init :: "'d lfs_config \<Rightarrow> lfs_sys_statvfs" where
  "statvfs_init c = \<lparr>st_type = 0x858458f6, st_bsize = cfg_block_size c, st_blocks = cfg_block_count c,
     st_bfree = cfg_block_count c, st_bavail = 0, st_files = 0, st_ffree = 0, st_dirs = 0\<rparr>"

definition lfs_sys_statvfs_new ::
  "'d lfs_config \<Rightarrow> 'd lfs_locks \<Rightarrow> nat \<Rightarrow> ('d lfs, lfs_sys_statvfs) cmd" where
  "lfs_sys_statvfs_new c k fuel =
     bnd (attempt (with_data (statvfs_init c) (lfs_fs_traverse c k lfs_sys_statvfs_traverse))) (\<lambda>r. case r of
         Inl _ \<Rightarrow> stuck Assert_Failed
       | Inr st \<Rightarrow>
           bnd (sizeof_path c k fuel [slash] (Some 0) (Some 0)) (\<lambda>(_, files, dirs).
           ret (st\<lparr>st_bavail := st_bfree st, st_dirs := the dirs, st_files := the files,
                  st_ffree := cfg_file_max c - the files\<rparr>)))"

end
