(* ===== verification/LFS_Calls.thy ===== *)
theory LFS_Calls
  imports LFS_Session LFS_Sys
begin

text \<open>
  The machine whose steps are the calls of the interface of \<^verbatim>\<open>src/src/lfs/lfs.h\<close> between mounting and
  unmounting, and the table of open handles that it implements.  Traversals of the file system, which
  call back into the code of the caller, and mounting and formatting, which start a new machine, are
  not among the steps.
\<close>

section \<open>Calls\<close>

datatype lfs_call =
    Call_Remove "u8 list" | Call_Rename "u8 list" "u8 list" | Call_Stat "u8 list" lfs_info
  | Call_Getattr "u8 list" u8 u32 | Call_Setattr "u8 list" u8 "u8 list" | Call_Removeattr "u8 list" u8
  | Call_Fs_Size | Call_Mkdir "u8 list"
  | Call_File_Open nat "u8 list" u32 | Call_File_Opencfg nat "u8 list" u32 "(u8 \<times> u8 list) list"
  | Call_File_Close nat | Call_File_Sync nat | Call_File_Read nat u32 | Call_File_Write nat "u8 list"
  | Call_File_Seek nat u32 lfs_whence | Call_File_Truncate nat u32 | Call_File_Tell nat
  | Call_File_Rewind nat | Call_File_Size nat
  | Call_Dir_Open nat "u8 list" | Call_Dir_Close nat | Call_Dir_Read nat | Call_Dir_Seek nat u32
  | Call_Dir_Tell nat | Call_Dir_Rewind nat

text \<open>The outcome of a call without its value.\<close>

definition void :: "('s, 'a) cmd \<Rightarrow> ('s, unit) cmd" where
  "void m = bnd m (\<lambda>_. ret ())"

fun lfs_run :: "'d lfs_config \<Rightarrow> 'd lfs_locks \<Rightarrow> lfs_call \<Rightarrow> ('d lfs, unit) cmd" where
  "lfs_run c k (Call_Remove path) = lfs_remove c k path"
| "lfs_run c k (Call_Rename oldpath newpath) = lfs_rename c k oldpath newpath"
| "lfs_run c k (Call_Stat path info) = void (lfs_stat c k path info)"
| "lfs_run c k (Call_Getattr path type sz) = void (lfs_getattr c k path type sz)"
| "lfs_run c k (Call_Setattr path type data) = lfs_setattr c k path type data"
| "lfs_run c k (Call_Removeattr path type) = lfs_removeattr c k path type"
| "lfs_run c k Call_Fs_Size = void (lfs_fs_size c k)"
| "lfs_run c k (Call_Mkdir path) = lfs_mkdir c k path"
| "lfs_run c k (Call_File_Open h path flags) = lfs_file_open c k (Handle h) path flags"
| "lfs_run c k (Call_File_Opencfg h path flags attrs) = lfs_file_opencfg c k (Handle h) path flags attrs"
| "lfs_run c k (Call_File_Close h) = lfs_file_close c k (Handle h)"
| "lfs_run c k (Call_File_Sync h) = lfs_file_sync c k (Handle h)"
| "lfs_run c k (Call_File_Read h sz) = void (lfs_file_read c k (Handle h) sz)"
| "lfs_run c k (Call_File_Write h data) = void (lfs_file_write c k (Handle h) data)"
| "lfs_run c k (Call_File_Seek h off whence) = void (lfs_file_seek c k (Handle h) off whence)"
| "lfs_run c k (Call_File_Truncate h sz) = lfs_file_truncate c k (Handle h) sz"
| "lfs_run c k (Call_File_Tell h) = void (lfs_file_tell k (Handle h))"
| "lfs_run c k (Call_File_Rewind h) = lfs_file_rewind c k (Handle h)"
| "lfs_run c k (Call_File_Size h) = void (lfs_file_size k (Handle h))"
| "lfs_run c k (Call_Dir_Open h path) = lfs_dir_open c k (Handle h) path"
| "lfs_run c k (Call_Dir_Close h) = lfs_dir_close k (Handle h)"
| "lfs_run c k (Call_Dir_Read h) = void (lfs_dir_read c k (Handle h))"
| "lfs_run c k (Call_Dir_Seek h off) = lfs_dir_seek c k (Handle h) off"
| "lfs_run c k (Call_Dir_Tell h) = void (lfs_dir_tell k (Handle h))"
| "lfs_run c k (Call_Dir_Rewind h) = lfs_dir_rewind c k (Handle h)"

section \<open>The table of open handles\<close>

text \<open>
  What a call does to the table: an opening that succeeds adds the handle, a closing takes it out
  whatever its outcome, and nothing else changes the table.
\<close>

fun table_step :: "lfs_call \<Rightarrow> bool \<Rightarrow> obj_ref list \<Rightarrow> obj_ref list" where
  "table_step (Call_File_Open h path flags) ok l = (if ok then Handle h # l else l)"
| "table_step (Call_File_Opencfg h path flags attrs) ok l = (if ok then Handle h # l else l)"
| "table_step (Call_Dir_Open h path) ok l = (if ok then Handle h # l else l)"
| "table_step (Call_File_Close h) ok l = remove1 (Handle h) l"
| "table_step (Call_Dir_Close h) ok l = remove1 (Handle h) l"
| "table_step call ok l = l"

text \<open>Handles that have to be new: the assertion of the calls that open.\<close>

fun opens :: "lfs_call \<Rightarrow> nat option" where
  "opens (Call_File_Open h path flags) = Some h"
| "opens (Call_File_Opencfg h path flags attrs) = Some h"
| "opens (Call_Dir_Open h path) = Some h"
| "opens call = None"

text \<open>The states that calls reach from a state, as long as none ends with a fault.\<close>

inductive session :: "'d lfs_config \<Rightarrow> 'd lfs_locks \<Rightarrow> 'd lfs \<Rightarrow> 'd lfs \<Rightarrow> bool" for c k s0 where
  session_start: "session c k s0 s0"
| session_ok: "session c k s0 s \<Longrightarrow> lfs_run c k call s = (Ok (), s') \<Longrightarrow> session c k s0 s'"
| session_error: "session c k s0 s \<Longrightarrow> lfs_run c k call s = (Err e, s') \<Longrightarrow> session c k s0 s'"

section \<open>The calls implement the table\<close>

text \<open>After a call: the table has made its step and the limits are as they were.\<close>

definition stepped ::
  "lfs_call \<Rightarrow> obj_ref list \<times> u32 \<times> u32 \<times> u32 \<Rightarrow> 'a outcome \<Rightarrow> obj_ref list \<times> u32 \<times> u32 \<times> u32 \<Rightarrow> bool" where
  "stepped call v r w \<longleftrightarrow> (case r of
      Ok a \<Rightarrow> w = (table_step call True (fst v), snd v) \<and> (\<forall>h. opens call = Some h \<longrightarrow> Handle h \<notin> set (fst v))
    | Err e \<Rightarrow> w = (table_step call False (fst v), snd v)
    | Fault x \<Rightarrow> True)"

lemma stepped_fault: "stepped call v (Fault x) w"
  by (simp add: stepped_def)

lemma stepped_leaves:
  assumes "grants k" and "leaves m" and "open_part s = v" and "\<And>ok. table_step call ok (fst v) = fst v" "opens call = None"
  shows "wp (locked k m) (\<lambda>r s'. stepped call v r (open_part s')) s"
  by (rule wp_locked [OF assms(1,3), where P = "stepped call v"], rule wp_mono [OF part_wp [OF assms(2)]])
    (auto simp: stepped_def settled_def assms(4,5) split: outcome.splits)

lemma leaves_assert_open: "leaves (assert_open x b)"
  unfolding assert_open_def by (intro part_rules)

lemma stepped_open:
  assumes "grants k" and "leaves m" and "open_part s = v" and "\<And>ok. table_step call ok (fst v) = fst v" "opens call = None"
  shows "wp (locked_open k x m) (\<lambda>r s'. stepped call v r (open_part s')) s"
  unfolding locked_open_def
  by (rule stepped_leaves [OF assms(1) _ assms(3-5)]) (intro part_rules leaves_assert_open assms(2))

lemma stepped_fresh:
  assumes "grants k" and s: "open_part s = v"
    and m: "\<And>s'. open_part s' = v \<Longrightarrow> Handle h \<notin> set (fst v) \<Longrightarrow> wp m (opened (Handle h) v) s'"
    and call: "\<And>l. table_step call True l = Handle h # l" "\<And>l. table_step call False l = l" "opens call = Some h"
  shows "wp (locked_fresh k (Handle h) m) (\<lambda>r s'. stepped call v r (open_part s')) s"
  unfolding locked_fresh_def
proof (rule wp_locked [OF assms(1) s, where P = "stepped call v"])
  fix s' :: "'a lfs" assume s': "open_part s' = v"
  have "wp m (\<lambda>r s2. stepped call v r (open_part s2)) s'" if "Handle h \<notin> set (fst v)"
    by (rule wp_mono [OF m [OF s' that]])
      (use that in \<open>auto simp: stepped_def opened_def call split: outcome.splits\<close>)
  then show "wp (bnd (assert_open (Handle h) False) (\<lambda>_. m)) (\<lambda>r s2. stepped call v r (open_part s2)) s'"
    using s' by (auto simp: assert_open_def wp_bnd_gets wp_bnd [of "assertion _"] bnd_assoc wp_assertion
        lfs_mlist_isopen_def stepped_fault open_part_pair)
qed (rule stepped_fault)

lemma stepped_void:
  "wp m (\<lambda>r s'. stepped call v r (open_part s')) s \<Longrightarrow> wp (void m) (\<lambda>r s'. stepped call v r (open_part s')) s"
  unfolding void_def wp_bnd by (erule wp_mono) (auto simp: wp_ret stepped_def split: outcome.splits)

lemmas api_defs = lfs_remove_def lfs_rename_def lfs_stat_def lfs_getattr_def lfs_setattr_def lfs_removeattr_def
  lfs_fs_size_def lfs_mkdir_def lfs_file_open_def lfs_file_opencfg_def lfs_file_rawopen_def
  lfs_file_sync_def lfs_file_read_def lfs_file_write_def lfs_file_seek_def lfs_file_truncate_def lfs_file_tell_def
  lfs_file_rewind_def lfs_file_size_def lfs_dir_open_def lfs_dir_read_def lfs_dir_seek_def
  lfs_dir_tell_def lfs_dir_rewind_def

lemma stepped_dir_close:
  assumes "grants k" and "open_part s = v"
  shows "wp (lfs_dir_close k (Handle h)) (\<lambda>r s'. stepped (Call_Dir_Close h) v r (open_part s')) s"
  unfolding lfs_dir_close_def lfs_dir_rawclose_def
  by (rule wp_locked [OF assms, where P = "stepped (Call_Dir_Close h) v"])
    (auto simp: wp_modify stepped_def open_part_pair)

lemma stepped_file_close:
  assumes "grants k" and "open_part s = v"
  shows "wp (lfs_file_close c k (Handle h)) (\<lambda>r s'. stepped (Call_File_Close h) v r (open_part s')) s"
  unfolding lfs_file_close_def locked_open_def
proof (rule wp_locked [OF assms, where P = "stepped (Call_File_Close h) v"])
  fix s' :: "'a lfs" assume s': "open_part s' = v"
  have "wp (lfs_file_rawclose c (Handle h)) (\<lambda>r s2. stepped (Call_File_Close h) v r (open_part s2)) s'"
    by (rule wp_mono [OF closed_rawclose [OF s']])
      (auto simp: stepped_def closed_def settled_def split: outcome.splits)
  then show "wp (bnd (assert_open (Handle h) True) (\<lambda>_. lfs_file_rawclose c (Handle h)))
      (\<lambda>r s2. stepped (Call_File_Close h) v r (open_part s2)) s'"
    by (auto simp: assert_open_def wp_bnd_gets wp_bnd [of "assertion _"] bnd_assoc wp_assertion stepped_fault)
qed (rule stepped_fault)

lemma stepped_call:
  assumes "grants k" and "open_part s = v"
  shows "wp (lfs_run c k call) (\<lambda>r s'. stepped call v r (open_part s')) s"
proof (cases "opens call")
  case None
  show ?thesis
    using None
    by (cases call; simp add: api_defs;
      (intro stepped_void stepped_leaves stepped_open assms part_rules; simp)?)
      (simp_all add: stepped_dir_close stepped_file_close assms)
next
  case (Some h)
  then show ?thesis
    by (cases call) (auto simp: api_defs intro!: stepped_fresh assms opened_rawopencfg opened_dir_rawopen)
qed

text \<open>The steps as equations, and the invariant of the list over a session.\<close>

lemma lfs_run_table:
  assumes "grants k" and "lfs_run c k call s = (r, s')"
  shows "stepped call (open_part s) r (open_part s')"
  using stepped_call [OF assms(1) refl, of c call s] assms(2) by (simp add: wp_def)

definition handles :: "obj_ref list \<Rightarrow> bool" where
  "handles l \<longleftrightarrow> distinct l \<and> set l \<subseteq> range Handle"

lemma handles_step:
  assumes "handles l" and "\<And>h. opens call = Some h \<Longrightarrow> ok \<Longrightarrow> Handle h \<notin> set l"
  shows "handles (table_step call ok l)"
  using assms by (cases call) (auto simp: handles_def dest: set_remove1_subset [THEN subsetD])

lemma session_handles:
  assumes "grants k" and "handles (lfs_mlist s0)"
  shows "session c k s0 s \<Longrightarrow> handles (lfs_mlist s)"
proof (induction rule: session.induct)
  case session_start
  show ?case by (rule assms(2))
next
  case (session_ok s call s')
  then show ?case
    using lfs_run_table [OF assms(1) session_ok.hyps(2)] handles_step [of "lfs_mlist s" call True]
    by (simp add: stepped_def open_part_pair)
next
  case (session_error s call e s')
  then show ?case
    using lfs_run_table [OF assms(1) session_error.hyps(2)] handles_step [of "lfs_mlist s" call False]
    by (simp add: stepped_def open_part_pair)
qed

lemma grants_sys_locks: "grants (sys_locks lock unlock)"
  by (simp add: grants_def sys_locks_def lfs_lock_def cmd_simps)

end
