(* ===== verification/LFS_Reader.thy ===== *)
theory LFS_Reader
  imports LFS_File LFS_Rambd
begin

text \<open>
  What reading an open file returns: the bytes of its blocks, without the pointers, from the
  position of the file on.  The lemmas are those of an abstract block device, in the style of the
  block layer.
\<close>

section \<open>The contents of a file\<close>

text \<open>The data of the blocks \<open>0\<close> to \<open>lst\<close> of a list, each after its pointers, cut at the size of the file.\<close>

definition ctz_stream :: "(u32 \<Rightarrow> u8 list) \<Rightarrow> (nat \<Rightarrow> u32) \<Rightarrow> nat \<Rightarrow> u8 list" where
  "ctz_stream V blk n = concat (map (\<lambda>i. drop (4 * ctz_ptrs i) (V (blk i))) [0..<n])"

definition ctz_data :: "(u32 \<Rightarrow> u8 list) \<Rightarrow> (nat \<Rightarrow> u32) \<Rightarrow> nat \<Rightarrow> nat \<Rightarrow> u8 list" where
  "ctz_data V blk lst sz = take sz (ctz_stream V blk (Suc lst))"

lemma ctz_stream_Suc: "ctz_stream V blk (Suc n) = ctz_stream V blk n @ drop (4 * ctz_ptrs n) (V (blk n))"
  by (simp add: ctz_stream_def)

lemma length_ctz_stream:
  "(\<And>i. i < n \<Longrightarrow> length (V (blk i)) = bs) \<Longrightarrow> length (ctz_stream V blk n) = ctz_start bs n"
  by (induction n) (simp_all add: ctz_stream_Suc, simp add: ctz_stream_def)

lemma seg_append_left: "i + n \<le> length xs \<Longrightarrow> seg (xs @ ys) i n = seg xs i n"
  by (simp add: seg_def)

lemma seg_append_right: "length xs \<le> i \<Longrightarrow> seg (xs @ ys) i n = seg ys (i - length xs) n"
  by (simp add: seg_def)

lemma seg_drop: "seg (drop k xs) i n = seg xs (k + i) n"
  by (simp add: seg_def add.commute)

text \<open>A region of the file inside one block is a region of that block.\<close>

lemma seg_ctz_stream:
  assumes len: "\<And>i. i < m \<Longrightarrow> length (V (blk i)) = bs" and n: "n < m"
    and k: "4 * ctz_ptrs n + k + j \<le> bs"
  shows "seg (ctz_stream V blk m) (ctz_start bs n + k) j = seg (V (blk n)) (4 * ctz_ptrs n + k) j"
  using len n
proof (induction m)
  case (Suc m)
  have lm: "length (ctz_stream V blk m) = ctz_start bs m"
    by (rule length_ctz_stream) (use Suc.prems in simp)
  show ?case
  proof (cases "n = m")
    case True
    then show ?thesis by (simp add: ctz_stream_Suc seg_append_right lm seg_drop)
  next
    case False
    then have "n < m" using Suc.prems(2) by simp
    have "ctz_start bs (Suc n) \<le> ctz_start bs m"
      using lift_Suc_mono_le [of "ctz_start bs" "Suc n" m] \<open>n < m\<close> by simp
    then have "ctz_start bs n + k + j \<le> length (ctz_stream V blk m)" using lm k by simp
    then show ?thesis
      using Suc.IH \<open>n < m\<close> Suc.prems by (simp add: ctz_stream_Suc seg_append_left)
  qed
qed simp

section \<open>Reading blocks\<close>

definition with_obj :: "obj_ref \<Rightarrow> lfs_object \<Rightarrow> 'd lfs \<Rightarrow> 'd lfs" where
  "with_obj x f s = s\<lparr>lfs_objs := (lfs_objs s)(x := f)\<rparr>"

lemma with_obj_simps [simp]:
  "lfs_objs (with_obj x f s) x = f" "with_obj x f (with_obj x f' s) = with_obj x f s"
  "lfs_dev (with_obj x f s) = lfs_dev s" "with_obj x (lfs_objs s x) s = s"
  by (simp_all add: with_obj_def)

lemma with_obj_dev [simp]: "with_obj x f' ((with_obj x f s)\<lparr>lfs_dev := lfs_dev s\<rparr>) = with_obj x f' s"
  by (simp add: with_obj_def)

text \<open>A state that differs in one object, which has a property.\<close>

definition on_obj :: "obj_ref \<Rightarrow> 'd lfs \<Rightarrow> (lfs_object \<Rightarrow> bool) \<Rightarrow> 'd lfs \<Rightarrow> bool" where
  "on_obj x s P s' \<longleftrightarrow> (\<exists>f. s' = with_obj x f s \<and> P f)"

lemma on_obj_with [simp]: "on_obj x s P (with_obj x f s) = P f"
proof -
  have "with_obj x f s = with_obj x f' s \<Longrightarrow> f = f'" for f' by (metis with_obj_simps(1))
  then show ?thesis by (auto simp: on_obj_def)
qed

lemma on_obj_same [simp]: "on_obj x s P s = P (lfs_objs s x)"
  using on_obj_with [of x s P "lfs_objs s x"] by simp

lemma on_objE: "on_obj x s P s' \<Longrightarrow> (\<And>f. s' = with_obj x f s \<Longrightarrow> P f \<Longrightarrow> R) \<Longrightarrow> R"
  by (auto simp: on_obj_def)

lemma wp_upd_obj [wp_simps]: "wp (upd_obj x g) Q s = Q (Ok ()) (with_obj x (g (lfs_objs s x)) s)"
  by (simp add: upd_obj_def wp_modify with_obj_def)

lemma wp_get_obj [wp_simps]: "wp (get_obj x) Q s = Q (Ok (lfs_objs s x)) s"
  by (simp add: get_obj_def wp_gets)

lemma wp_on_fcache:
  "wp (on_fcache x m) Q s = wp m (\<lambda>r (p, d). Q r (with_obj x ((lfs_objs s x)\<lparr>file_cache := p\<rparr>) (s\<lparr>lfs_dev := d\<rparr>)))
     (file_cache (lfs_objs s x), lfs_dev s)"
  by (simp add: on_fcache_def wp_zoom case_prod_beta' put_fcache_def with_obj_def)

lemma flags_simps [simp]:
  "has_flag (f\<lparr>file_block := b, file_off := off\<rparr>) k = has_flag f k"
  "has_flag (f\<lparr>file_cache := p\<rparr>) k = has_flag f k"
  "has_flag (f\<lparr>file_pos := pos, file_off := off\<rparr>) k = has_flag f k"
  by (simp_all add: has_flag_def)

lemma set_flag_simps [simp]:
  "has_flag (set_flag LFS_F_READING f) LFS_F_READING"
  "has_flag (set_flag LFS_F_READING f) LFS_F_INLINE = has_flag f LFS_F_INLINE"
  "file_pos (set_flag k f) = file_pos f" "file_off (set_flag k f) = file_off f"
  "file_block (set_flag k f) = file_block f" "file_cache (set_flag k f) = file_cache f"
  "file_ctz (set_flag k f) = file_ctz f"
proof -
  have "(f1 OR k) AND k = k" for f1 k :: u32
    by (rule bit_eqI) (auto simp: bit_and_iff bit_or_iff)
  then have f1: "(f1 OR 0x40000) AND 0x40000 \<noteq> (0 :: u32)" for f1 by simp
  have "((f1 OR 0x40000) AND 0x100000 :: u32) = (f1 AND 0x100000) OR (0x40000 AND 0x100000)" for f1
    by (simp add: bit.conj_disj_distrib2)
  then have f2: "((f1 OR 0x40000) AND 0x100000 :: u32) = f1 AND 0x100000" for f1 by simp
  show "has_flag (set_flag LFS_F_READING f) LFS_F_READING"
    "has_flag (set_flag LFS_F_READING f) LFS_F_INLINE = has_flag f LFS_F_INLINE"
    by (simp_all add: has_flag_def set_flag_def LFS_F_READING_def LFS_F_INLINE_def f1 f2)
qed (simp_all add: set_flag_def)

text \<open>A place inside a block: the block and the offset of a position of the file.\<close>

definition placed :: "nat \<Rightarrow> (nat \<Rightarrow> u32) \<Rightarrow> nat \<Rightarrow> u32 \<Rightarrow> u32 \<Rightarrow> u32 \<Rightarrow> bool" where
  "placed bs blk lst pos b off \<longleftrightarrow> (\<exists>n \<le> lst. b = blk n \<and> ctz_start bs n \<le> unat pos \<and>
     unat off = unat pos - ctz_start bs n + 4 * ctz_ptrs n \<and> unat off \<le> bs)"

text \<open>
  A file whose list is on the device; while it is being read, the block and the offset it keeps
  are those of its position.
\<close>

definition readable_file ::
  "'z lfs_geometry_scheme \<Rightarrow> (u32 \<Rightarrow> u8 list) \<Rightarrow> (nat \<Rightarrow> u32) \<Rightarrow> nat \<Rightarrow> lfs_object \<Rightarrow> bool" where
  "readable_file c V blk lst f \<longleftrightarrow>
     \<not> has_flag f LFS_F_INLINE \<and> cache_coherent c V (file_cache f) \<and> ctz_list c V blk lst \<and>
     0 < unat (ctz_size (file_ctz f)) \<and> ctz_head (file_ctz f) = blk lst \<and>
     unat (fst (lfs_ctz_index c (ctz_size (file_ctz f) - 1))) = lst \<and>
     ctz_fits (unat (cfg_block_size c)) (unat (ctz_size (file_ctz f)) - 1) \<and>
     (has_flag f LFS_F_READING \<longrightarrow>
        placed (unat (cfg_block_size c)) blk lst (file_pos f) (file_block f) (file_off f))"

context block_device begin

text \<open>Before a read the file is at a place inside a block.\<close>

lemma flushedread_seek_ok:
  assumes v: "valid d" and r: "readable_file c (contents d) blk lst f"
    and pos: "unat (file_pos f) < unat (ctz_size (file_ctz f))" and s: "lfs_dev s = d"
  shows "wp (flushedread_seek c x) (okp (\<lambda>_. on_obj x s (\<lambda>f'.
      readable_file c (contents d) blk lst f' \<and> has_flag f' LFS_F_READING \<and>
      file_off f' \<noteq> cfg_block_size c \<and> file_pos f' = file_pos f \<and> file_ctz f' = file_ctz f))) (with_obj x f s)"
proof (cases "\<not> has_flag f LFS_F_READING \<or> file_off f = cfg_block_size c")
  case False
  then show ?thesis using r by (auto simp: flushedread_seek_def wp_simps)
next
  case True
  let ?B = "unat (cfg_block_size c)" and ?sz = "ctz_size (file_ctz f)"
  note rf = r [unfolded readable_file_def]
  have "wp (lfs_ctz_find c None (ctz_head (file_ctz f)) ?sz (file_pos f))
      (okp (\<lambda>(b, off) (r', d'). d' = d \<and> cache_coherent c (contents d) r' \<and>
         (\<exists>n \<le> lst. b = blk n \<and> ctz_start ?B n \<le> unat (file_pos f) \<and>
            unat (file_pos f) < ctz_start ?B (n + 1) \<and>
            unat off = unat (file_pos f) - ctz_start ?B n + 4 * ctz_ptrs n \<and>
            unat off < ?B))) (file_cache f, d)"
    by (rule ctz_find_ok [OF v]) (use rf pos in auto)
  then have "wp (lfs_ctz_find c None (ctz_head (file_ctz f)) ?sz (file_pos f))
      (okp (\<lambda>(b, off) (r', d'). d' = d \<and> cache_coherent c (contents d) r' \<and>
         placed ?B blk lst (file_pos f) b off \<and> off \<noteq> cfg_block_size c)) (file_cache f, d)"
    by (rule wp_okp_mono) (fastforce simp: placed_def okp_def)
  then have find: "wp (on_fcache x (lfs_ctz_find c None (ctz_head (file_ctz f)) ?sz (file_pos f)))
      (okp (\<lambda>(b, off) s'. \<exists>p. s' = with_obj x (f\<lparr>file_cache := p\<rparr>) s \<and> cache_coherent c (contents d) p \<and>
         placed ?B blk lst (file_pos f) b off \<and> off \<noteq> cfg_block_size c)) (with_obj x f s)"
    unfolding wp_on_fcache
    by (simp add: s) (erule wp_mono, auto simp: okp_def s [symmetric] split: outcome.splits)
  have step: "wp (flushedread_seek c x) Q (with_obj x f s) =
      wp (bnd (bnd (on_fcache x (lfs_ctz_find c None (ctz_head (file_ctz f)) ?sz (file_pos f)))
        (\<lambda>(block, off). upd_obj x (\<lambda>f. f\<lparr>file_block := block, file_off := off\<rparr>)))
        (\<lambda>_. upd_obj x (set_flag LFS_F_READING))) Q (with_obj x f s)" for Q
    using True rf by (simp add: flushedread_seek_def wp_bnd [of "get_obj x"] wp_get_obj)
  show ?thesis
    unfolding step wp_bnd
    by (rule wp_okp_mono [OF find]) (use rf in \<open>auto simp: wp_simps readable_file_def\<close>)
qed

text \<open>A region of a block that a place is in, as a region of the file.\<close>

lemma seg_placed:
  assumes v: "valid d" and l: "ctz_list c (contents d) blk lst"
    and p: "placed (unat (cfg_block_size c)) blk lst pos b off"
    and k: "unat off + k \<le> unat (cfg_block_size c)" "unat pos + k \<le> sz"
  shows "seg (contents d b) (unat off) k = seg (ctz_data (contents d) blk lst sz) (unat pos) k"
    and "b < cfg_block_count c"
proof -
  obtain n where n: "n \<le> lst" "b = blk n" "ctz_start (unat (cfg_block_size c)) n \<le> unat pos"
      "unat off = unat pos - ctz_start (unat (cfg_block_size c)) n + 4 * ctz_ptrs n"
    using p by (auto simp: placed_def)
  define j where "j = unat pos - ctz_start (unat (cfg_block_size c)) n"
  have len: "length (contents d (blk i)) = unat (cfg_block_size c)" if "i < Suc lst" for i
    using that ctz_listD(1) [OF l, of i] by (intro length_contents [OF v]) simp
  have "seg (ctz_stream (contents d) blk (Suc lst)) (ctz_start (unat (cfg_block_size c)) n + j) k =
      seg (contents d (blk n)) (4 * ctz_ptrs n + j) k"
    by (rule seg_ctz_stream) (use len n k in \<open>auto simp: j_def\<close>)
  then show "seg (contents d b) (unat off) k = seg (ctz_data (contents d) blk lst sz) (unat pos) k"
    using n k by (simp add: ctz_data_def seg_take j_def add.commute)
  show "b < cfg_block_count c" using ctz_listD(1) [OF l n(1)] n(2) by simp
qed

text \<open>The loop returns the bytes of the file from its position on.\<close>

lemma flushedread_loop_ok:
  assumes v: "valid d" and s: "lfs_dev s = d"
  shows "readable_file c (contents d) blk lst f \<Longrightarrow> unat nsize < n \<Longrightarrow>
    unat (file_pos f) + unat nsize \<le> unat (ctz_size (file_ctz f)) \<Longrightarrow>
    wp (flushedread_loop c x n nsize) (okp (\<lambda>bs. on_obj x s (\<lambda>f'.
      readable_file c (contents d) blk lst f' \<and> file_ctz f' = file_ctz f \<and> file_pos f' = file_pos f + nsize \<and>
      bs = seg (ctz_data (contents d) blk lst (unat (ctz_size (file_ctz f)))) (unat (file_pos f)) (unat nsize))))
      (with_obj x f s)"
proof (induction n arbitrary: nsize f)
  case (Suc n)
  let ?D = "ctz_data (contents d) blk lst (unat (ctz_size (file_ctz f)))" and ?B = "unat (cfg_block_size c)"
  note w = wf_geometryD [OF geometry [OF v]]
  show ?case
  proof (cases "nsize = 0")
    case True
    then show ?thesis using Suc.prems by (auto simp: wp_ret)
  next
    case False
    then have n0: "0 < unat nsize" by (simp add: unat_gt_0)
    define body where "body f1 = (let diff = lfs_min nsize (cfg_block_size c - file_off f1)
        in bnd (on_fcache x (lfs_bd_read c None (cfg_block_size c) (file_block f1) (file_off f1) diff)) (\<lambda>bs.
           bnd (upd_obj x (\<lambda>f. f\<lparr>file_pos := file_pos f + diff, file_off := file_off f + diff\<rparr>)) (\<lambda>_.
           bnd (flushedread_loop c x n (nsize - diff)) (\<lambda>rest. ret (bs @ rest)))))" for f1 :: lfs_object
    have body: "wp (body f1) (okp (\<lambda>bs. on_obj x s (\<lambda>f'.
          readable_file c (contents d) blk lst f' \<and> file_ctz f' = file_ctz f \<and> file_pos f' = file_pos f + nsize \<and>
          bs = seg ?D (unat (file_pos f)) (unat nsize)))) (with_obj x f1 s)"
      if r1: "readable_file c (contents d) blk lst f1" "has_flag f1 LFS_F_READING"
        and o1: "file_off f1 \<noteq> cfg_block_size c" and f1: "file_pos f1 = file_pos f" "file_ctz f1 = file_ctz f" for f1
    proof -
      define diff where "diff = lfs_min nsize (cfg_block_size c - file_off f1)"
      note rf = r1(1) [unfolded readable_file_def]
      have pl: "placed ?B blk lst (file_pos f1) (file_block f1) (file_off f1)" using rf r1(2) by blast
      then have off: "unat (file_off f1) < ?B" using o1 by (auto simp: placed_def u32_eq)
      then have d: "unat diff = min (unat nsize) (?B - unat (file_off f1))"
        by (simp add: diff_def unat_lfs_min unat_sub_u32)
      then have d0: "0 < unat diff" "unat diff \<le> unat nsize" "unat (file_off f1) + unat diff \<le> ?B"
        using n0 off by auto
      have pd: "unat (file_pos f1) + unat diff \<le> unat (ctz_size (file_ctz f))"
        using Suc.prems(3) d0(2) f1 by simp
      note seg = seg_placed [OF v _ pl d0(3) pd]
      have sum: "unat (file_pos f1 + diff) = unat (file_pos f1) + unat diff"
          "unat (file_off f1 + diff) = unat (file_off f1) + unat diff" "unat (nsize - diff) = unat nsize - unat diff"
        using pd d0 w(9) by (simp_all add: unat_add_u32 unat_sub_u32 le_less_trans [OF _ unat_less_u32 [of "ctz_size (file_ctz f)"]])
      have read: "wp (on_fcache x (lfs_bd_read c None (cfg_block_size c) (file_block f1) (file_off f1) diff))
          (okp (\<lambda>bs. on_obj x s (\<lambda>f'. \<exists>p. f' = f1\<lparr>file_cache := p\<rparr> \<and> cache_coherent c (contents d) p \<and>
             bs = seg ?D (unat (file_pos f)) (unat diff)))) (with_obj x f1 s)"
        unfolding wp_on_fcache
        by (simp add: s, rule wp_okp_mono [OF bd_read_ok [OF v]])
          (use rf seg d0 w f1 in \<open>auto simp: okp_def s [symmetric]\<close>)
      have rest: "wp (bnd (flushedread_loop c x n (nsize - diff)) (\<lambda>rest. ret (bs @ rest)))
          (okp (\<lambda>bs. on_obj x s (\<lambda>f'.
            readable_file c (contents d) blk lst f' \<and> file_ctz f' = file_ctz f \<and> file_pos f' = file_pos f + nsize \<and>
            bs = seg ?D (unat (file_pos f)) (unat nsize))))
          (with_obj x (f1\<lparr>file_cache := p, file_pos := file_pos f1 + diff, file_off := file_off f1 + diff\<rparr>) s)"
        if p: "cache_coherent c (contents d) p" and bs: "bs = seg ?D (unat (file_pos f)) (unat diff)" for p bs
      proof -
        let ?g = "f1\<lparr>file_cache := p, file_pos := file_pos f1 + diff, file_off := file_off f1 + diff\<rparr>"
        have "placed ?B blk lst (file_pos f1 + diff) (file_block f1) (file_off f1 + diff)"
          using pl d0(3) unfolding placed_def sum by auto
        then have g: "readable_file c (contents d) blk lst ?g"
          using rf p by (simp add: readable_file_def)
        have "wp (flushedread_loop c x n (nsize - diff)) (okp (\<lambda>bs. on_obj x s (\<lambda>f'.
            readable_file c (contents d) blk lst f' \<and> file_ctz f' = file_ctz f \<and>
            file_pos f' = file_pos f + nsize \<and>
            bs = seg ?D (unat (file_pos f) + unat diff) (unat nsize - unat diff)))) (with_obj x ?g s)"
          by (rule wp_okp_mono [OF Suc.IH [OF g]])
            (use Suc.prems d0 f1 sum in \<open>auto elim!: on_objE\<close>)
        then show ?thesis
          unfolding wp_bnd bs
          by (rule wp_okp_mono)
            (auto simp: wp_ret seg_split [OF d0(2), symmetric] elim!: on_objE)
      qed
      show ?thesis
        unfolding body_def Let_def diff_def [symmetric] wp_bnd [of "on_fcache _ _"]
        by (rule wp_okp_mono [OF read]) (auto simp: wp_bnd [of "upd_obj _ _"] wp_upd_obj elim!: on_objE intro!: rest)
    qed
    show ?thesis
      unfolding flushedread_loop.simps if_not_P [OF False] wp_bnd [of "flushedread_seek _ _"]
      by (rule wp_okp_mono [OF flushedread_seek_ok [OF v Suc.prems(1) _ s]])
        (use Suc.prems n0 body in \<open>auto simp: wp_bnd [of "get_obj x"] wp_get_obj body_def readable_file_def Let_def elim!: on_objE\<close>)
  qed
qed simp

lemma length_ctz_data:
  assumes v: "valid d" and r: "readable_file c (contents d) blk lst f"
  shows "length (ctz_data (contents d) blk lst (unat (ctz_size (file_ctz f)))) = unat (ctz_size (file_ctz f))"
proof -
  note rf = r [unfolded readable_file_def]
  let ?sz = "ctz_size (file_ctz f)"
  obtain i off where i: "lfs_ctz_index c (?sz - 1) = (i, off)" by (cases "lfs_ctz_index c (?sz - 1)")
  have s1: "unat (?sz - 1) = unat ?sz - 1" using rf by (simp add: unat_sub_u32 Suc_leI)
  have fits: "ctz_fits (unat (cfg_block_size c)) (unat (?sz - 1))" using rf s1 by simp
  have "unat ?sz - 1 < ctz_start (unat (cfg_block_size c)) (lst + 1)"
    using lfs_ctz_index_ok(2) [OF fits i] rf i s1 by (simp del: ctz_start.simps)
  moreover have "length (ctz_stream (contents d) blk (Suc lst)) = ctz_start (unat (cfg_block_size c)) (Suc lst)"
    by (intro length_ctz_stream length_contents [OF v] ctz_listD(1) [of c "contents d" blk lst]) (use rf in auto)
  ultimately show ?thesis using rf by (simp add: ctz_data_def del: ctz_start.simps)
qed

text \<open>Reading a file that has no unwritten data: its bytes, up to the end of the file.\<close>

lemma rawread_ok:
  assumes v: "valid (lfs_dev s)" and r: "readable_file c (contents (lfs_dev s)) blk lst (lfs_objs s x)"
    and flags: "file_flags (lfs_objs s x) AND LFS_O_RDONLY = LFS_O_RDONLY" "\<not> has_flag (lfs_objs s x) LFS_F_WRITING"
  defines "f \<equiv> lfs_objs s x"
  defines "data \<equiv> ctz_data (contents (lfs_dev s)) blk lst (unat (ctz_size (file_ctz f)))"
  shows "wp (lfs_file_rawread c x sz) (okp (\<lambda>bs. on_obj x s (\<lambda>f'.
      readable_file c (contents (lfs_dev s)) blk lst f' \<and> file_ctz f' = file_ctz f \<and>
      bs = take (unat sz) (drop (unat (file_pos f)) data) \<and>
      unat (file_pos f') = unat (file_pos f) + length bs))) s"
proof -
  let ?size = "ctz_size (file_ctz f)"
  have len: "length data = unat ?size"
    unfolding data_def by (rule length_ctz_data [OF v r [folded f_def]])
  have run: "wp (lfs_file_rawread c x sz) Q s = wp (lfs_file_flushedread c x sz) Q s" for Q
    using flags by (simp add: lfs_file_rawread_def wp_bnd [of "get_obj x"] wp_get_obj wp_bnd [of "assertion _"] wp_assertion)
  show ?thesis
  proof (cases "?size \<le> file_pos f")
    case True
    then have "drop (unat (file_pos f)) data = []" using len by (simp add: u32_simps)
    then show ?thesis
      unfolding run lfs_file_flushedread_def
      using True r by (simp add: wp_simps f_def)
  next
    case False
    define k where "k = lfs_min sz (?size - file_pos f)"
    have k: "unat k = min (unat sz) (unat ?size - unat (file_pos f))"
      using False by (simp add: k_def unat_lfs_min unat_sub_u32 u32_simps)
    then have le: "unat (file_pos f) + unat k \<le> unat ?size" using False by (simp add: u32_simps)
    have pos: "unat (file_pos f + k) = unat (file_pos f) + unat k"
      using le_less_trans [OF le unat_less_u32] by (rule unat_add_u32)
    have bs: "seg data (unat (file_pos f)) (unat k) = take (unat sz) (drop (unat (file_pos f)) data)"
      using k len by (simp add: seg_def min_def)
    have "wp (flushedread_loop c x (unat k + 1) k) (okp (\<lambda>bs. on_obj x s (\<lambda>f'.
        readable_file c (contents (lfs_dev s)) blk lst f' \<and> file_ctz f' = file_ctz f \<and> file_pos f' = file_pos f + k \<and>
        bs = seg data (unat (file_pos f)) (unat k)))) (with_obj x f s)"
      unfolding data_def
      by (rule flushedread_loop_ok [OF v refl]) (use r le in \<open>simp_all add: f_def\<close>)
    then have loop: "wp (flushedread_loop c x (unat k + 1) k) (okp (\<lambda>bs. on_obj x s (\<lambda>f'.
        readable_file c (contents (lfs_dev s)) blk lst f' \<and> file_ctz f' = file_ctz f \<and>
        bs = take (unat sz) (drop (unat (file_pos f)) data) \<and>
        unat (file_pos f') = unat (file_pos f) + length bs))) (with_obj x f s)"
      by (rule wp_okp_mono) (use pos le len in \<open>auto simp: bs [symmetric] elim!: on_objE\<close>)
    have self: "with_obj x f s = s" by (simp add: f_def)
    show ?thesis
      unfolding run lfs_file_flushedread_def
      using False loop [unfolded self] by (simp add: wp_bnd [of "get_obj x"] wp_get_obj f_def [symmetric] k_def [symmetric] Let_def del: flushedread_loop.simps)
  qed
qed

end

end
