(* ===== verification/LFS_Inline.thy ===== *)
theory LFS_Inline
  imports LFS_Reader
begin

text \<open>
  Small files, whose data is in the buffer of the file until it is closed: an inline file implements
  a byte array with a position.  The operations are those of \<^verbatim>\<open>LFS_File\<close>; the array is the part of the
  buffer up to the size of the file.
\<close>

section \<open>Flags\<close>

lemma word_or_eq_0: "(a :: u32) OR b = 0 \<longleftrightarrow> a = 0 \<and> b = 0"
  by (auto simp: bit_eq_iff bit_or_iff)

lemma has_set_flag: "has_flag (set_flag a f) b \<longleftrightarrow> has_flag f b \<or> a AND b \<noteq> 0"
  by (simp add: has_flag_def set_flag_def bit.conj_disj_distrib2 word_or_eq_0)

lemma has_clear_flag:
  "has_flag (clear_flag a f) a = False"
  "a AND b = 0 \<Longrightarrow> has_flag (clear_flag a f) b = has_flag f b"
proof -
  have "(n AND NOT a) AND a = 0" for n :: u32
    by (rule bit_eqI) (auto simp: bit_and_iff bit_not_iff)
  then show "has_flag (clear_flag a f) a = False" by (simp add: has_flag_def clear_flag_def)
  assume "a AND b = 0"
  then have "\<not> (bit a n \<and> bit b n)" for n by (metis bit_and_iff bit_0_eq bot_apply bot_bool_def)
  then have "(n AND NOT a) AND b = n AND b" for n :: u32
    by (intro bit_word_eqI) (auto simp: bit_and_iff bit_not_iff)
  then show "has_flag (clear_flag a f) b = has_flag f b" by (simp add: has_flag_def clear_flag_def)
qed

lemma file_fields [simp]:
  "file_pos (clear_flag k f) = file_pos f" "file_off (clear_flag k f) = file_off f"
  "file_block (clear_flag k f) = file_block f" "file_cache (clear_flag k f) = file_cache f"
  "file_ctz (clear_flag k f) = file_ctz f"
  by (simp_all add: clear_flag_def)

lemma has_flag_fields [simp]:
  "has_flag (f\<lparr>file_pos := pos\<rparr>) k = has_flag f k" "has_flag (f\<lparr>file_ctz := z\<rparr>) k = has_flag f k"
  "has_flag (f\<lparr>file_block := b\<rparr>) k = has_flag f k" "has_flag (f\<lparr>file_off := off\<rparr>) k = has_flag f k"
  by (simp_all add: has_flag_def)

lemmas flag_values = LFS_O_RDONLY_def LFS_O_WRONLY_def LFS_O_APPEND_def LFS_F_DIRTY_def LFS_F_WRITING_def
  LFS_F_READING_def LFS_F_ERRED_def LFS_F_INLINE_def

text \<open>How the file was opened, as far as reading and writing go.\<close>

definition file_mode :: "lfs_object \<Rightarrow> u32" where
  "file_mode f = file_flags f AND (LFS_O_RDONLY OR LFS_O_WRONLY OR LFS_O_APPEND)"

lemma file_mode_D:
  "file_flags f AND LFS_O_RDONLY = file_mode f AND LFS_O_RDONLY"
  "file_flags f AND LFS_O_WRONLY = file_mode f AND LFS_O_WRONLY"
  "has_flag f LFS_O_APPEND \<longleftrightarrow> file_mode f AND LFS_O_APPEND \<noteq> 0"
  by (simp_all add: file_mode_def has_flag_def and.assoc flag_values)

lemma file_mode_simps [simp]:
  "file_mode (f\<lparr>file_pos := pos\<rparr>) = file_mode f" "file_mode (f\<lparr>file_ctz := z\<rparr>) = file_mode f"
  "file_mode (f\<lparr>file_block := b\<rparr>) = file_mode f" "file_mode (f\<lparr>file_off := off\<rparr>) = file_mode f"
  "file_mode (f\<lparr>file_cache := p\<rparr>) = file_mode f"
  by (simp_all add: file_mode_def)

lemma file_mode_flags [simp]:
  assumes "k AND 2051 = 0"
  shows "file_mode (set_flag k f) = file_mode f" "file_mode (clear_flag k f) = file_mode f"
proof -
  have *: "\<not> (bit k n \<and> bit (2051 :: u32) n)" for n using assms by (metis bit_and_iff bit_0_eq bot_apply bot_bool_def)
  show "file_mode (set_flag k f) = file_mode f" "file_mode (clear_flag k f) = file_mode f"
    using * by (auto simp: file_mode_def set_flag_def clear_flag_def flag_values bit_and_iff bit_or_iff bit_not_iff
        intro!: bit_word_eqI)
qed

section \<open>The byte array\<close>

text \<open>The buffer of an inline file holds its data; while it is read or written the offset is the position.\<close>

definition inline_file :: "'z lfs_geometry_scheme \<Rightarrow> lfs_object \<Rightarrow> bool" where
  "inline_file c f \<longleftrightarrow>
     has_flag f LFS_F_INLINE \<and> cache_block (file_cache f) = LFS_BLOCK_INLINE \<and> cache_off (file_cache f) = 0 \<and>
     cache_size (file_cache f) = cfg_cache_size c \<and>
     length (cache_buffer (file_cache f)) = unat (cfg_cache_size c) \<and>
     file_rawsize f \<le> inline_max c \<and> \<not> (has_flag f LFS_F_READING \<and> has_flag f LFS_F_WRITING) \<and>
     unat (file_pos f) + 8 < unat (cfg_block_size c) \<and>
     (has_flag f LFS_F_READING \<or> has_flag f LFS_F_WRITING \<longrightarrow>
        file_block f = LFS_BLOCK_INLINE \<and> file_off f = file_pos f)"

definition inline_bytes :: "lfs_object \<Rightarrow> u8 list" where
  "inline_bytes f = take (unat (file_rawsize f)) (cache_buffer (file_cache f))"

text \<open>Writing into an array at a position, with zeros up to it.\<close>

definition array_write :: "u8 list \<Rightarrow> nat \<Rightarrow> u8 list \<Rightarrow> u8 list" where
  "array_write xs pos data = patch (xs @ replicate (pos - length xs) 0) pos data"

lemma take_max_patch:
  assumes "p \<le> k" "k \<le> length xs" "p + length data \<le> length xs"
  shows "take (max (p + length data) k) (patch xs p data) = array_write (take k xs) p data"
proof -
  have r: "array_write (take k xs) p data = patch (take k xs) p data" using assms by (simp add: array_write_def)
  show ?thesis
  proof (cases "p + length data \<le> k")
    case True
    then have m: "max (p + length data) k = k" by simp
    show ?thesis using True assms unfolding r m by (simp add: patch_def drop_take)
  next
    case False
    then show ?thesis using assms unfolding r by (simp add: patch_def min_def max_def)
  qed
qed

text \<open>What an operation on a file does not touch.\<close>

definition only_file :: "obj_ref \<Rightarrow> 'd lfs \<Rightarrow> 'd lfs \<Rightarrow> bool" where
  "only_file x s s' \<longleftrightarrow> lfs_dev s' = lfs_dev s \<and> lfs_rcache s' = lfs_rcache s \<and> lfs_pcache s' = lfs_pcache s \<and>
     lfs_mlist s' = lfs_mlist s \<and> lfs_file_max s' = lfs_file_max s \<and> (\<forall>y. y \<noteq> x \<longrightarrow> lfs_objs s' y = lfs_objs s y)"

lemma only_file_refl [simp]: "only_file x s s" and only_file_with [simp]: "only_file x s (with_obj x f s)"
  by (simp_all add: only_file_def with_obj_def)

lemma only_file_trans: "only_file x s s' \<Longrightarrow> only_file x s' s'' \<Longrightarrow> only_file x s s''"
  by (simp add: only_file_def)

text \<open>The geometry: the limit of inline files is inside the buffer and inside the first block.\<close>

definition inline_geometry :: "'z lfs_geometry_scheme \<Rightarrow> bool" where
  "inline_geometry c \<longleftrightarrow> wf_geometry c \<and> cfg_metadata_max c \<le> cfg_block_size c \<and> 16 \<le> unat (cfg_block_size c)"

lemma inline_max_bounds:
  assumes "inline_geometry c"
  shows "unat (inline_max c) \<le> unat (cfg_cache_size c)" "unat (inline_max c) + 8 < unat (cfg_block_size c)"
    "unat (inline_max c) \<le> 1022" "unat (cfg_cache_size c) \<le> unat (cfg_block_size c)" "unat (cfg_block_size c) < 1073741824"
  using assms wf_geometryD [of c] by (auto simp: inline_geometry_def inline_max_def unat_lfs_min u32_simps min_def)

lemma flush_inline:
  assumes "inline_file c (lfs_objs s x)"
  shows "wp (lfs_file_flush c x) (okp (\<lambda>_ s'. only_file x s s' \<and> inline_file c (lfs_objs s' x) \<and>
    inline_bytes (lfs_objs s' x) = inline_bytes (lfs_objs s x) \<and> file_pos (lfs_objs s' x) = file_pos (lfs_objs s x) \<and>
    \<not> has_flag (lfs_objs s' x) LFS_F_READING \<and> \<not> has_flag (lfs_objs s' x) LFS_F_WRITING \<and>
    file_mode (lfs_objs s' x) = file_mode (lfs_objs s x))) s"
  using assms
  by (auto simp: lfs_file_flush_def wp_simps inline_file_def inline_bytes_def file_rawsize_def has_set_flag has_clear_flag
      flag_values)

section \<open>Writing\<close>

text \<open>Programming the buffer: the whole data at once, and nothing is flushed.\<close>

lemma bd_prog_inline:
  assumes p: "cache_block p = LFS_BLOCK_INLINE" "cache_off p = 0" "cache_size p = cfg_cache_size c"
      "length (cache_buffer p) = unat (cfg_cache_size c)"
    and fit: "unat off + length data \<le> unat (cfg_cache_size c)" "unat (cfg_cache_size c) \<le> unat (cfg_block_size c)"
  shows "lfs_bd_prog c v LFS_BLOCK_INLINE off data (p, rd) =
    (Ok (), (p\<lparr>cache_buffer := patch (cache_buffer p) (unat off) data\<rparr>, rd))"
proof -
  have tot: "unat off + length data < 4294967296" using fit unat_less_u32 [of "cfg_cache_size c"] by linarith
  then have n: "length data < 4294967296" by simp
  have un: "unat (of_nat (length data) :: u32) = length data" using n by (rule unat_of_nat_u32)
  have sum: "unat (off + of_nat (length data)) = unat off + length data"
    using un tot by (subst unat_add_u32) simp_all
  then have le: "off + of_nat (length data) \<le> cfg_block_size c" using fit by (simp add: u32_simps)
  have "bd_prog_loop c v LFS_BLOCK_INLINE (Suc (2 * length data)) off data (p, rd) =
      (Ok (), (p\<lparr>cache_buffer := patch (cache_buffer p) (unat off) data\<rparr>, rd))"
  proof (cases "data = []")
    case True
    then show ?thesis by (simp add: ret_def)
  next
    case False
    then obtain k where k: "2 * length data = Suc k" by (cases "2 * length data") auto
    have less: "off < cfg_cache_size c" using False fit by (cases data) (simp_all add: u32_simps)
    have d: "lfs_min (of_nat (length data)) (cfg_cache_size c - off) = of_nat (length data)"
      using fit less un by (simp add: u32_eq unat_lfs_min unat_sub_u32 u32_simps)
    have m: "lfs_max (cfg_cache_size c) (off + of_nat (length data)) = cfg_cache_size c"
      using fit sum by (simp add: u32_eq unat_lfs_max)
    have flush: "lfs_bd_flush c v (p\<lparr>cache_buffer := buf, cache_size := n\<rparr>, rd) =
        (Ok (), (p\<lparr>cache_buffer := buf, cache_size := n\<rparr>, rd))" for buf n
      by (simp add: lfs_bd_flush_def cmd_simps p)
    show ?thesis
      unfolding k bd_prog_loop.simps
      using False p less d m un fit flush
      by (simp add: cmd_simps Let_def mem_write_patch)
  qed
  then show ?thesis
    using le by (simp add: lfs_bd_prog_def cmd_simps)
qed

text \<open>A write that fits: the loop turns once.\<close>

lemma wp_on_fcaches:
  "wp (on_fcaches x m) Q s = wp m (\<lambda>r (p, (rc, d)). Q r (put_fcache x p (s\<lparr>lfs_rcache := rc, lfs_dev := d\<rparr>)))
     (file_cache (lfs_objs s x), (lfs_rcache s, lfs_dev s))"
  by (simp add: on_fcaches_def wp_zoom case_prod_beta')

lemma only_file_put [simp]: "only_file x s (put_fcache x p s)"
  by (simp add: only_file_def put_fcache_def)

lemma wp_set_ferr_ok:
  "wp m (okp P) s \<Longrightarrow> wp (set_ferr x m) (okp P) s"
  unfolding set_ferr_def wp_handle by (erule wp_mono) (auto simp: okp_def split: outcome.splits)

lemma flushedwrite_prog_inline:
  assumes f: "inline_file c (lfs_objs s x)" "has_flag (lfs_objs s x) LFS_F_WRITING"
    and fit: "unat (file_pos (lfs_objs s x)) + length data \<le> unat (cfg_cache_size c)"
      "unat (cfg_cache_size c) \<le> unat (cfg_block_size c)"
  shows "wp (flushedwrite_prog c x data (Suc n)) (okp (\<lambda>_ s'. s' = with_obj x ((lfs_objs s x)\<lparr>file_cache :=
      (file_cache (lfs_objs s x))\<lparr>cache_buffer :=
        patch (cache_buffer (file_cache (lfs_objs s x))) (unat (file_pos (lfs_objs s x))) data\<rparr>\<rparr>) s)) s"
proof -
  note fi = f(1) [unfolded inline_file_def]
  have "wp (bad_block (on_fcaches x (lfs_bd_prog c True (file_block (lfs_objs s x)) (file_off (lfs_objs s x)) data)))
      (okp (\<lambda>bad s'. \<not> bad \<and> s' = with_obj x ((lfs_objs s x)\<lparr>file_cache :=
      (file_cache (lfs_objs s x))\<lparr>cache_buffer :=
        patch (cache_buffer (file_cache (lfs_objs s x))) (unat (file_pos (lfs_objs s x))) data\<rparr>\<rparr>) s)) s"
    using fi f(2) fit
    by (simp add: bad_block_def wp_bnd wp_attempt wp_on_fcaches wp_def [of "lfs_bd_prog _ _ _ _ _"]
        bd_prog_inline wp_ret put_fcache_def with_obj_def)
  then show ?thesis
    by (simp add: wp_bnd [of "get_obj x"] wp_get_obj wp_bnd [of "set_ferr _ _"])
      (drule wp_set_ferr_ok [of _ _ _ x], erule wp_okp_mono, auto simp: wp_ret)
qed

lemma flushedwrite_seek_inline:
  assumes f: "inline_file c f" "\<not> has_flag f LFS_F_READING" and pos: "file_pos f \<le> file_rawsize f"
  shows "wp (flushedwrite_seek c x) (okp (\<lambda>_. on_obj x s (\<lambda>f'. inline_file c f' \<and> has_flag f' LFS_F_WRITING \<and>
    \<not> has_flag f' LFS_F_READING \<and> file_cache f' = file_cache f \<and> file_pos f' = file_pos f \<and>
    file_ctz f' = file_ctz f \<and> file_rawsize f' = file_rawsize f \<and>
    file_mode f' = file_mode f))) (with_obj x f s)"
proof -
  have max: "\<not> has_flag f LFS_F_WRITING \<Longrightarrow> lfs_max (file_pos f) (ctz_size (file_ctz f)) = ctz_size (file_ctz f)"
    using pos by (simp add: file_rawsize_def u32_eq u32_simps)
  show ?thesis
    using f max
    by (auto simp: flushedwrite_seek_def wp_simps inline_file_def file_rawsize_def has_set_flag flag_values)
qed

text \<open>The file after a write of the buffer.\<close>

definition wrote :: "lfs_object \<Rightarrow> u8 list \<Rightarrow> lfs_object \<Rightarrow> lfs_object" where
  "wrote f data f1 = f1\<lparr>file_cache := (file_cache f)\<lparr>cache_buffer :=
       patch (cache_buffer (file_cache f)) (unat (file_pos f)) data\<rparr>,
     file_pos := file_pos f + of_nat (length data), file_off := file_pos f + of_nat (length data)\<rparr>"

lemma wrote_simps [simp]:
  "file_pos (wrote f data f1) = file_pos f + of_nat (length data)"
  "file_off (wrote f data f1) = file_pos f + of_nat (length data)"
  "file_flags (wrote f data f1) = file_flags f1" "file_block (wrote f data f1) = file_block f1"
  "file_ctz (wrote f data f1) = file_ctz f1"
  "file_cache (wrote f data f1) = (file_cache f)\<lparr>cache_buffer :=
       patch (cache_buffer (file_cache f)) (unat (file_pos f)) data\<rparr>"
  by (simp_all add: wrote_def)

lemma has_flag_wrote [simp]:
  "has_flag (wrote f data f1) k = has_flag f1 k" "file_mode (wrote f data f1) = file_mode f1"
  by (simp_all add: has_flag_def file_mode_def)

text \<open>What a write leaves: the array with the data in it, the position behind it.\<close>

definition write_state :: "'z lfs_geometry_scheme \<Rightarrow> lfs_object \<Rightarrow> u8 list \<Rightarrow> lfs_object \<Rightarrow> bool" where
  "write_state c f data f' \<longleftrightarrow> inline_file c f' \<and>
     inline_bytes f' = array_write (inline_bytes f) (unat (file_pos f)) data \<and>
     unat (file_pos f') = unat (file_pos f) + length data \<and> file_pos f' \<le> file_rawsize f' \<and>
     \<not> has_flag f' LFS_F_READING \<and> file_mode f' = file_mode f \<and> file_ctz f' = file_ctz f"

lemma write_state_wrote:
  assumes f: "inline_file c f" and pos: "file_pos f \<le> file_rawsize f"
    and fit: "unat (file_pos f) + length data \<le> unat (inline_max c)" and g: "inline_geometry c"
    and f1: "inline_file c f1" "has_flag f1 LFS_F_WRITING" "\<not> has_flag f1 LFS_F_READING"
      "file_cache f1 = file_cache f" "file_pos f1 = file_pos f"
      "file_rawsize f1 = file_rawsize f" "file_mode f1 = file_mode f" "file_ctz f1 = file_ctz f"
  shows "write_state c f data (wrote f data f1)"
proof -
  note b = inline_max_bounds [OF g]
  note fi = f [unfolded inline_file_def]
  note i1 = f1(1) [unfolded inline_file_def]
  have len: "length data < 4294967296" using fit b by linarith
  have sum: "unat (file_pos f + of_nat (length data)) = unat (file_pos f) + length data"
    using fit b len by (subst unat_add_u32) (simp_all add: unat_of_nat_u32)
  have buf: "length (cache_buffer (file_cache f)) = unat (cfg_cache_size c)" using fi by simp
  have size: "unat (file_rawsize f) \<le> unat (inline_max c)" using fi by (simp add: u32_simps)
  have le: "unat (file_pos f) \<le> unat (file_rawsize f)" using pos by (simp add: u32_simps)
  have raw: "unat (file_rawsize (wrote f data f1)) = max (unat (file_pos f) + length data) (unat (file_rawsize f))"
  proof -
    have "lfs_max (file_pos f) (ctz_size (file_ctz f1)) = file_rawsize f"
      using f1(2,5,6) by (simp add: file_rawsize_def [of f1])
    then have "unat (file_rawsize f) = max (unat (file_pos f)) (unat (ctz_size (file_ctz f1)))"
      using unat_lfs_max by metis
    then show ?thesis using f1(2) sum by (simp add: file_rawsize_def [of "wrote _ _ _"] unat_lfs_max)
  qed
  have lenp: "length (patch (cache_buffer (file_cache f)) (unat (file_pos f)) data) = unat (cfg_cache_size c)"
    using buf fit b by (simp add: patch_def)
  have "inline_bytes (wrote f data f1) = array_write (inline_bytes f) (unat (file_pos f)) data"
    unfolding inline_bytes_def raw
    using take_max_patch [OF le, of "cache_buffer (file_cache f)" data] buf size fit b by simp
  moreover have "file_rawsize (wrote f data f1) \<le> inline_max c"
    unfolding u32_simps raw using fit size by simp
  then have "inline_file c (wrote f data f1)"
    using i1 f1(2,3,4) fi lenp sum fit b unfolding inline_file_def by simp
  moreover have "file_pos (wrote f data f1) \<le> file_rawsize (wrote f data f1)"
    unfolding u32_simps raw using sum by simp
  ultimately show ?thesis using sum f1 by (simp add: write_state_def)
qed

lemma flushedwrite_once:
  assumes g: "inline_geometry c" and f: "inline_file c f"
    and fit: "unat (file_pos f) + length data \<le> unat (inline_max c)"
    and f1: "inline_file c f1" "has_flag f1 LFS_F_WRITING" "\<not> has_flag f1 LFS_F_READING"
      "file_cache f1 = file_cache f" "file_pos f1 = file_pos f"
  shows "wp (bnd (get_obj x) (\<lambda>f.
        let diff = lfs_min (of_nat (length data)) (cfg_block_size c - file_off f)
        in bnd (gets lfs_free) (\<lambda>fr.
           bnd (flushedwrite_prog c x (take (unat diff) data) (unat (free_ack fr) + 2)) (\<lambda>_.
           bnd (upd_obj x (\<lambda>f. f\<lparr>file_pos := file_pos f + diff, file_off := file_off f + diff\<rparr>)) (\<lambda>_.
           bnd (lfs_alloc_ack c) (\<lambda>_.
           flushedwrite_loop c x (Suc m) (drop (unat diff) data)))))))
      (okp (\<lambda>_ s'. \<exists>fr. s' = (with_obj x (wrote f data f1) s)\<lparr>lfs_free := fr\<rparr>)) (with_obj x f1 s)"
proof -
  define n where "n = (of_nat (length data) :: u32)"
  note b = inline_max_bounds [OF g]
  note i1 = f1(1) [unfolded inline_file_def]
  have len: "length data < 4294967296" using fit b by linarith
  have n: "unat n = length data" using len by (simp add: n_def unat_of_nat_u32)
  have off: "file_off f1 = file_pos f" using i1 f1(2,5) by simp
  have fitB: "unat (file_pos f) + length data \<le> unat (cfg_block_size c)" using fit b by simp
  have d: "lfs_min n (cfg_block_size c - file_pos f) = n"
    using fitB n by (simp add: u32_eq unat_lfs_min unat_sub_u32)
  define p where "p = (file_cache f)\<lparr>cache_buffer := patch (cache_buffer (file_cache f)) (unat (file_pos f)) data\<rparr>"
  have prog: "wp (flushedwrite_prog c x data (Suc k)) (okp (\<lambda>_ s'. s' = with_obj x (f1\<lparr>file_cache := p\<rparr>) s))
      (with_obj x f1 s)" for k
    by (rule wp_okp_mono [OF flushedwrite_prog_inline]) (use f1 fit b in \<open>auto simp: p_def\<close>)
  have rest: "wp (bnd (upd_obj x (\<lambda>f. f\<lparr>file_pos := file_pos f + n, file_off := file_off f + n\<rparr>)) (\<lambda>_.
         bnd (lfs_alloc_ack c) (\<lambda>_. flushedwrite_loop c x (Suc m) [])))
      (okp (\<lambda>_ s'. \<exists>fr. s' = (with_obj x (wrote f data f1) s)\<lparr>lfs_free := fr\<rparr>)) (with_obj x (f1\<lparr>file_cache := p\<rparr>) s)"
    by (simp add: wp_simps lfs_alloc_ack_def on_free_def wrote_def p_def n_def off f1(5)) (auto simp: with_obj_def)
  have "take (unat n) data = data" "drop (unat n) data = []" using n by simp_all
  then show ?thesis
    unfolding n_def [symmetric] wp_bnd [of "get_obj x"] wp_get_obj
    by (simp add: off Let_def d wp_bnd_gets wp_bnd [of "flushedwrite_prog _ _ _ _"] del: flushedwrite_prog.simps flushedwrite_loop.simps)
      (rule wp_okp_mono [OF prog], use rest in \<open>simp del: flushedwrite_loop.simps\<close>)
qed

lemma flushedwrite_inline:
  assumes g: "inline_geometry c" and f: "inline_file c (lfs_objs s x)" "\<not> has_flag (lfs_objs s x) LFS_F_READING"
    and pos: "file_pos (lfs_objs s x) \<le> file_rawsize (lfs_objs s x)"
    and fit: "unat (file_pos (lfs_objs s x)) + length data \<le> unat (inline_max c)"
  shows "wp (lfs_file_flushedwrite c x data) (okp (\<lambda>r s'. r = of_nat (length data) \<and> only_file x s s' \<and>
    write_state c (lfs_objs s x) data (lfs_objs s' x))) s"
proof -
  let ?f = "lfs_objs s x"
  define n where "n = (of_nat (length data) :: u32)"
  note b = inline_max_bounds [OF g]
  note fi = f(1) [unfolded inline_file_def]
  have len: "length data < 4294967296" using fit b by linarith
  have n: "unat n = length data" using len by (simp add: n_def unat_of_nat_u32)
  have sum: "unat (file_pos ?f + n) = unat (file_pos ?f) + length data"
    using fit b n by (subst unat_add_u32) simp_all
  have "ctz_size (file_ctz ?f) \<le> file_rawsize ?f" by (simp add: file_rawsize_def u32_simps)
  then have inside: "\<not> inline_max c < lfs_max (file_pos ?f + n) (ctz_size (file_ctz ?f))"
    using fit sum fi by (auto simp: u32_simps)
  have self: "with_obj x ?f s = s" by simp
  have loop: "wp (flushedwrite_loop c x (length data + 1) data) (okp (\<lambda>_ s'. only_file x s s' \<and>
      write_state c ?f data (lfs_objs s' x))) s"
  proof (cases "data = []")
    case True
    have "unat (file_pos ?f) \<le> length (inline_bytes ?f)"
      using pos fi b by (simp add: inline_bytes_def u32_simps)
    then show ?thesis
      using True f pos by (simp add: wp_ret write_state_def array_write_def patch_def)
  next
    case False
    then obtain m where m: "length data = Suc m" by (cases data) auto
    have fuel: "length data + 1 = Suc (Suc m)" using m by simp
    have once: "wp (bnd (get_obj x) (\<lambda>f.
        let diff = lfs_min (of_nat (length data)) (cfg_block_size c - file_off f)
        in bnd (gets lfs_free) (\<lambda>fr.
           bnd (flushedwrite_prog c x (take (unat diff) data) (unat (free_ack fr) + 2)) (\<lambda>_.
           bnd (upd_obj x (\<lambda>f. f\<lparr>file_pos := file_pos f + diff, file_off := file_off f + diff\<rparr>)) (\<lambda>_.
           bnd (lfs_alloc_ack c) (\<lambda>_.
           flushedwrite_loop c x (Suc m) (drop (unat diff) data)))))))
        (okp (\<lambda>_ s'. only_file x s s' \<and> write_state c ?f data (lfs_objs s' x))) (with_obj x f1 s)"
      if "inline_file c f1" "has_flag f1 LFS_F_WRITING" "\<not> has_flag f1 LFS_F_READING"
        "file_cache f1 = file_cache ?f" "file_pos f1 = file_pos ?f" "file_rawsize f1 = file_rawsize ?f"
        "file_mode f1 = file_mode ?f" "file_ctz f1 = file_ctz ?f" for f1
      by (rule wp_okp_mono [OF flushedwrite_once [OF g f(1) fit that(1-5)]])
        (use write_state_wrote [OF f(1) pos fit g that] in \<open>auto simp: only_file_def with_obj_def\<close>)
    show ?thesis
      unfolding fuel flushedwrite_loop.simps(2) [of c x "Suc m"] if_not_P [OF False] wp_bnd [of "flushedwrite_seek _ _"]
      by (rule wp_okp_mono [OF flushedwrite_seek_inline [OF f pos, of x s, unfolded self]], erule on_objE, elim conjE)
        (simp only: outcome.case, rule once)
  qed
  show ?thesis
    unfolding lfs_file_flushedwrite_def wp_bnd [of "get_obj x"] wp_get_obj
    using inside
    by (simp add: n_def [symmetric] wp_bnd [of "ret _"] wp_bnd [of "flushedwrite_loop _ _ _ _"] wp_ret del: flushedwrite_loop.simps)
      (rule wp_okp_mono [OF loop [unfolded Suc_eq_plus1 [symmetric]]], simp add: wp_ret n_def)
qed


lemma array_write_end: "array_write xs (length xs) data = xs @ data"
  by (simp add: array_write_def patch_def)

lemma array_write_zeros: "length xs \<le> pos \<Longrightarrow> array_write (xs @ replicate (pos - length xs) 0) pos data = array_write xs pos data"
  by (simp add: array_write_def)

lemma length_inline_bytes:
  assumes "inline_geometry c" "inline_file c f"
  shows "length (inline_bytes f) = unat (file_rawsize f)"
  using assms inline_max_bounds [OF assms(1)] by (simp add: inline_file_def inline_bytes_def u32_simps)

text \<open>Filling a gap behind the end: a zero at a time, up to the position.\<close>

lemma write_zeros_inline:
  assumes g: "inline_geometry c" and p: "unat pos \<le> unat (inline_max c)"
  shows "unat pos - unat (file_pos (lfs_objs s x)) < n \<Longrightarrow> inline_file c (lfs_objs s x) \<Longrightarrow>
    \<not> has_flag (lfs_objs s x) LFS_F_READING \<Longrightarrow> file_pos (lfs_objs s x) = file_rawsize (lfs_objs s x) \<Longrightarrow>
    unat (file_pos (lfs_objs s x)) \<le> unat pos \<Longrightarrow>
    wp (write_zeros c x pos n) (okp (\<lambda>_ s'. only_file x s s' \<and> inline_file c (lfs_objs s' x) \<and>
      inline_bytes (lfs_objs s' x) =
        inline_bytes (lfs_objs s x) @ replicate (unat pos - unat (file_pos (lfs_objs s x))) 0 \<and>
      file_pos (lfs_objs s' x) = pos \<and> file_rawsize (lfs_objs s' x) = pos \<and>
      \<not> has_flag (lfs_objs s' x) LFS_F_READING \<and> file_ctz (lfs_objs s' x) = file_ctz (lfs_objs s x) \<and>
      file_mode (lfs_objs s' x) = file_mode (lfs_objs s x))) s"
proof (induction n arbitrary: s)
  case (Suc n)
  let ?f = "lfs_objs s x"
  show ?case
  proof (cases "file_pos ?f < pos")
    case False
    then have "file_pos ?f = pos" using Suc.prems by (simp add: u32_eq u32_simps)
    then show ?thesis using Suc.prems by (simp add: wp_simps)
  next
    case True
    then have lt: "unat (file_pos ?f) < unat pos" by (simp add: u32_simps)
    have one: "wp (lfs_file_flushedwrite c x [0]) (okp (\<lambda>_ s'. only_file x s s' \<and>
        write_state c ?f [0] (lfs_objs s' x))) s"
      by (rule wp_okp_mono [OF flushedwrite_inline [OF g]]) (use Suc.prems lt p in auto)
    have rest: "wp (write_zeros c x pos n) (okp (\<lambda>_ s''. only_file x s s'' \<and> inline_file c (lfs_objs s'' x) \<and>
        inline_bytes (lfs_objs s'' x) = inline_bytes ?f @ replicate (unat pos - unat (file_pos ?f)) 0 \<and>
        file_pos (lfs_objs s'' x) = pos \<and> file_rawsize (lfs_objs s'' x) = pos \<and>
        \<not> has_flag (lfs_objs s'' x) LFS_F_READING \<and> file_ctz (lfs_objs s'' x) = file_ctz ?f \<and>
        file_mode (lfs_objs s'' x) = file_mode ?f)) s'"
      if s': "only_file x s s'" "write_state c ?f [0] (lfs_objs s' x)" for s'
    proof -
      let ?f' = "lfs_objs s' x"
      note w = s'(2) [unfolded write_state_def]
      have len: "length (inline_bytes ?f) = unat (file_pos ?f)"
        using length_inline_bytes [OF g] Suc.prems by simp
      have bytes: "inline_bytes ?f' = inline_bytes ?f @ [0]"
        using w len array_write_end [of "inline_bytes ?f" "[0]"] by simp
      have "length (inline_bytes ?f') = unat (file_rawsize ?f')"
        by (rule length_inline_bytes [OF g]) (use w in blast)
      then have "unat (file_pos ?f') = unat (file_rawsize ?f')" unfolding bytes using w len by simp
      then have at_end: "file_pos ?f' = file_rawsize ?f'" by (simp add: u32_eq)
      have "replicate (unat pos - unat (file_pos ?f)) (0 :: u8) = 0 # replicate (unat pos - unat (file_pos ?f')) 0"
        using w lt by (simp add: replicate_Suc [symmetric] Suc_diff_Suc del: replicate_Suc)
      with bytes show ?thesis
        by (intro wp_okp_mono [OF Suc.IH])
          (use w Suc.prems lt at_end s'(1) in \<open>auto intro: only_file_trans\<close>)
    qed
    show ?thesis
      using True
      by (simp add: wp_bnd [of "get_obj x"] wp_get_obj wp_bnd [of "lfs_file_flushedwrite _ _ _"])
        (rule wp_okp_mono [OF one], simp add: rest)
  qed
qed simp

section \<open>The operations\<close>

text \<open>Where a write goes: to the end when the file was opened to append.\<close>

definition write_pos :: "lfs_object \<Rightarrow> nat" where
  "write_pos f = (if has_flag f LFS_O_APPEND then max (unat (file_pos f)) (unat (file_rawsize f)) else unat (file_pos f))"

text \<open>A file that appends writes from the end only.\<close>

definition append_ok :: "lfs_object \<Rightarrow> bool" where
  "append_ok f \<longleftrightarrow> (has_flag f LFS_F_WRITING \<and> has_flag f LFS_O_APPEND \<longrightarrow> ctz_size (file_ctz f) \<le> file_pos f)"

definition op_state :: "'z lfs_geometry_scheme \<Rightarrow> u8 list \<Rightarrow> nat \<Rightarrow> lfs_object \<Rightarrow> lfs_object \<Rightarrow> bool" where
  "op_state c xs pos f f' \<longleftrightarrow> inline_file c f' \<and> inline_bytes f' = xs \<and> unat (file_pos f') = pos \<and> file_mode f' = file_mode f \<and>
     append_ok f'"


lemma has_flag_clear_erred [simp]:
  "has_flag (clear_flag LFS_F_ERRED f) LFS_F_INLINE = has_flag f LFS_F_INLINE"
  "has_flag (clear_flag LFS_F_ERRED f) LFS_F_READING = has_flag f LFS_F_READING"
  "has_flag (clear_flag LFS_F_ERRED f) LFS_F_WRITING = has_flag f LFS_F_WRITING"
  "has_flag (clear_flag LFS_F_ERRED f) LFS_O_APPEND = has_flag f LFS_O_APPEND"
  "file_mode (clear_flag LFS_F_ERRED f) = file_mode f"
  by (simp_all add: has_clear_flag flag_values)

lemma clear_erred [simp]:
  "file_rawsize (clear_flag LFS_F_ERRED f) = file_rawsize f"
  "inline_file c (clear_flag LFS_F_ERRED f) = inline_file c f"
  "inline_bytes (clear_flag LFS_F_ERRED f) = inline_bytes f"
  "append_ok (clear_flag LFS_F_ERRED f) = append_ok f"
proof -
  show size: "file_rawsize (clear_flag LFS_F_ERRED f) = file_rawsize f" by (simp add: file_rawsize_def)
  show "inline_file c (clear_flag LFS_F_ERRED f) = inline_file c f" by (simp add: inline_file_def size)
  show "inline_bytes (clear_flag LFS_F_ERRED f) = inline_bytes f" by (simp add: inline_bytes_def size)
  show "append_ok (clear_flag LFS_F_ERRED f) = append_ok f" by (simp add: append_ok_def)
qed

lemma flush_reading_inline:
  assumes f: "inline_file c (lfs_objs s x)" "append_ok (lfs_objs s x)"
  shows "wp (if has_flag (lfs_objs s x) LFS_F_READING then lfs_file_flush c x else ret ())
    (okp (\<lambda>_ s'. only_file x s s' \<and> op_state c (inline_bytes (lfs_objs s x)) (unat (file_pos (lfs_objs s x))) (lfs_objs s x) (lfs_objs s' x) \<and>
      \<not> has_flag (lfs_objs s' x) LFS_F_READING \<and> file_rawsize (lfs_objs s' x) = file_rawsize (lfs_objs s x))) s"
proof (cases "has_flag (lfs_objs s x) LFS_F_READING")
  case True
  then have "\<not> has_flag (lfs_objs s x) LFS_F_WRITING" using f(1) by (simp add: inline_file_def)
  with True f show ?thesis
    by (auto simp: lfs_file_flush_def wp_simps inline_file_def op_state_def inline_bytes_def file_rawsize_def
        has_clear_flag append_ok_def flag_values)
next
  case False
  then show ?thesis using f by (simp add: wp_ret op_state_def)
qed

text \<open>Writing from a state that is not reading and whose position is where the write goes.\<close>

lemma rawwrite_at:
  assumes g: "inline_geometry c" and f: "inline_file c (lfs_objs s x)" "\<not> has_flag (lfs_objs s x) LFS_F_READING"
    and fit: "unat (file_pos (lfs_objs s x)) + length data \<le> unat (inline_max c)"
    and app: "has_flag (lfs_objs s x) LFS_O_APPEND \<Longrightarrow> ctz_size (file_ctz (lfs_objs s x)) \<le> file_pos (lfs_objs s x)"
  defines "f \<equiv> lfs_objs s x"
  shows "wp (bnd (if \<not> has_flag f LFS_F_WRITING \<and> ctz_size (file_ctz f) < file_pos f then
        bnd (upd_obj x (\<lambda>f. f\<lparr>file_pos := ctz_size (file_ctz f)\<rparr>)) (\<lambda>_.
        write_zeros c x (file_pos f) (unat (file_pos f - ctz_size (file_ctz f)) + 1))
      else ret ()) (\<lambda>_. lfs_file_flushedwrite c x data))
    (okp (\<lambda>r s'. r = of_nat (length data) \<and> only_file x s s' \<and> op_state c (array_write (inline_bytes f) (unat (file_pos f)) data)
      (unat (file_pos f) + length data) f (lfs_objs s' x))) s"
proof (cases "\<not> has_flag f LFS_F_WRITING \<and> ctz_size (file_ctz f) < file_pos f")
  case False
  then have "file_pos f \<le> file_rawsize f" by (auto simp: file_rawsize_def u32_simps)
  then show ?thesis
    unfolding if_not_P [OF False] wp_bnd wp_ret outcome.case
    by (intro wp_okp_mono [OF flushedwrite_inline [OF g f(1,2)]]) (use fit app in \<open>auto simp: f_def write_state_def op_state_def append_ok_def file_mode_D u32_simps\<close>)
next
  case True
  let ?s = "with_obj x (f\<lparr>file_pos := ctz_size (file_ctz f)\<rparr>) s"
  let ?xs = "inline_bytes f" and ?pos = "unat (file_pos f)"
  have size: "file_rawsize f = ctz_size (file_ctz f)" "file_rawsize (lfs_objs ?s x) = ctz_size (file_ctz f)"
    using True by (simp_all add: file_rawsize_def)
  have f': "inline_file c (lfs_objs ?s x)" "inline_bytes (lfs_objs ?s x) = ?xs"
    using f True inline_max_bounds(2) [OF g] by (auto simp: inline_file_def inline_bytes_def f_def file_rawsize_def u32_simps)
  have lt: "unat (ctz_size (file_ctz f)) < ?pos" using True by (simp add: u32_simps)
  have len: "length ?xs = unat (ctz_size (file_ctz f))"
    using length_inline_bytes [OF g, of f] f size by (simp add: f_def)
  have pos: "?pos \<le> unat (inline_max c)" using fit by (simp add: f_def)
  have fuel: "?pos - unat (file_pos (lfs_objs ?s x)) < unat (file_pos f - ctz_size (file_ctz f)) + 1"
    using lt by (simp add: unat_sub_u32)
  have zeros: "wp (write_zeros c x (file_pos f) (unat (file_pos f - ctz_size (file_ctz f)) + 1)) (okp (\<lambda>_ s'.
      only_file x s s' \<and> inline_file c (lfs_objs s' x) \<and> inline_bytes (lfs_objs s' x) = ?xs @ replicate (?pos - length ?xs) 0 \<and>
      file_pos (lfs_objs s' x) = file_pos f \<and> file_rawsize (lfs_objs s' x) = file_pos f \<and>
      \<not> has_flag (lfs_objs s' x) LFS_F_READING \<and> file_ctz (lfs_objs s' x) = file_ctz f \<and> file_mode (lfs_objs s' x) = file_mode f)) ?s"
    by (rule wp_okp_mono [OF write_zeros_inline [OF g pos fuel f'(1)]])
      (use f lt f' len size in \<open>auto simp: f_def intro: only_file_trans [OF only_file_with]\<close>)
  have zs: "array_write (?xs @ replicate (?pos - unat (ctz_size (file_ctz f))) 0) ?pos data = array_write ?xs ?pos data"
    using array_write_zeros [of ?xs ?pos data] lt len by simp
  have data: "wp (lfs_file_flushedwrite c x data) (okp (\<lambda>r s''. r = of_nat (length data) \<and> only_file x s s'' \<and>
        op_state c (array_write ?xs ?pos data) (?pos + length data) f (lfs_objs s'' x))) s'"
    if "only_file x s s'" "inline_file c (lfs_objs s' x)"
      "inline_bytes (lfs_objs s' x) = ?xs @ replicate (?pos - length ?xs) 0"
      "file_pos (lfs_objs s' x) = file_pos f" "file_rawsize (lfs_objs s' x) = file_pos f"
      "\<not> has_flag (lfs_objs s' x) LFS_F_READING" "file_mode (lfs_objs s' x) = file_mode f" "file_ctz (lfs_objs s' x) = file_ctz f" for s'
    by (rule wp_okp_mono [OF flushedwrite_inline [OF g that(2,6)]])
      (use that fit lt len zs in \<open>auto simp: f_def write_state_def op_state_def append_ok_def u32_simps intro: only_file_trans\<close>)
  show ?thesis
    unfolding if_P [OF True] wp_bnd wp_upd_obj outcome.case f_def [symmetric]
    by (rule wp_okp_mono [OF zeros]) (simp add: data)
qed

text \<open>Writing.\<close>

lemma rawwrite_inline:
  fixes s :: "'d lfs"
  assumes g: "inline_geometry c" and f: "inline_file c (lfs_objs s x)" "append_ok (lfs_objs s x)"
    and mode: "file_flags (lfs_objs s x) AND LFS_O_WRONLY = LFS_O_WRONLY"
    and fit: "write_pos (lfs_objs s x) + length data \<le> unat (inline_max c)" "inline_max c \<le> lfs_file_max s"
  defines "f \<equiv> lfs_objs s x"
  shows "wp (lfs_file_rawwrite c x data) (okp (\<lambda>r s'. r = of_nat (length data) \<and> only_file x s s' \<and>
    op_state c (array_write (inline_bytes f) (write_pos f) data) (write_pos f + length data) f (lfs_objs s' x))) s"
proof -
  let ?xs = "inline_bytes f"
  define tail :: "lfs_object \<Rightarrow> u32 \<Rightarrow> ('d lfs, u32) cmd" where "tail f fmax = (if fmax < file_pos f + of_nat (length data) then throw LFS_ERR_FBIG
     else
       bnd (if \<not> has_flag f LFS_F_WRITING \<and> ctz_size (file_ctz f) < file_pos f then
              bnd (upd_obj x (\<lambda>f. f\<lparr>file_pos := ctz_size (file_ctz f)\<rparr>)) (\<lambda>_.
              write_zeros c x (file_pos f) (unat (file_pos f - ctz_size (file_ctz f)) + 1))
            else ret ()) (\<lambda>_.
       bnd (lfs_file_flushedwrite c x data) (\<lambda>nsize.
       bnd (upd_obj x (clear_flag LFS_F_ERRED)) (\<lambda>_.
       ret nsize))))" for f fmax
  note b = inline_max_bounds [OF g]
  have tail: "wp (tail (lfs_objs s2 x) (lfs_file_max s2)) (okp (\<lambda>r s'. r = of_nat (length data) \<and> only_file x s s' \<and>
      op_state c (array_write ?xs (write_pos f) data) (write_pos f + length data) f (lfs_objs s' x))) s2"
    if s2: "only_file x s s2" "op_state c ?xs (write_pos f) f (lfs_objs s2 x)" "\<not> has_flag (lfs_objs s2 x) LFS_F_READING"
      "has_flag (lfs_objs s2 x) LFS_O_APPEND \<Longrightarrow> ctz_size (file_ctz (lfs_objs s2 x)) \<le> file_pos (lfs_objs s2 x)" for s2
  proof -
    let ?f2 = "lfs_objs s2 x"
    have f2: "inline_file c ?f2" and o2: "inline_bytes ?f2 = ?xs" "unat (file_pos ?f2) = write_pos f" "file_mode ?f2 = file_mode f"
      using s2(2) by (simp_all add: op_state_def)
    have fit2: "unat (file_pos ?f2) + length data \<le> unat (inline_max c)" using fit(1) o2 by (simp add: f_def)
    have "unat (file_pos ?f2 + of_nat (length data)) = unat (file_pos ?f2) + length data"
      using fit2 b by (subst unat_add_u32) (simp_all add: unat_of_nat_u32)
    then have max: "\<not> lfs_file_max s2 < file_pos ?f2 + of_nat (length data)"
      using fit2 fit(2) s2(1) by (simp add: u32_simps only_file_def)
    show ?thesis
      unfolding tail_def if_not_P [OF max] bnd_assoc [symmetric] wp_bnd [of "bnd (if _ then _ else _) _"]
      by (rule wp_okp_mono [OF rawwrite_at [OF g f2 s2(3) fit2 s2(4)]])
        (use o2 s2(1) in \<open>auto simp: wp_bnd [of "upd_obj _ _"] wp_upd_obj wp_ret op_state_def [of _ _ _ ?f2]
          op_state_def [of _ _ _ f] intro: only_file_trans only_file_with\<close>)
  qed
  have append: "wp (bnd (upd_obj x (\<lambda>f. if has_flag f LFS_O_APPEND \<and> file_pos f < ctz_size (file_ctz f)
                          then f\<lparr>file_pos := ctz_size (file_ctz f)\<rparr> else f)) (\<lambda>_.
     bnd (get_obj x) (\<lambda>f. bnd (gets lfs_file_max) (\<lambda>fmax. tail f fmax)))) (okp (\<lambda>r s'. r = of_nat (length data) \<and> only_file x s s' \<and>
      op_state c (array_write ?xs (write_pos f) data) (write_pos f + length data) f (lfs_objs s' x))) s1"
    if s1: "only_file x s s1" "op_state c ?xs (unat (file_pos f)) f (lfs_objs s1 x)" "\<not> has_flag (lfs_objs s1 x) LFS_F_READING"
      "file_rawsize (lfs_objs s1 x) = file_rawsize f" for s1
  proof -
    let ?f1 = "lfs_objs s1 x"
    let ?f2 = "if has_flag ?f1 LFS_O_APPEND \<and> file_pos ?f1 < ctz_size (file_ctz ?f1)
      then ?f1\<lparr>file_pos := ctz_size (file_ctz ?f1)\<rparr> else ?f1"
    have app: "has_flag ?f1 LFS_O_APPEND = has_flag f LFS_O_APPEND"
      using s1(2) by (simp add: op_state_def file_mode_D)
    have size: "file_rawsize ?f2 = file_rawsize ?f1"
      by (auto simp: file_rawsize_def u32_eq u32_simps)
    have pos: "unat (file_pos ?f2) = write_pos f"
      using s1(2) app by (auto simp: write_pos_def op_state_def s1(4) [symmetric] file_rawsize_def [of ?f1] unat_lfs_max u32_simps)
    have "inline_file c ?f2" 
      using s1(2,3) inline_max_bounds [OF g] by (auto simp: op_state_def inline_file_def append_ok_def u32_simps file_rawsize_def)
    moreover have "inline_bytes ?f2 = ?xs" "file_mode ?f2 = file_mode f"
      using s1(2) size unfolding inline_bytes_def op_state_def by auto
    moreover have at_end: "has_flag ?f2 LFS_O_APPEND \<Longrightarrow> ctz_size (file_ctz ?f2) \<le> file_pos ?f2" by auto
    ultimately have "op_state c ?xs (write_pos f) f ?f2" using pos by (simp add: op_state_def append_ok_def)
    then show ?thesis
      using s1 at_end by (simp only: wp_bnd wp_upd_obj outcome.case wp_get_obj wp_gets)
        (rule tail, auto intro: only_file_trans)
  qed
  show ?thesis
    unfolding lfs_file_rawwrite_def tail_def [symmetric]
    using mode
    by (simp only: wp_bnd [of "get_obj x"] wp_bnd [of "assertion _"] wp_get_obj wp_assertion outcome.case simp_thms if_True
          wp_bnd [of "if has_flag _ LFS_F_READING then lfs_file_flush c x else ret ()"])
      (rule wp_okp_mono [OF flush_reading_inline [OF f]], simp only: outcome.case f_def [symmetric], rule append, simp_all)
qed


text \<open>Reading: the buffer holds everything that is asked for.\<close>

lemma getread_inline:
  assumes p: "cache_block p = LFS_BLOCK_INLINE" "cache_off p = 0" "cache_size p = cfg_cache_size c"
      "length (cache_buffer p) = unat (cfg_cache_size c)"
    and fit: "0 < unat sz" "unat off + unat sz \<le> unat (cfg_cache_size c)" "unat (cfg_cache_size c) \<le> unat (cfg_block_size c)"
  shows "lfs_dir_getread c dir None hint gmask gtag off sz (p, t) =
    (Ok (take (unat sz) (drop (unat off) (cache_buffer p))), (p, t))"
proof -
  obtain k where k: "2 * unat sz = Suc k" using fit(1) by (cases "2 * unat sz") auto
  have sum: "unat (off + sz) = unat off + unat sz"
    using fit le_less_trans [OF _ unat_less_u32 [of "cfg_cache_size c"]] by (intro unat_add_u32) auto
  then have le: "\<not> cfg_block_size c < off + sz" using fit by (simp add: u32_simps)
  have less: "off < cfg_cache_size c" using fit by (simp add: u32_simps)
  have min: "lfs_min sz (cfg_cache_size c - off) = sz"
    using fit less by (simp add: u32_eq unat_lfs_min unat_sub_u32 u32_simps)
  have nz: "sz \<noteq> 0" using fit(1) by auto
  show ?thesis
    using p less min le nz fit
    by (simp add: lfs_dir_getread_def k cache_lookup_def cache_copy_def cmd_simps)
qed

lemma flushedread_inline:
  fixes s :: "'d lfs"
  assumes g: "inline_geometry c" and f: "inline_file c (lfs_objs s x)" "\<not> has_flag (lfs_objs s x) LFS_F_WRITING"
  defines "f \<equiv> lfs_objs s x"
  shows "wp (lfs_file_flushedread c x sz) (okp (\<lambda>bs s'. bs = take (unat sz) (drop (unat (file_pos f)) (inline_bytes f)) \<and>
    only_file x s s' \<and> op_state c (inline_bytes f) (unat (file_pos f) + length bs) f (lfs_objs s' x))) s"
proof -
  let ?size = "ctz_size (file_ctz f)" and ?buf = "cache_buffer (file_cache f)"
  note b = inline_max_bounds [OF g]
  note fi = f(1) [folded f_def, unfolded inline_file_def]
  have raw: "file_rawsize f = ?size" using f(2) by (simp add: f_def file_rawsize_def)
  have bytes: "inline_bytes f = take (unat ?size) ?buf" by (simp add: inline_bytes_def raw)
  have ok: "append_ok f" using f(2) by (simp add: append_ok_def f_def)
  have len: "length (inline_bytes f) = unat ?size" using length_inline_bytes [OF g, of f] f(1) raw by (simp add: f_def)
  show ?thesis
  proof (cases "?size \<le> file_pos f")
    case True
    then have "drop (unat (file_pos f)) (inline_bytes f) = []" using len by (simp add: u32_simps)
    then show ?thesis
      unfolding lfs_file_flushedread_def using True f(1) ok by (simp add: wp_simps f_def op_state_def)
  next
    case False
    define k where "k = lfs_min sz (?size - file_pos f)"
    have k: "unat k = min (unat sz) (unat ?size - unat (file_pos f))"
      using False by (simp add: k_def unat_lfs_min unat_sub_u32 u32_simps)
    have bs: "take (unat k) (drop (unat (file_pos f)) ?buf) = take (unat sz) (drop (unat (file_pos f)) (inline_bytes f))"
      unfolding k bytes by (simp add: drop_take)
    have "unat (file_pos f) + unat k \<le> unat ?size" using False k by (simp add: u32_simps)
    moreover have "unat ?size \<le> unat (inline_max c)" using fi raw by (simp add: u32_simps)
    ultimately have fit: "unat (file_pos f) + unat k \<le> unat (inline_max c)" by (rule le_trans)
    have pos: "unat (file_pos f + k) = unat (file_pos f) + unat k" using fit b by (intro unat_add_u32) simp
    have loop: "wp (flushedread_loop c x (unat k + 1) k) (okp (\<lambda>bs s'.
        bs = take (unat sz) (drop (unat (file_pos f)) (inline_bytes f)) \<and>
        only_file x s s' \<and> op_state c (inline_bytes f) (unat (file_pos f) + length bs) f (lfs_objs s' x))) s"
    proof (cases "k = 0")
      case True
      then show ?thesis using f(1) ok bs by (simp add: wp_ret op_state_def f_def)
    next
      case False
      define f1 where "f1 = (if has_flag f LFS_F_READING then f else
        set_flag LFS_F_READING (f\<lparr>file_block := LFS_BLOCK_INLINE, file_off := file_pos f\<rparr>))"
      define f2 where "f2 = f1\<lparr>file_pos := file_pos f + k, file_off := file_pos f + k\<rparr>"
      have f1: "file_off f1 = file_pos f" "file_cache f1 = file_cache f" "file_pos f1 = file_pos f"
          "has_flag f1 LFS_F_INLINE" "has_flag f1 LFS_F_READING" "\<not> has_flag f1 LFS_F_WRITING"
          "file_block f1 = LFS_BLOCK_INLINE" "file_ctz f1 = file_ctz f" "file_mode f1 = file_mode f"
        using fi f(2) by (auto simp: f1_def f_def has_set_flag flag_values)
      have seek: "wp (flushedread_seek c x) (okp (\<lambda>_ s'. s' = with_obj x f1 s)) s"
        using fi by (auto simp: flushedread_seek_def wp_simps f_def f1_def)
      have k0: "0 < unat k" using False by (simp add: unat_gt_0)
      then obtain m where m: "unat k = Suc m" by (cases "unat k") auto
      have d: "lfs_min k (cfg_block_size c - file_pos f) = k"
        using fit b by (simp add: u32_eq unat_lfs_min unat_sub_u32)
      have read: "lfs_dir_getread c dir None (cfg_block_size c) gm gt (file_pos f) k (file_cache f, t) =
          (Ok (take (unat k) (drop (unat (file_pos f)) ?buf)), (file_cache f, t))" for dir gm gt and t :: "'d lfs"
        by (rule getread_inline) (use fi k0 fit b in auto)
      have "op_state c (inline_bytes f) (unat (file_pos f + k)) f f2"
        using fi f1 fit b raw pos
        by (simp add: op_state_def inline_file_def inline_bytes_def file_rawsize_def append_ok_def f2_def)
      moreover have "length (take (unat k) (drop (unat (file_pos f)) ?buf)) = unat k" using fit fi b by simp
      ultimately have post: "op_state c (inline_bytes f)
          (unat (file_pos f) + length (take (unat k) (drop (unat (file_pos f)) ?buf))) f f2" by (simp only: pos)
      have fuel: "unat k + 1 = Suc (Suc m)" using m by simp
      have self: "f1\<lparr>file_cache := file_cache f\<rparr> = f1" unfolding f1(2) [symmetric] by simp
      show ?thesis
        unfolding fuel flushedread_loop.simps if_not_P [OF False] wp_bnd [of "flushedread_seek _ _"] bs [symmetric]
        by (rule wp_okp_mono [OF seek])
          (use f1 post in \<open>simp add: wp_simps d inline_read_def on_fcache_lfs_def put_fcache_def with_obj_def Let_def
             wp_def [of "lfs_dir_getread _ _ _ _ _ _ _ _"] read f2_def only_file_def self\<close>)
    qed
    show ?thesis
      unfolding lfs_file_flushedread_def
      using False loop by (simp add: wp_bnd [of "get_obj x"] wp_get_obj f_def [symmetric] k_def [symmetric] Let_def del: flushedread_loop.simps)
  qed
qed


lemma flush_writing_inline:
  assumes f: "inline_file c (lfs_objs s x)"
  shows "wp (if has_flag (lfs_objs s x) LFS_F_WRITING then lfs_file_flush c x else ret ()) (okp (\<lambda>_ s'. only_file x s s' \<and>
      op_state c (inline_bytes (lfs_objs s x)) (unat (file_pos (lfs_objs s x))) (lfs_objs s x) (lfs_objs s' x) \<and>
      \<not> has_flag (lfs_objs s' x) LFS_F_WRITING)) s"
proof (cases "has_flag (lfs_objs s x) LFS_F_WRITING")
  case True
  then show ?thesis
    by (simp only: if_True) (rule wp_okp_mono [OF flush_inline [OF f]], simp add: op_state_def append_ok_def)
next
  case False
  then show ?thesis using f by (simp add: wp_ret op_state_def append_ok_def)
qed

lemma rawread_inline:
  fixes s :: "'d lfs"
  assumes g: "inline_geometry c" and f: "inline_file c (lfs_objs s x)"
    and mode: "file_flags (lfs_objs s x) AND LFS_O_RDONLY = LFS_O_RDONLY"
  defines "f \<equiv> lfs_objs s x"
  shows "wp (lfs_file_rawread c x sz) (okp (\<lambda>bs s'. bs = take (unat sz) (drop (unat (file_pos f)) (inline_bytes f)) \<and>
    only_file x s s' \<and> op_state c (inline_bytes f) (unat (file_pos f) + length bs) f (lfs_objs s' x))) s"
proof -
  have read: "wp (lfs_file_flushedread c x sz) (okp (\<lambda>bs s'. bs = take (unat sz) (drop (unat (file_pos f)) (inline_bytes f)) \<and>
      only_file x s s' \<and> op_state c (inline_bytes f) (unat (file_pos f) + length bs) f (lfs_objs s' x))) s1"
    if s1: "only_file x s s1" "op_state c (inline_bytes f) (unat (file_pos f)) f (lfs_objs s1 x)"
      "\<not> has_flag (lfs_objs s1 x) LFS_F_WRITING" for s1
    by (rule wp_okp_mono [OF flushedread_inline [OF g _ s1(3)]])
      (use s1(1,2) in \<open>auto simp: op_state_def intro: only_file_trans\<close>)
  show ?thesis
    unfolding lfs_file_rawread_def
    using mode
    by (simp only: wp_bnd wp_get_obj wp_assertion outcome.case simp_thms if_True)
      (rule wp_okp_mono [OF flush_writing_inline [OF f]], simp only: outcome.case f_def [symmetric], rule read, simp_all)
qed

text \<open>Seeking to a position from the start: the data stays.\<close>

lemma lfs_ctz_index_first:
  assumes "unat pos + 8 < unat (cfg_block_size c)"
  shows "lfs_ctz_index c pos = (0, pos)"
  using assms by (simp add: lfs_ctz_index_def u32_eq unat_div unat_sub_u32)

lemma rawseek_inline:
  fixes s :: "'d lfs"
  assumes f: "inline_file c (lfs_objs s x)" "append_ok (lfs_objs s x)"
    and pos: "unat pos + 8 < unat (cfg_block_size c)" "pos \<le> lfs_file_max s"
  defines "f \<equiv> lfs_objs s x"
  shows "wp (lfs_file_rawseek c x pos LFS_SEEK_SET) (okp (\<lambda>r s'. r = pos \<and>
    only_file x s s' \<and> op_state c (inline_bytes f) (unat pos) f (lfs_objs s' x))) s"
proof -
  have max: "\<not> lfs_file_max s < pos" using pos(2) by simp
  have index: "lfs_ctz_index c pos = (0, pos)" "lfs_ctz_index c (file_pos f) = (0, file_pos f)"
    using pos(1) f(1) by (simp_all add: lfs_ctz_index_first inline_file_def f_def)
  have slow: "wp (bnd (lfs_file_flush c x) (\<lambda>_. bnd (upd_obj x (\<lambda>f. f\<lparr>file_pos := pos\<rparr>)) (\<lambda>_. ret pos)))
      (okp (\<lambda>r s'. r = pos \<and> only_file x s s' \<and> op_state c (inline_bytes f) (unat pos) f (lfs_objs s' x))) s"
    unfolding wp_bnd [of "lfs_file_flush c x"]
    by (rule wp_okp_mono [OF flush_inline [OF f(1)]])
      (use pos in \<open>auto simp: wp_simps op_state_def inline_file_def inline_bytes_def file_rawsize_def append_ok_def f_def
        intro: only_file_trans\<close>)
  have quick: "op_state c (inline_bytes f) (unat pos) f (f\<lparr>file_pos := pos, file_off := pos\<rparr>)"
    if "\<not> has_flag f LFS_F_WRITING"
    using f(1) pos that by (simp add: f_def op_state_def inline_file_def inline_bytes_def file_rawsize_def append_ok_def)
  show ?thesis
  proof (cases "file_pos f = pos")
    case True
    then show ?thesis
      using f max by (auto simp: lfs_file_rawseek_def seek_target_def wp_simps f_def op_state_def)
  next
    case False
    show ?thesis
      unfolding lfs_file_rawseek_def seek_target_def
      using max False quick slow
      by (simp add: wp_bnd [of "get_obj x"] wp_get_obj wp_bnd [of "ret _"] wp_ret wp_bnd_gets f_def [symmetric] index
          wp_bnd [of "upd_obj _ _"] wp_upd_obj)
  qed
qed


section \<open>Sequences of operations\<close>

text \<open>The operations of an open file, and what they do to an array with a position.\<close>

datatype array_op = Array_Read u32 | Array_Write "u8 list" | Array_Seek u32 | Array_Size

fun file_op :: "'d lfs_config \<Rightarrow> obj_ref \<Rightarrow> array_op \<Rightarrow> ('d lfs, u8 list + u32) cmd" where
  "file_op c x (Array_Read n) = bnd (lfs_file_rawread c x n) (\<lambda>bs. ret (Inl bs))"
| "file_op c x (Array_Write data) = bnd (lfs_file_rawwrite c x data) (\<lambda>n. ret (Inr n))"
| "file_op c x (Array_Seek pos) = bnd (lfs_file_rawseek c x pos LFS_SEEK_SET) (\<lambda>n. ret (Inr n))"
| "file_op c x Array_Size = bnd (lfs_file_rawsize x) (\<lambda>n. ret (Inr n))"

fun file_ops :: "'d lfs_config \<Rightarrow> obj_ref \<Rightarrow> array_op list \<Rightarrow> ('d lfs, (u8 list + u32) list) cmd" where
  "file_ops c x [] = ret []"
| "file_ops c x (a # as) = bnd (file_op c x a) (\<lambda>r. bnd (file_ops c x as) (\<lambda>rs. ret (r # rs)))"

fun array_step :: "bool \<Rightarrow> array_op \<Rightarrow> u8 list \<times> nat \<Rightarrow> (u8 list + u32) \<times> (u8 list \<times> nat)" where
  "array_step app (Array_Read n) (xs, p) = (let bs = take (unat n) (drop p xs) in (Inl bs, (xs, p + length bs)))"
| "array_step app (Array_Write data) (xs, p) =
     (let q = if app then max p (length xs) else p
      in (Inr (of_nat (length data)), (array_write xs q data, q + length data)))"
| "array_step app (Array_Seek pos) (xs, p) = (Inr pos, (xs, unat pos))"
| "array_step app Array_Size (xs, p) = (Inr (of_nat (length xs)), (xs, p))"

fun array_steps :: "bool \<Rightarrow> array_op list \<Rightarrow> u8 list \<times> nat \<Rightarrow> (u8 list + u32) list \<times> (u8 list \<times> nat)" where
  "array_steps app [] a = ([], a)"
| "array_steps app (op # ops) a = (let (r, a') = array_step app op a; (rs, a'') = array_steps app ops a' in (r # rs, a''))"

text \<open>Operations that stay inside the limit of inline files.\<close>

fun array_fits :: "'z lfs_geometry_scheme \<Rightarrow> u32 \<Rightarrow> bool \<Rightarrow> array_op \<Rightarrow> u8 list \<times> nat \<Rightarrow> bool" where
  "array_fits c fmax app (Array_Write data) (xs, p) \<longleftrightarrow>
     (if app then max p (length xs) else p) + length data \<le> unat (inline_max c)"
| "array_fits c fmax app (Array_Seek pos) (xs, p) \<longleftrightarrow> unat pos + 8 < unat (cfg_block_size c) \<and> pos \<le> fmax"
| "array_fits c fmax app op a \<longleftrightarrow> True"

fun array_fits_all :: "'z lfs_geometry_scheme \<Rightarrow> u32 \<Rightarrow> bool \<Rightarrow> array_op list \<Rightarrow> u8 list \<times> nat \<Rightarrow> bool" where
  "array_fits_all c fmax app [] a \<longleftrightarrow> True"
| "array_fits_all c fmax app (op # ops) a \<longleftrightarrow>
     array_fits c fmax app op a \<and> array_fits_all c fmax app ops (snd (array_step app op a))"

definition file_array :: "lfs_object \<Rightarrow> u8 list \<times> nat" where
  "file_array f = (inline_bytes f, unat (file_pos f))"

definition readable_writable :: "lfs_object \<Rightarrow> bool" where
  "readable_writable f \<longleftrightarrow> file_flags f AND LFS_O_RDONLY = LFS_O_RDONLY \<and> file_flags f AND LFS_O_WRONLY = LFS_O_WRONLY"

lemma file_op_array:
  fixes s :: "'d lfs"
  assumes g: "inline_geometry c" and f: "inline_file c (lfs_objs s x)" "append_ok (lfs_objs s x)"
    and mode: "readable_writable (lfs_objs s x)" and max: "inline_max c \<le> lfs_file_max s"
    and fit: "array_fits c (lfs_file_max s) (has_flag (lfs_objs s x) LFS_O_APPEND) op (file_array (lfs_objs s x))"
  shows "wp (file_op c x op) (okp (\<lambda>r s'. only_file x s s' \<and> inline_file c (lfs_objs s' x) \<and> append_ok (lfs_objs s' x) \<and>
    file_mode (lfs_objs s' x) = file_mode (lfs_objs s x) \<and>
    array_step (has_flag (lfs_objs s x) LFS_O_APPEND) op (file_array (lfs_objs s x)) = (r, file_array (lfs_objs s' x)))) s"
proof -
  let ?f = "lfs_objs s x"
  have m: "file_flags ?f AND LFS_O_RDONLY = LFS_O_RDONLY" "file_flags ?f AND LFS_O_WRONLY = LFS_O_WRONLY"
    using mode by (simp_all add: readable_writable_def)
  have len: "length (inline_bytes ?f) = unat (file_rawsize ?f)" using length_inline_bytes [OF g f(1)] .
  show ?thesis
  proof (cases op)
    case (Array_Read n)
    show ?thesis unfolding Array_Read file_op.simps wp_bnd
      by (rule wp_okp_mono [OF rawread_inline [OF g f(1) m(1)]]) (auto simp: wp_ret op_state_def file_array_def Let_def)
  next
    case (Array_Write data)
    have pos: "write_pos ?f = (if has_flag ?f LFS_O_APPEND then max (unat (file_pos ?f)) (length (inline_bytes ?f)) else unat (file_pos ?f))"
      by (simp add: write_pos_def len)
    have "write_pos ?f + length data \<le> unat (inline_max c)"
      using fit unfolding Array_Write pos by (simp add: file_array_def)
    from rawwrite_inline [OF g f m(2) this max] show ?thesis
      unfolding Array_Write file_op.simps wp_bnd
      by (rule wp_okp_mono) (auto simp: wp_ret op_state_def file_array_def Let_def pos)
  next
    case (Array_Seek pos)
    have "unat pos + 8 < unat (cfg_block_size c)" "pos \<le> lfs_file_max s"
      using fit unfolding Array_Seek by (simp_all add: file_array_def)
    from rawseek_inline [OF f this] show ?thesis
      unfolding Array_Seek file_op.simps wp_bnd
      by (rule wp_okp_mono) (auto simp: wp_ret op_state_def file_array_def)
  next
    case Array_Size
    then show ?thesis using f len by (simp add: lfs_file_rawsize_def wp_simps file_array_def)
  qed
qed

lemma file_ops_array:
  fixes s :: "'d lfs"
  assumes g: "inline_geometry c"
  shows "inline_file c (lfs_objs s x) \<Longrightarrow> append_ok (lfs_objs s x) \<Longrightarrow> readable_writable (lfs_objs s x) \<Longrightarrow>
    inline_max c \<le> lfs_file_max s \<Longrightarrow>
    array_fits_all c (lfs_file_max s) (has_flag (lfs_objs s x) LFS_O_APPEND) ops (file_array (lfs_objs s x)) \<Longrightarrow>
    wp (file_ops c x ops) (okp (\<lambda>rs s'. only_file x s s' \<and> inline_file c (lfs_objs s' x) \<and>
      array_steps (has_flag (lfs_objs s x) LFS_O_APPEND) ops (file_array (lfs_objs s x)) = (rs, file_array (lfs_objs s' x)))) s"
proof (induction ops arbitrary: s)
  case Nil
  then show ?case by (simp add: wp_ret)
next
  case (Cons op ops)
  let ?app = "has_flag (lfs_objs s x) LFS_O_APPEND" and ?a = "file_array (lfs_objs s x)"
  have rest: "wp (bnd (file_ops c x ops) (\<lambda>rs. ret (r # rs))) (okp (\<lambda>rs s''. only_file x s s'' \<and> inline_file c (lfs_objs s'' x) \<and>
      array_steps ?app (op # ops) ?a = (rs, file_array (lfs_objs s'' x)))) s'"
    if s': "only_file x s s'" "inline_file c (lfs_objs s' x)" "append_ok (lfs_objs s' x)"
      "file_mode (lfs_objs s' x) = file_mode (lfs_objs s x)"
      "array_step ?app op ?a = (r, file_array (lfs_objs s' x))" for r s'
  proof -
    have app: "has_flag (lfs_objs s' x) LFS_O_APPEND = ?app" and rw: "readable_writable (lfs_objs s' x)"
      using s'(4) Cons.prems(3) by (simp_all add: readable_writable_def file_mode_D)
    have fm: "lfs_file_max s' = lfs_file_max s" using s'(1) by (simp add: only_file_def)
    have "wp (file_ops c x ops) (okp (\<lambda>rs s''. only_file x s' s'' \<and> inline_file c (lfs_objs s'' x) \<and>
      array_steps ?app ops (file_array (lfs_objs s' x)) = (rs, file_array (lfs_objs s'' x)))) s'"
      using Cons.IH [of s'] s' rw Cons.prems(4,5) by (simp add: app fm)
    then show ?thesis
      unfolding wp_bnd by (rule wp_okp_mono) (use s'(1,5) in \<open>auto simp: wp_ret intro: only_file_trans\<close>)
  qed
  show ?case
    unfolding file_ops.simps wp_bnd [of "file_op _ _ _"]
    by (rule wp_okp_mono [OF file_op_array [OF g Cons.prems(1-4)]]) (use Cons.prems(5) rest in auto)
qed

end
