(* ===== verification/LFS_Truncate.thy ===== *)
theory LFS_Truncate
  imports LFS_Inline
begin

text \<open>
  Shortening a file that has a list of blocks.  The new head is the block of the byte at the new size; that
  is the last block of the file unless the size is where a block begins.
\<close>

lemma ctz_stream_prefix:
  assumes "n \<le> lst" and "sz \<le> length (ctz_stream V blk (Suc n))"
  shows "take sz (ctz_stream V blk (Suc lst)) = take sz (ctz_stream V blk (Suc n))"
proof -
  have "[0..<Suc lst] = [0..<Suc n] @ [Suc n..<Suc lst]"
    using assms(1) upt_add_eq_append [of 0 "Suc n" "lst - n"] by simp
  then have "ctz_stream V blk (Suc lst) =
      ctz_stream V blk (Suc n) @ concat (map (\<lambda>i. drop (4 * ctz_ptrs i) (V (blk i))) [Suc n..<Suc lst])"
    by (simp only: ctz_stream_def map_append concat_append)
  then show ?thesis using assms(2) by simp
qed

lemma ctz_list_shorter: "ctz_list c V blk lst \<Longrightarrow> n \<le> lst \<Longrightarrow> ctz_list c V blk n"
  by (auto simp: ctz_list_def)

lemma ctz_fits_less: "ctz_fits bs a \<Longrightarrow> b \<le> a \<Longrightarrow> ctz_fits bs b"
  using bitlen_mono [of "b div (bs - 8)" "a div (bs - 8)"] by (auto simp: ctz_fits_def div_le_mono)

text \<open>The block of a position is the only one whose range holds it.\<close>

lemma ctz_start_unique:
  assumes "ctz_start bs m \<le> p" "p < ctz_start bs (m + 1)" "ctz_start bs n \<le> p" "p < ctz_start bs (n + 1)"
  shows "m = n"
proof -
  have mono: "i \<le> j \<Longrightarrow> ctz_start bs i \<le> ctz_start bs j" for i j
    using lift_Suc_mono_le [of "ctz_start bs" i j] by simp
  have "m < n \<Longrightarrow> False" using mono [of "m + 1" n] assms by simp
  moreover have "n < m \<Longrightarrow> False" using mono [of "n + 1" m] assms by simp
  ultimately show ?thesis using nat_neq_iff by blast
qed

text \<open>Where seeking leads in a file that has no unwritten data.\<close>

definition unread :: "lfs_object \<Rightarrow> lfs_object" where
  "unread f = (if has_flag f LFS_F_READING
     then clear_flag LFS_F_READING (f\<lparr>file_cache := lfs_cache_drop (file_cache f)\<rparr>) else f)"

definition seek_result :: "'z lfs_geometry_scheme \<Rightarrow> u32 \<Rightarrow> lfs_object \<Rightarrow> lfs_object \<Rightarrow> bool" where
  "seek_result c pos f f' \<longleftrightarrow>
     f' = f \<and> file_pos f = pos \<or>
     f' = f\<lparr>file_pos := pos, file_off := snd (lfs_ctz_index c pos)\<rparr> \<and>
       fst (lfs_ctz_index c pos) = fst (lfs_ctz_index c (file_pos f)) \<or>
     f' = (unread f)\<lparr>file_pos := pos\<rparr>"

lemma unread_fields [simp]:
  "file_ctz (unread f) = file_ctz f" "file_pos (unread f) = file_pos f"
  "\<not> has_flag (unread f) LFS_F_READING" "has_flag (unread f) LFS_F_INLINE = has_flag f LFS_F_INLINE"
  "has_flag (unread f) LFS_F_WRITING = has_flag f LFS_F_WRITING" "has_flag (unread f) LFS_F_DIRTY = has_flag f LFS_F_DIRTY"
  by (simp_all add: unread_def has_clear_flag flag_values)

lemma seek_result_fields:
  assumes "seek_result c pos f f'"
  shows "file_pos f' = pos" "file_ctz f' = file_ctz f" "has_flag f' LFS_F_DIRTY = has_flag f LFS_F_DIRTY"
    "has_flag f' LFS_F_INLINE = has_flag f LFS_F_INLINE"
  using assms by (auto simp: seek_result_def)

lemma rawseek_flushed:
  assumes f: "\<not> has_flag f LFS_F_WRITING" "\<not> has_flag f LFS_F_INLINE" and pos: "pos \<le> lfs_file_max s"
  shows "wp (lfs_file_rawseek c x pos LFS_SEEK_SET) (okp (\<lambda>_. on_obj x s (seek_result c pos f))) (with_obj x f s)"
proof -
  have max: "\<not> lfs_file_max (with_obj x f s) < pos" using pos by (simp add: with_obj_def)
  have flush: "wp (lfs_file_flush c x) (okp (\<lambda>_ s'. s' = with_obj x (unread f) s)) (with_obj x f s)"
    using f by (auto simp: lfs_file_flush_def wp_simps upd_fcache_def unread_def has_clear_flag flag_values)
  then have slow: "wp (bnd (lfs_file_flush c x) (\<lambda>_. bnd (upd_obj x (\<lambda>f. f\<lparr>file_pos := pos\<rparr>)) (\<lambda>_. ret pos)))
      (okp (\<lambda>_. on_obj x s (seek_result c pos f))) (with_obj x f s)"
    unfolding wp_bnd [of "lfs_file_flush _ _"] by (rule wp_okp_mono) (auto simp: wp_simps seek_result_def)
  have quick: "seek_result c pos f (f\<lparr>file_pos := pos, file_off := snd (lfs_ctz_index c pos)\<rparr>)"
    if "fst (lfs_ctz_index c (file_pos f)) = fst (lfs_ctz_index c pos)"
    using that by (simp add: seek_result_def)
  show ?thesis
    unfolding lfs_file_rawseek_def seek_target_def
    using max f quick slow
    by (auto simp: wp_bnd [of "get_obj x"] wp_get_obj wp_bnd [of "ret _"] wp_ret wp_bnd_gets seek_result_def [of _ _ _ f]
        wp_bnd [of "upd_obj _ _"] wp_upd_obj case_prod_beta' Let_def)
qed

lemma seek_readable:
  assumes g: "wf_geometry c" and r: "readable_file c V blk lst f" and f': "seek_result c pos f f'"
    and pos: "ctz_fits (unat (cfg_block_size c)) (unat pos)"
    and old: "has_flag f LFS_F_READING \<Longrightarrow> ctz_fits (unat (cfg_block_size c)) (unat (file_pos f))"
      "has_flag f LFS_F_READING \<Longrightarrow> file_block f = blk (unat (fst (lfs_ctz_index c (file_pos f))))"
      "has_flag f LFS_F_READING \<Longrightarrow> unat (fst (lfs_ctz_index c (file_pos f))) \<le> lst"
  shows "readable_file c V blk lst f'"
proof -
  let ?B = "unat (cfg_block_size c)"
  obtain i off where i: "lfs_ctz_index c pos = (i, off)" by (cases "lfs_ctz_index c pos")
  consider "f' = f" | "f' = f\<lparr>file_pos := pos, file_off := off\<rparr>" "i = fst (lfs_ctz_index c (file_pos f))"
    | "f' = (unread f)\<lparr>file_pos := pos\<rparr>"
    using f' i by (auto simp: seek_result_def)
  then show ?thesis
  proof cases
    case 2
    have "placed ?B blk lst pos (file_block f) off" if "has_flag f LFS_F_READING"
      unfolding placed_def
      using lfs_ctz_index_ok(1,3,4) [OF pos i] old(2,3) [OF that] 2(2) by (intro exI [of _ "unat i"]) auto
    then show ?thesis using r 2 by (simp add: readable_file_def)
  next
    case 3
    have "length (cache_buffer (file_cache f)) = unat (cfg_cache_size c)"
      using r by (simp add: readable_file_def cache_coherent_def cache_inside_def)
    then have "cache_coherent c V (lfs_cache_drop (file_cache f))" using cache_coherent_drop [OF g] by blast
    then show ?thesis using r 3 by (auto simp: readable_file_def unread_def has_clear_flag flag_values)
  qed (use r in simp)
qed

text \<open>The file after its list was cut: the block of the new size becomes the head.\<close>

definition cut_file :: "u32 \<Rightarrow> u32 \<Rightarrow> u32 \<Rightarrow> lfs_cache \<Rightarrow> lfs_object \<Rightarrow> lfs_object" where
  "cut_file b off sz p f = set_flag (LFS_F_DIRTY OR LFS_F_READING)
     (f\<lparr>file_cache := p, file_block := b, file_off := off, file_pos := sz, file_ctz := \<lparr>ctz_head = b, ctz_size = sz\<rparr>\<rparr>)"

lemma cut_file_fields [simp]:
  "file_ctz (cut_file b off sz p f) = \<lparr>ctz_head = b, ctz_size = sz\<rparr>" "file_pos (cut_file b off sz p f) = sz"
  "file_block (cut_file b off sz p f) = b" "file_off (cut_file b off sz p f) = off"
  "file_cache (cut_file b off sz p f) = p"
  "has_flag (cut_file b off sz p f) LFS_F_INLINE = has_flag f LFS_F_INLINE"
  "has_flag (cut_file b off sz p f) LFS_F_WRITING = has_flag f LFS_F_WRITING"
  "has_flag (cut_file b off sz p f) LFS_F_READING" "has_flag (cut_file b off sz p f) LFS_F_DIRTY"
proof -
  have same: "has_flag (f\<lparr>file_cache := p, file_block := b, file_off := off, file_pos := sz,
      file_ctz := \<lparr>ctz_head = b, ctz_size = sz\<rparr>\<rparr>) k = has_flag f k" for k
    by (simp add: has_flag_def)
  show "has_flag (cut_file b off sz p f) LFS_F_INLINE = has_flag f LFS_F_INLINE"
    "has_flag (cut_file b off sz p f) LFS_F_WRITING = has_flag f LFS_F_WRITING"
    "has_flag (cut_file b off sz p f) LFS_F_READING" "has_flag (cut_file b off sz p f) LFS_F_DIRTY"
    unfolding cut_file_def by (simp_all add: has_set_flag same) (simp_all add: flag_values)
qed (simp_all add: cut_file_def)

context block_device begin

lemma rawtruncate_cut:
  assumes v: "valid (lfs_dev s)" and r: "readable_file c (contents (lfs_dev s)) blk lst (lfs_objs s x)"
    and w: "\<not> has_flag (lfs_objs s x) LFS_F_WRITING"
    and mode: "file_flags (lfs_objs s x) AND LFS_O_WRONLY = LFS_O_WRONLY"
    and sz: "sz < ctz_size (file_ctz (lfs_objs s x))" "sz \<le> LFS_FILE_MAX"
    and pos: "file_pos (lfs_objs s x) \<le> lfs_file_max s"
  defines "f \<equiv> lfs_objs s x" and "B \<equiv> unat (cfg_block_size c)"
  shows "wp (lfs_file_rawtruncate c x sz) (okp (\<lambda>_. on_obj x s (\<lambda>f'. \<exists>n off p. n \<le> lst \<and>
      ctz_start B n \<le> unat sz \<and> unat sz < ctz_start B (n + 1) \<and>
      unat off = unat sz - ctz_start B n + 4 * ctz_ptrs n \<and> unat off < B \<and>
      cache_coherent c (contents (lfs_dev s)) p \<and>
      seek_result c (file_pos f) (cut_file (blk n) off sz p (unread f)) f'))) s"
proof -
  note rf = r [folded f_def, unfolded readable_file_def]
  have self: "with_obj x f s = s" by (simp add: f_def)
  have ni: "\<not> has_flag f LFS_F_INLINE" using rf by simp
  have old: "file_rawsize f = ctz_size (file_ctz f)" using w by (simp add: file_rawsize_def f_def)
  have flush: "wp (lfs_file_flush c x) (okp (\<lambda>_ s'. s' = with_obj x (unread f) s)) s"
    using w ni by (auto simp: lfs_file_flush_def wp_simps upd_fcache_def unread_def f_def has_clear_flag flag_values)
  have lc: "length (cache_buffer (file_cache f)) = unat (cfg_cache_size c)"
    using rf by (simp add: cache_coherent_def cache_inside_def)
  have coh: "cache_coherent c (contents (lfs_dev s)) (file_cache (unread f))"
    using rf cache_coherent_drop [OF geometry [OF v] lc] by (auto simp: unread_def)
  have find: "wp (lfs_ctz_find c None (ctz_head (file_ctz f)) (ctz_size (file_ctz f)) sz)
      (okp (\<lambda>(b, off) (r', d'). d' = lfs_dev s \<and> cache_coherent c (contents (lfs_dev s)) r' \<and>
         (\<exists>n \<le> lst. b = blk n \<and> ctz_start B n \<le> unat sz \<and> unat sz < ctz_start B (n + 1) \<and>
            unat off = unat sz - ctz_start B n + 4 * ctz_ptrs n \<and> unat off < B)))
      (file_cache (unread f), lfs_dev s)"
    unfolding B_def by (rule ctz_find_ok [OF v _ coh]) (use rf sz in \<open>auto simp: f_def u32_simps\<close>)
  define cut where "cut = (\<lambda>s'. \<exists>n off p. n \<le> lst \<and> ctz_start B n \<le> unat sz \<and> unat sz < ctz_start B (n + 1) \<and>
      unat off = unat sz - ctz_start B n + 4 * ctz_ptrs n \<and> unat off < B \<and>
      cache_coherent c (contents (lfs_dev s)) p \<and> s' = with_obj x (cut_file (blk n) off sz p (unread f)) s)"
  have "wp (on_fcache x (lfs_ctz_find c None (ctz_head (file_ctz f)) (ctz_size (file_ctz f)) sz))
      (okp (\<lambda>(block, off) s'. wp (upd_obj x (\<lambda>g. set_flag (LFS_F_DIRTY OR LFS_F_READING)
        (g\<lparr>file_block := block, file_off := off, file_pos := sz, file_ctz := \<lparr>ctz_head = block, ctz_size = sz\<rparr>\<rparr>)))
        (okp (\<lambda>_. cut)) s')) (with_obj x (unread f) s)"
    unfolding wp_on_fcache with_obj_simps
    by (rule wp_okp_mono [OF find]) (fastforce simp: wp_upd_obj cut_def cut_file_def)
  then have head: "wp (bnd (lfs_file_flush c x) (\<lambda>_. bnd (get_obj x) (\<lambda>g.
        bnd (on_fcache x (lfs_ctz_find c None (ctz_head (file_ctz g)) (ctz_size (file_ctz g)) sz))
          (\<lambda>(block, off). upd_obj x (\<lambda>g. set_flag (LFS_F_DIRTY OR LFS_F_READING)
            (g\<lparr>file_block := block, file_off := off, file_pos := sz,
               file_ctz := \<lparr>ctz_head = block, ctz_size = sz\<rparr>\<rparr>)))))) (okp (\<lambda>_. cut)) s"
    unfolding wp_bnd [of "lfs_file_flush _ _"]
    by (intro wp_okp_mono [OF flush])
      (auto simp: wp_bnd [of "get_obj x"] wp_get_obj wp_bnd [of "on_fcache _ _"] okp_def split: outcome.splits elim!: wp_mono)
  have seek: "wp (bnd (lfs_file_rawseek c x (file_pos f) LFS_SEEK_SET) (\<lambda>_. ret ()))
      (okp (\<lambda>_. on_obj x s (\<lambda>f'. \<exists>n off p. n \<le> lst \<and> ctz_start B n \<le> unat sz \<and> unat sz < ctz_start B (n + 1) \<and>
      unat off = unat sz - ctz_start B n + 4 * ctz_ptrs n \<and> unat off < B \<and>
      cache_coherent c (contents (lfs_dev s)) p \<and>
      seek_result c (file_pos f) (cut_file (blk n) off sz p (unread f)) f'))) s'" if cut: "cut s'" for s'
  proof -
    obtain n off p where n: "n \<le> lst" "ctz_start B n \<le> unat sz" "unat sz < ctz_start B (n + 1)"
        "unat off = unat sz - ctz_start B n + 4 * ctz_ptrs n" "unat off < B"
        "cache_coherent c (contents (lfs_dev s)) p" "s' = with_obj x (cut_file (blk n) off sz p (unread f)) s"
      using cut unfolding cut_def by blast
    have "wp (lfs_file_rawseek c x (file_pos f) LFS_SEEK_SET)
        (okp (\<lambda>_. on_obj x s (seek_result c (file_pos f) (cut_file (blk n) off sz p (unread f))))) s'"
      unfolding n(7) by (rule rawseek_flushed) (use w ni pos in \<open>simp_all add: f_def\<close>)
    then show ?thesis
      unfolding wp_bnd by (rule wp_okp_mono) (use n in \<open>simp only: outcome.case wp_ret okp_simps on_obj_def, blast\<close>)
  qed
  have le: "\<not> LFS_FILE_MAX < sz" and lt: "sz < file_rawsize f" using sz by (simp_all add: old) (simp_all add: f_def)
  have get: "wp (bnd (get_obj x) k) Q s = wp (k f) Q s" for k :: "lfs_object \<Rightarrow> ('d lfs, unit) cmd" and Q
    by (simp add: wp_bnd wp_get_obj f_def)
  show ?thesis
    unfolding lfs_file_rawtruncate_def get Let_def wp_bnd [of "assertion _"] wp_assertion
      if_P [OF mode [folded f_def]] outcome.case if_not_P [OF le] if_P [OF lt] wp_bnd [of "bnd (lfs_file_flush _ _) _"]
    by (rule wp_okp_mono [OF head], simp only: outcome.case, rule seek)
qed


text \<open>What the file is after it was cut: readable, unless it was cut where a block begins.\<close>

lemma cut_file_readable:
  assumes v: "valid d" and r: "readable_file c (contents d) blk lst f"
    and sz: "0 < unat sz" "sz < ctz_size (file_ctz f)" and pos: "file_pos f < ctz_size (file_ctz f)"
  defines "B \<equiv> unat (cfg_block_size c)"
  assumes n: "n \<le> lst" "ctz_start B n \<le> unat sz" "unat sz < ctz_start B (n + 1)"
      "unat off = unat sz - ctz_start B n + 4 * ctz_ptrs n" "unat off < B" and p: "cache_coherent c (contents d) p"
    and f': "seek_result c (file_pos f) (cut_file (blk n) off sz p (unread f)) f'"
  shows "ctz_start B n < unat sz \<Longrightarrow> readable_file c (contents d) blk n f' \<and>
      ctz_data (contents d) blk n (unat sz) = take (unat sz) (ctz_data (contents d) blk lst (unat (ctz_size (file_ctz f))))"
    and "ctz_start B n = unat sz \<Longrightarrow> inj_on blk {..lst} \<Longrightarrow> \<not> readable_file c (contents d) blk m f'"
proof -
  note rf = r [unfolded readable_file_def]
  let ?cut = "cut_file (blk n) off sz p (unread f)"
  obtain i1 off1 where i1: "lfs_ctz_index c (sz - 1) = (i1, off1)" by (cases "lfs_ctz_index c (sz - 1)")
  obtain i2 off2 where i2: "lfs_ctz_index c sz = (i2, off2)" by (cases "lfs_ctz_index c sz")
  have s1: "unat (sz - 1) = unat sz - 1" using sz(1) by (simp add: unat_sub_u32 Suc_leI)
  have fits: "ctz_fits B (unat sz)" "ctz_fits B (unat (sz - 1))" "ctz_fits B (unat (file_pos f))"
    by (rule ctz_fits_less [of _ "unat (ctz_size (file_ctz f)) - 1"], use rf sz pos s1 in \<open>simp add: B_def u32_simps\<close>,
        use rf sz pos s1 in \<open>simp add: B_def u32_simps\<close>)+
  note x1 = lfs_ctz_index_ok(1,2) [OF fits(2) [unfolded B_def s1 [symmetric]] i1, folded B_def]
    and x2 = lfs_ctz_index_ok(1,2) [OF fits(1) [unfolded B_def] i2, folded B_def]
  have i2n: "unat i2 = n" by (rule ctz_start_unique [OF x2 n(2,3)])
  have fields: "ctz_head (file_ctz f') = blk n" "ctz_size (file_ctz f') = sz"
    using seek_result_fields(2) [OF f'] by simp_all
  show "\<not> readable_file c (contents d) blk m f'" if "ctz_start B n = unat sz" "inj_on blk {..lst}"
  proof
    assume "readable_file c (contents d) blk m f'"
    then have m: "blk m = blk n" "m = unat i1" unfolding readable_file_def fields i1 by simp_all
    have "ctz_start B m < ctz_start B n" using x1(1) that(1) s1 sz(1) m(2) by simp
    moreover have "n \<le> m \<Longrightarrow> ctz_start B n \<le> ctz_start B m" using lift_Suc_mono_le [of "ctz_start B" n m] by simp
    ultimately have "m < n" by linarith
    then show False using inj_onD [OF that(2) m(1)] n(1) by simp
  qed
  assume inside: "ctz_start B n < unat sz"
  have i1n: "unat i1 = n" by (rule ctz_start_unique [OF x1]) (use inside n(2,3) s1 in simp_all)
  have list: "ctz_list c (contents d) blk n" by (rule ctz_list_shorter) (use rf n in auto)
  have "placed B blk n sz (blk n) off" unfolding placed_def using n by (intro exI [of _ n]) auto
  then have cut: "readable_file c (contents d) blk n ?cut"
    using rf p list sz(1) i1 i1n fits(2) s1 by (simp add: readable_file_def B_def)
  have "readable_file c (contents d) blk n f'"
    by (rule seek_readable [OF geometry [OF v] cut f'])
      (use fits i2 i2n in \<open>simp_all add: B_def\<close>)
  moreover have "length (ctz_stream (contents d) blk (Suc n)) = ctz_start B (Suc n)"
    unfolding B_def by (intro length_ctz_stream length_contents [OF v] ctz_listD(1) [OF list]) simp
  then have "take (unat sz) (ctz_stream (contents d) blk (Suc lst)) = take (unat sz) (ctz_stream (contents d) blk (Suc n))"
    by (intro ctz_stream_prefix n(1)) (use n(3) in simp)
  then have "ctz_data (contents d) blk n (unat sz) = take (unat sz) (ctz_data (contents d) blk lst (unat (ctz_size (file_ctz f))))"
    using sz(2) by (simp add: ctz_data_def u32_simps min_def)
  ultimately show "readable_file c (contents d) blk n f' \<and>
      ctz_data (contents d) blk n (unat sz) = take (unat sz) (ctz_data (contents d) blk lst (unat (ctz_size (file_ctz f))))" ..
qed

end

end
