(* ===== verification/LFS_Lookup.thy ===== *)
theory LFS_Lookup
  imports LFS_Mdir LFS_Rambd
begin

text \<open>
  What the log of a metadata pair means.  The entries of a log, played from the oldest to the newest,
  build an array of attribute lists: creating an entry inserts an empty list, deleting one takes its list
  out, every other entry is put in front of the list of its id.  The lookup of the code goes backwards
  and moves the id around the splices it meets; it finds the attribute that the array has.
\<close>

section \<open>Tags as numbers\<close>

lemma mktag_sum:
  assumes "unat t < 2048" "unat i < 1024" "unat n < 1024"
  shows "LFS_MKTAG t i n = t * 1048576 + i * 1024 + n"
proof -
  have tb: "take_bit 11 t = t" "take_bit 10 i = i" "take_bit 10 n = n"
    using assms by (simp_all add: take_bit_id_u32)
  have b: "bit t k \<Longrightarrow> k < 11" "bit i k \<Longrightarrow> k < 10" "bit n k \<Longrightarrow> k < 10" for k
    using tb by (metis bit_take_bit_iff)+
  have "push_bit 10 i OR n = push_bit 10 i + n"
    by (rule disjunctive_add [symmetric]) (auto simp: bit_simps dest: b)
  moreover have "push_bit 20 t OR (push_bit 10 i OR n) = push_bit 20 t + (push_bit 10 i OR n)"
    by (rule disjunctive_add [symmetric]) (auto simp: bit_simps dest: b)
  ultimately show ?thesis
    unfolding LFS_MKTAG_def by (simp add: push_bit_eq_mult or.assoc)
qed

lemma mktag_id: "LFS_MKTAG 0 x 0 = x * 1024"
  by (simp add: LFS_MKTAG_def push_bit_eq_mult)

lemma mktag_shift:
  assumes "unat t < 2048" "unat n < 1024" "unat i < 1024" "unat (i - x) < 1024"
  shows "LFS_MKTAG t i n - LFS_MKTAG 0 x 0 = LFS_MKTAG t (i - x) n"
  using assms by (simp add: mktag_sum mktag_id algebra_simps)

lemma mktag_move:
  assumes "unat t < 2048" "unat t' < 2048" "unat n < 1024" "unat n' < 1024" "unat i < 1024" "unat j < 1024"
  shows "LFS_MKTAG t' j n' + (LFS_MKTAG t i n - LFS_MKTAG t j n) = LFS_MKTAG t' i n'"
  using assms by (simp add: mktag_sum algebra_simps)

lemma type1_of_type3: "lfs_tag_type1 tag = lfs_tag_type3 tag AND 0x700"
proof -
  have m: "(0x700 :: u32) = push_bit 8 (mask 3)" by (simp add: mask_eq_exp_minus_1 push_bit_eq_mult)
  show ?thesis unfolding lfs_tag_type1_take lfs_tag_type3_take m
    by (rule bit_word_eqI) (auto simp: bit_simps)
qed

lemma mask_id_tag:
  assumes "unat m < 2048"
  shows "LFS_MKTAG m 0x3ff 0 AND tag = LFS_MKTAG (m AND lfs_tag_type3 tag) (lfs_tag_id tag) 0"
proof -
  have tb: "take_bit 11 m = m" using assms by (simp add: take_bit_id_u32)
  have b: "bit m k \<Longrightarrow> k < 11" for k using tb by (metis bit_take_bit_iff)
  have m: "(0x3ff :: u32) = mask 10" by (simp add: mask_eq_exp_minus_1)
  show ?thesis unfolding LFS_MKTAG_def lfs_tag_id_take lfs_tag_type3_take m
    by (rule bit_word_eqI) (auto simp: bit_simps dest: b)
qed

lemma unat_and_less: "unat (m :: u32) < 2048 \<Longrightarrow> unat (m AND x) < 2048"
  by (metis le_less_trans word_and_le2 word_le_nat_alt and.commute)

lemma unat_tag_fields: "unat (lfs_tag_type3 tag) < 2048" "unat (lfs_tag_id tag) < 1024" "unat (lfs_tag_size tag) < 1024"
  using unat_take_bit_u32 [of 11 "drop_bit 20 tag"] unat_take_bit_u32 [of 10 "drop_bit 10 tag"]
  by (simp_all only: lfs_tag_type3_take lfs_tag_id_take lfs_tag_size_bound) simp_all

lemma mask_id_match:
  assumes "unat m < 2048" "unat t < 2048" "unat i < 1024" "unat n < 1024"
  shows "LFS_MKTAG m 0x3ff 0 AND tag = LFS_MKTAG m 0x3ff 0 AND LFS_MKTAG t i n \<longleftrightarrow>
    m AND lfs_tag_type3 tag = m AND t \<and> lfs_tag_id tag = i"
proof
  assume "LFS_MKTAG m 0x3ff 0 AND tag = LFS_MKTAG m 0x3ff 0 AND LFS_MKTAG t i n"
  then have "LFS_MKTAG (m AND lfs_tag_type3 tag) (lfs_tag_id tag) 0 = LFS_MKTAG (m AND t) i 0"
    using assms by (simp add: mask_id_tag mktag_fields)
  from arg_cong [OF this, of lfs_tag_type3] arg_cong [OF this, of lfs_tag_id]
  show "m AND lfs_tag_type3 tag = m AND t \<and> lfs_tag_id tag = i"
    using assms unat_tag_fields [of tag] by (simp add: mktag_fields unat_and_less)
next
  assume "m AND lfs_tag_type3 tag = m AND t \<and> lfs_tag_id tag = i"
  then show "LFS_MKTAG m 0x3ff 0 AND tag = LFS_MKTAG m 0x3ff 0 AND LFS_MKTAG t i n"
    using assms by (simp add: mask_id_tag mktag_fields)
qed

lemma create_tag:
  assumes "unat t < 2048" "unat i < 1024" "unat n < 1024"
  shows "LFS_MKTAG LFS_TYPE_CREATE 0 0 OR (LFS_MKTAG 0 0x3ff 0 AND LFS_MKTAG t i n) = LFS_MKTAG LFS_TYPE_CREATE i 0"
  using assms mask_id_tag [of 0 "LFS_MKTAG t i n"] by (simp add: mktag_fields) (simp add: LFS_MKTAG_def)

lemma lfs_tag_splice_type3: "lfs_tag_splice tag = scast (ucast (lfs_tag_type3 tag) :: u8)"
proof -
  have m: "(0xff00000 :: u32) = push_bit 20 (mask 8)" by (simp add: mask_eq_exp_minus_1 push_bit_eq_mult)
  have "lfs_tag_chunk tag = ucast (lfs_tag_type3 tag)"
    unfolding lfs_tag_chunk_def lfs_tag_type3_take m by (rule bit_word_eqI) (auto simp: bit_simps)
  then show ?thesis by (simp add: lfs_tag_splice_def)
qed

lemma splice_values:
  "lfs_tag_type3 tag = LFS_TYPE_CREATE \<Longrightarrow> lfs_tag_splice tag = 1"
  "lfs_tag_type3 tag = LFS_TYPE_DELETE \<Longrightarrow> lfs_tag_splice tag = - 1"
  by (simp_all add: lfs_tag_splice_type3 LFS_TYPE_CREATE_def LFS_TYPE_DELETE_def)


section \<open>Logs\<close>

text \<open>
  The entries of a log, each a tag and its data, the newest first.  In a block the data of an entry
  follows its tag, which is stored as the difference to the tag before; \<open>off\<close> is where the newest entry
  ends and \<open>tag\<close> is its tag.
\<close>

type_synonym entry = "u32 \<times> u8 list"

definition prev_tag :: "u8 list \<Rightarrow> nat \<Rightarrow> u32 \<Rightarrow> u32" where
  "prev_tag blk off tag = (lfs_frombe32 (u32_of_bytes (seg blk off 4)) XOR tag) AND 0x7fffffff"

fun log_on :: "u8 list \<Rightarrow> nat \<Rightarrow> u32 \<Rightarrow> entry list \<Rightarrow> bool" where
  "log_on blk off tag [] \<longleftrightarrow> off = 4"
| "log_on blk off tag (e # es) \<longleftrightarrow> fst e = tag \<and> unat (lfs_tag_dsize tag) = 4 + length (snd e) \<and>
     8 + length (snd e) \<le> off \<and> off \<le> length blk \<and>
     seg blk (off - length (snd e)) (length (snd e)) = snd e \<and>
     log_on blk (off - (4 + length (snd e))) (prev_tag blk (off - (4 + length (snd e))) tag) es"

text \<open>Splices are the creation and the deletion of one id; only checksums have tags that are not valid.\<close>

definition entry_ok :: "entry \<Rightarrow> bool" where
  "entry_ok e \<longleftrightarrow> (lfs_tag_isvalid (fst e) \<or> lfs_tag_type1 (fst e) = LFS_TYPE_CRC) \<and>
     (lfs_tag_type1 (fst e) = LFS_TYPE_SPLICE \<longrightarrow>
        fst e = LFS_MKTAG LFS_TYPE_CREATE (lfs_tag_id (fst e)) 0 \<or>
        fst e = LFS_MKTAG LFS_TYPE_DELETE (lfs_tag_id (fst e)) 0)"

section \<open>Attribute lists\<close>

text \<open>An attribute has a type and data, or marks the type as deleted.  The newest is in front.\<close>

type_synonym attr_list = "(u32 \<times> u8 list option) list"

definition insert_id :: "nat \<Rightarrow> (nat \<Rightarrow> attr_list) \<Rightarrow> nat \<Rightarrow> attr_list" where
  "insert_id i F j = (if j < i then F j else if j = i then [] else F (j - 1))"

definition delete_id :: "nat \<Rightarrow> (nat \<Rightarrow> attr_list) \<Rightarrow> nat \<Rightarrow> attr_list" where
  "delete_id i F j = (if j < i then F j else F (j + 1))"

definition entry_step :: "entry \<Rightarrow> (nat \<Rightarrow> attr_list) \<Rightarrow> nat \<Rightarrow> attr_list" where
  "entry_step e F =
     (let ty = lfs_tag_type3 (fst e); i = unat (lfs_tag_id (fst e))
      in if ty = LFS_TYPE_CREATE then insert_id i F
         else if ty = LFS_TYPE_DELETE then delete_id i F
         else F(i := (ty, if lfs_tag_isdelete (fst e) then None else Some (snd e)) # F i))"

fun replay :: "entry list \<Rightarrow> nat \<Rightarrow> attr_list" where
  "replay [] = (\<lambda>_. [])"
| "replay (e # es) = entry_step e (replay es)"

text \<open>The attribute whose type agrees in the bits of the mask.\<close>

fun find_attr :: "u32 \<Rightarrow> u32 \<Rightarrow> attr_list \<Rightarrow> (u32 \<times> u8 list) option" where
  "find_attr m t [] = None"
| "find_attr m t ((ty, d) # xs) = (if m AND ty = m AND t then map_option (Pair ty) d else find_attr m t xs)"

definition deletions :: "entry list \<Rightarrow> nat" where
  "deletions es = length (filter (\<lambda>e. lfs_tag_type3 (fst e) = LFS_TYPE_DELETE) es)"

text \<open>A move that is not finished hides the entry that moves, as if it were deleted.\<close>

definition with_pending :: "lfs_gstate \<Rightarrow> pair \<Rightarrow> entry list \<Rightarrow> entry list" where
  "with_pending g p es =
     (if lfs_gstate_hasmovehere g p then (LFS_MKTAG LFS_TYPE_DELETE (lfs_tag_id (gs_tag g)) 0, []) # es else es)"

lemma deletions_simps [simp]:
  "deletions [] = 0"
  "deletions (e # es) = (if lfs_tag_type3 (fst e) = LFS_TYPE_DELETE then Suc (deletions es) else deletions es)"
  by (simp_all add: deletions_def)

section \<open>The lookup on the device\<close>

text \<open>What a lookup returns for the id \<open>i\<close> with \<open>n\<close> bytes of room.\<close>

definition lookup_result :: "u32 \<Rightarrow> u32 \<Rightarrow> (u32 \<times> u8 list) option \<Rightarrow> (u32 \<times> u8 list) outcome" where
  "lookup_result i n r = (case r of
      None \<Rightarrow> Err LFS_ERR_NOENT
    | Some (ty, d) \<Rightarrow> Ok (LFS_MKTAG ty i (of_nat (length d)), take (unat n) d @ replicate (unat n - length d) 0))"

text \<open>The state after reading: only the read cache may differ, and it is coherent.\<close>

definition read_state :: "'z lfs_geometry_scheme \<Rightarrow> (u32 \<Rightarrow> u8 list) \<Rightarrow> 'd lfs \<Rightarrow> 'd lfs \<Rightarrow> bool" where
  "read_state c V s s' \<longleftrightarrow> cache_coherent c V (lfs_rcache s') \<and> s' = s\<lparr>lfs_rcache := lfs_rcache s'\<rparr>"

lemma read_state_trans: "read_state c V s s' \<Longrightarrow> read_state c V s' s'' \<Longrightarrow> read_state c V s s''"
  unfolding read_state_def by (metis lfs.update_convs(1) lfs.surjective)


context block_device begin

lemma rcache_read:
  assumes "valid (lfs_dev s)" "b < cfg_block_count c" "cache_coherent c (contents (lfs_dev s)) (lfs_rcache s)"
    and "0 < unat sz \<Longrightarrow> 0 < unat hint" "unat hint \<le> unat (cfg_block_size c)"
    and "unat off + unat sz \<le> unat (cfg_block_size c)"
  shows "wp (on_rcache (lfs_bd_read c None hint b off sz)) (okp (\<lambda>xs s'. read_state c (contents (lfs_dev s)) s s' \<and>
    xs = seg (contents (lfs_dev s) b) (unat off) (unat sz))) s"
  unfolding wp_on_rcache
  by (rule wp_okp_mono [OF bd_read_ok [where pcache = None]])
    (use assms in \<open>auto simp: read_state_def overlay_def\<close>)


lemma read_u32_ok:
  assumes "valid (lfs_dev s)" "b < cfg_block_count c" "cache_coherent c (contents (lfs_dev s)) (lfs_rcache s)"
    and "unat off + 4 \<le> unat (cfg_block_size c)"
  shows "wp (read_u32 c 4 b off) (okp (\<lambda>w s'. read_state c (contents (lfs_dev s)) s s' \<and>
    w = u32_of_bytes (seg (contents (lfs_dev s) b) (unat off) 4))) s"
  unfolding read_u32_def wp_bnd
  by (rule wp_okp_mono [OF rcache_read [OF assms(1-3)]]) (use assms(4) in \<open>auto simp: wp_ret\<close>)

text \<open>The match of an entry: its data, cut to the room and padded.\<close>

lemma getslice_match_ok:
  assumes v: "valid (lfs_dev s)" "fst (md_pair dir) < cfg_block_count c"
      "cache_coherent c (contents (lfs_dev s)) (lfs_rcache s)"
    and t: "unat t < 2048" "unat i0 < 1024" "unat j < 1024" "unat n < 1024" "unat m < 2048"
    and entry: "unat (lfs_tag_dsize tag) = 4 + length d" "unat off + 4 + length d \<le> unat (cfg_block_size c)"
      "seg (contents (lfs_dev s) (fst (md_pair dir))) (unat off + 4) (length d) = d"
      "lfs_tag_isvalid tag"
    and match: "m AND lfs_tag_type3 tag = m AND t" "lfs_tag_id tag = j"
    and g: "gdiff = LFS_MKTAG t i0 n - LFS_MKTAG t j n"
  shows "wp (getslice_match c dir (LFS_MKTAG m 0x3ff 0) (LFS_MKTAG t i0 n) 0 gsize off tag gdiff cont)
    (\<lambda>r s'. r = lookup_result i0 gsize (map_option (Pair (lfs_tag_type3 tag)) (if lfs_tag_isdelete tag then None else Some d)) \<and>
      read_state c (contents (lfs_dev s)) s s') s"
proof -
  have hit: "LFS_MKTAG m 0x3ff 0 AND tag = LFS_MKTAG m 0x3ff 0 AND (LFS_MKTAG t i0 n - gdiff)"
    using mask_id_match [of m t j n tag] match t by (simp add: g)
  show ?thesis
  proof (cases "lfs_tag_isdelete tag")
    case True
    then show ?thesis using hit v by (simp add: getslice_match_def wp_throw lookup_result_def read_state_def)
  next
    case False
    have size: "unat (lfs_tag_size tag) = length d"
      using entry(1) False lfs_tag_size_bound [of tag] by (simp add: lfs_tag_dsize_def unat_add_u32)
    have sz: "(of_nat (length d) :: u32) = lfs_tag_size tag" unfolding size [symmetric] by simp
    define diff where "diff = lfs_min (lfs_tag_size tag) gsize"
    have diff: "unat diff = min (length d) (unat gsize)" by (simp add: diff_def unat_lfs_min size)
    have off: "unat (off + 4 + 0) = unat off + 4"
      using entry(2) wf_geometryD(9) [OF geometry [OF v(1)]] by (simp add: unat_add_u32)
    have bs: "seg (contents (lfs_dev s) (fst (md_pair dir))) (unat off + 4) (unat diff) = take (unat gsize) d"
    proof -
      have "seg V i (min k l) = take l (seg V i k)" for V :: "u8 list" and i k l by (simp add: seg_def min.commute)
      then show ?thesis unfolding diff by (simp only: entry(3))
    qed
    have tag: "tag + gdiff = LFS_MKTAG (lfs_tag_type3 tag) i0 (of_nat (length d))"
    proof -
      have "tag = LFS_MKTAG (lfs_tag_type3 tag) j (lfs_tag_size tag)"
        using mktag_of_fields [OF entry(4)] match(2) by simp
      moreover note sz
      ultimately show ?thesis
        using mktag_move [of t "lfs_tag_type3 tag" n "lfs_tag_size tag" i0 j] t unat_tag_fields [of tag] g
        by simp
    qed
    have "\<not> bit (tag + gdiff) 31"
      unfolding tag sz using mktag_fields(4) [of "lfs_tag_type3 tag" i0 "lfs_tag_size tag"] t unat_tag_fields [of tag]
      by (simp add: lfs_tag_isvalid_bit)
    then have st: "stag_ret (tag + gdiff) = ret (tag + gdiff)" by (simp add: stag_ret_def)
    have pad: "unat (gsize - diff) = unat gsize - length d" using diff by (simp add: unat_sub_u32 min_def)
    show ?thesis
      unfolding getslice_match_def if_P [OF hit] if_not_P [OF False] Let_def diff_def [symmetric] wp_bnd [of "on_rcache _"]
      by (rule wp_okp_mono [OF rcache_read [OF v]])
        (use diff entry(2) off bs in \<open>auto simp: wp_bnd st [unfolded tag] wp_ret lookup_result_def False tag pad\<close>)
  qed
qed


text \<open>The loop: the id moves around the splices, and the lookup of the rest is that of the older log.\<close>

lemma replay_entry:
  "lfs_tag_type1 (fst e) \<noteq> LFS_TYPE_SPLICE \<Longrightarrow>
    find_attr m t (replay (e # es) k) =
      (if unat (lfs_tag_id (fst e)) = k \<and> m AND lfs_tag_type3 (fst e) = m AND t
       then map_option (Pair (lfs_tag_type3 (fst e))) (if lfs_tag_isdelete (fst e) then None else Some (snd e))
       else find_attr m t (replay es k))"
proof -
  assume n: "lfs_tag_type1 (fst e) \<noteq> LFS_TYPE_SPLICE"
  have "lfs_tag_type3 (fst e) \<noteq> LFS_TYPE_CREATE" "lfs_tag_type3 (fst e) \<noteq> LFS_TYPE_DELETE"
    using n by (auto simp: type1_of_type3 LFS_TYPE_SPLICE_def LFS_TYPE_CREATE_def LFS_TYPE_DELETE_def)
  then show ?thesis by (simp add: entry_step_def Let_def)
qed

lemma replay_create:
  "fst e = LFS_MKTAG LFS_TYPE_CREATE i 0 \<Longrightarrow> unat i < 1024 \<Longrightarrow> replay (e # es) = insert_id (unat i) (replay es)"
  by (simp add: entry_step_def mktag_fields LFS_TYPE_CREATE_def)

lemma replay_delete:
  "fst e = LFS_MKTAG LFS_TYPE_DELETE i 0 \<Longrightarrow> unat i < 1024 \<Longrightarrow> replay (e # es) = delete_id (unat i) (replay es)"
  by (simp add: entry_step_def mktag_fields LFS_TYPE_CREATE_def LFS_TYPE_DELETE_def)

lemma getslice_loop_ok:
  assumes v: "fst (md_pair dir) < cfg_block_count c"
    and t: "unat t < 2048" "unat i0 < 1024" "unat n < 1024" "unat m < 2048"
    and mask: "m AND 0x700 = 0x700" "t AND 0x700 \<noteq> LFS_TYPE_SPLICE" "t AND 0x700 \<noteq> LFS_TYPE_CRC"
  shows "valid (lfs_dev s) \<Longrightarrow> cache_coherent c (contents (lfs_dev s)) (lfs_rcache s) \<Longrightarrow>
    log_on (contents (lfs_dev s) (fst (md_pair dir))) (unat off) tag es \<Longrightarrow> list_all entry_ok es \<Longrightarrow>
    unat j + deletions es < 1024 \<Longrightarrow> unat off < k \<Longrightarrow> gdiff = LFS_MKTAG t i0 n - LFS_MKTAG t j n \<Longrightarrow>
    wp (getslice_loop c dir (LFS_MKTAG m 0x3ff 0) (LFS_MKTAG t i0 n) 0 gsize k off tag gdiff)
      (\<lambda>r s'. r = lookup_result i0 gsize (find_attr m t (replay es (unat j))) \<and>
        read_state c (contents (lfs_dev s)) s s') s"
proof (induction es arbitrary: s off tag j k gdiff)
  case Nil
  then obtain k' where k: "k = Suc k'" by (cases k) auto
  have "\<not> 4 + lfs_tag_dsize tag \<le> off"
    using Nil.prems(3) lfs_tag_dsize_bounds [of tag] by (simp add: u32_simps unat_add_u32)
  then show ?case using Nil.prems by (simp add: k wp_throw lookup_result_def read_state_def)
next
  case (Cons e es)
  let ?V = "contents (lfs_dev s)" and ?b = "fst (md_pair dir)"
  obtain k' where k: "k = Suc k'" using Cons.prems(6) by (cases k) auto
  let ?gm = "LFS_MKTAG m 0x3ff 0" and ?gt = "LFS_MKTAG t i0 n"
  define i where "i = lfs_tag_id tag"
  define off' where "off' = off - lfs_tag_dsize tag"
  define ntag where "ntag = prev_tag (?V ?b) (unat off') tag"
  define post where "post = (\<lambda>r s'. r = lookup_result i0 gsize (find_attr m t (replay (e # es) (unat j))) \<and>
    read_state c ?V s s')"
  have e: "fst e = tag" and size: "unat (lfs_tag_dsize tag) = 4 + length (snd e)"
    and le: "8 + length (snd e) \<le> unat off" "unat off \<le> length (?V ?b)"
    and data: "seg (?V ?b) (unat off - length (snd e)) (length (snd e)) = snd e"
    using Cons.prems(3) by simp_all
  have off': "unat off' = unat off - (4 + length (snd e))" using le size by (simp add: off'_def unat_sub_u32)
  have log: "log_on (?V ?b) (unat off') ntag es" using Cons.prems(3) unfolding log_on.simps ntag_def off' by blast
  have lenV: "length (?V ?b) = unat (cfg_block_size c)" using length_contents [OF Cons.prems(1) v] .
  have i: "unat i < 1024" unfolding i_def by (rule unat_tag_fields)
  have j: "unat j < 1024" using Cons.prems(5) by simp
  have T: "?gt - gdiff = LFS_MKTAG t j n" using Cons.prems(7) by simp
  have ids: "lfs_tag_id ?gm \<noteq> 0" "lfs_tag_id (LFS_MKTAG t j n) = j"
    using t j by (simp_all add: mktag_fields)
  have ok: "entry_ok e" "list_all entry_ok es" using Cons.prems(4) by simp_all
  have enter: "4 + lfs_tag_dsize tag \<le> off"
    using le size lfs_tag_dsize_bounds [of tag] by (simp add: u32_simps unat_add_u32)
  have dev: "lfs_dev s' = lfs_dev s" if "read_state c ?V s s'" for s'
    using that by (metis read_state_def lfs.select_convs(14) lfs.surjective lfs.update_convs(1))
  have rest: "wp (getslice_loop c dir ?gm ?gt 0 gsize k' off' ntag gdiff')
      (\<lambda>r s''. r = lookup_result i0 gsize (find_attr m t (replay es (unat j'))) \<and> read_state c ?V s s'') s'"
    if s': "read_state c ?V s s'" and j': "unat j' + deletions es < 1024" "gdiff' = ?gt - LFS_MKTAG t j' n" for s' j' gdiff'
  proof -
    have fuel: "unat off' < k'" using Cons.prems(6) le size by (simp add: k off')
    have coh: "cache_coherent c ?V (lfs_rcache s')" using s' by (simp add: read_state_def)
    show ?thesis
      by (rule wp_mono [OF Cons.IH [of s' off' ntag j' k' gdiff']])
        (use Cons.prems(1) s' dev [OF s'] log ok j' fuel coh in \<open>auto intro: read_state_trans [OF s']\<close>)
  qed
  have nomatch: "getslice_match c dir ?gm ?gt 0 gsize off' tag gd cont = cont"
    if "?gt - gd = LFS_MKTAG t j' n" "unat j' < 1024" "\<not> (m AND lfs_tag_type3 tag = m AND t \<and> i = j')" for gd cont j'
    using that mask_id_match [of m t j' n tag] t by (auto simp: getslice_match_def i_def)
  have typed: "t AND 0x700 = lfs_tag_type1 tag" if "m AND lfs_tag_type3 tag = m AND t"
  proof -
    have drop: "(m AND x) AND 0x700 = x AND 0x700" for x
    proof -
      have "(m AND x) AND 0x700 = x AND (m AND 0x700)" by (simp only: ac_simps)
      then show ?thesis by (simp only: mask(1))
    qed
    from arg_cong [OF that, of "\<lambda>x. x AND 0x700"] show ?thesis unfolding drop type1_of_type3 by (rule sym)
  qed
  have move: "gdiff + LFS_MKTAG 0 x 0 = ?gt - LFS_MKTAG t (j - x) n" "?gt - (gdiff + LFS_MKTAG 0 x 0) = LFS_MKTAG t (j - x) n"
    if "unat (j - x) < 1024" for x
    using mktag_shift [OF t(1,3) j that] T Cons.prems(7) by (simp_all add: algebra_simps)
  have body: "wp (if lfs_tag_id ?gm \<noteq> 0 \<and> lfs_tag_type1 tag = LFS_TYPE_SPLICE \<and> lfs_tag_id tag \<le> lfs_tag_id (?gt - gdiff) then
        if tag = LFS_MKTAG LFS_TYPE_CREATE 0 0 OR (LFS_MKTAG 0 0x3ff 0 AND (?gt - gdiff)) then throw LFS_ERR_NOENT
        else getslice_match c dir ?gm ?gt 0 gsize off' tag (gdiff + LFS_MKTAG 0 (lfs_tag_splice tag) 0)
               (getslice_loop c dir ?gm ?gt 0 gsize k' off' ntag (gdiff + LFS_MKTAG 0 (lfs_tag_splice tag) 0))
      else getslice_match c dir ?gm ?gt 0 gsize off' tag gdiff
             (getslice_loop c dir ?gm ?gt 0 gsize k' off' ntag gdiff)) post s'"
    if s': "read_state c ?V s s'" for s'
  proof (cases "lfs_tag_type1 tag = LFS_TYPE_SPLICE")
    case False
    note re = replay_entry [of e m t es "unat j", unfolded e, OF False]
    have step: "wp (getslice_match c dir ?gm ?gt 0 gsize off' tag gdiff
        (getslice_loop c dir ?gm ?gt 0 gsize k' off' ntag gdiff)) post s'"
    proof (cases "m AND lfs_tag_type3 tag = m AND t \<and> i = j")
      case True
      then have "lfs_tag_isvalid tag" using typed ok(1) mask by (auto simp: entry_ok_def e)
      then have "wp (getslice_match c dir ?gm ?gt 0 gsize off' tag gdiff
          (getslice_loop c dir ?gm ?gt 0 gsize k' off' ntag gdiff))
        (\<lambda>r s''. r = lookup_result i0 gsize (map_option (Pair (lfs_tag_type3 tag))
            (if lfs_tag_isdelete tag then None else Some (snd e))) \<and>
          read_state c (contents (lfs_dev s')) s' s'') s'"
        using Cons.prems(1,7) v s' dev [OF s'] t j size le off' lenV data True
        by (intro getslice_match_ok) (auto simp: read_state_def i_def)
      then show ?thesis
        unfolding post_def using True re s' dev [OF s'] by (auto simp: i_def elim!: wp_mono intro: read_state_trans)
    next
      case no: False
      then have "\<not> (unat (lfs_tag_id tag) = unat j \<and> m AND lfs_tag_type3 tag = m AND t)" by (auto simp: i_def u32_eq)
      then have "find_attr m t (replay (e # es) (unat j)) = find_attr m t (replay es (unat j))"
        using re by (simp only: if_False simp_thms)
      then show ?thesis
        unfolding nomatch [OF T j no] post_def using rest [OF s', of j gdiff] Cons.prems(5,7) by (simp split: if_splits)
    qed
    then show ?thesis using False by simp
  next
    case True
    have no: "\<not> (m AND lfs_tag_type3 tag = m AND t \<and> i = j')" for j' using typed True mask(2) by auto
    have skip: "wp (getslice_match c dir ?gm ?gt 0 gsize off' tag gd
        (getslice_loop c dir ?gm ?gt 0 gsize k' off' ntag gd)) post s'"
      if "gd = ?gt - LFS_MKTAG t j' n" "unat j' + deletions es < 1024" "replay (e # es) (unat j) = replay es (unat j')" for gd j'
    proof -
      have "?gt - gd = LFS_MKTAG t j' n" "unat j' < 1024" using that(1,2) by simp_all
      from nomatch [OF this no] show ?thesis unfolding post_def using rest [OF s' that(2,1)] that(3) by simp
    qed
    have create: "LFS_MKTAG LFS_TYPE_CREATE 0 0 OR (LFS_MKTAG 0 0x3ff 0 AND LFS_MKTAG t j n) = LFS_MKTAG LFS_TYPE_CREATE j 0"
      using create_tag t j by blast
    consider (Create) "tag = LFS_MKTAG LFS_TYPE_CREATE i 0" | (Delete) "tag = LFS_MKTAG LFS_TYPE_DELETE i 0"
      using ok(1) True by (auto simp: entry_ok_def e i_def)
    then show ?thesis
    proof cases
      case Create
      have ty: "lfs_tag_type3 tag = LFS_TYPE_CREATE" using i unfolding Create by (simp add: mktag_fields LFS_TYPE_CREATE_def)
      have F: "replay (e # es) = insert_id (unat i) (replay es)" by (rule replay_create) (use e Create i in auto)
      have dels: "deletions es = deletions (e # es)" using ty e by (simp add: LFS_TYPE_CREATE_def LFS_TYPE_DELETE_def)
      consider "i = j" | "i < j" | "j < i" by fastforce
      then show ?thesis
      proof cases
        case 1
        have tag: "LFS_MKTAG LFS_TYPE_CREATE j 0 = tag" using Create 1 by simp
        show ?thesis
          unfolding T create ids(2) tag using ids True 1 s'
          by (simp add: wp_throw post_def F insert_id_def lookup_result_def i_def [symmetric] del: replay.simps)
      next
        case 2
        have ne: "tag \<noteq> LFS_MKTAG LFS_TYPE_CREATE j 0"
          using 2 j i_def mktag_fields(2) [of LFS_TYPE_CREATE j 0] by (auto simp: LFS_TYPE_CREATE_def)
        have j1: "unat (j - 1) = unat j - 1" using 2 by (simp add: u32_simps unat_sub_u32)
        then have "unat (j - 1) < 1024" "unat (j - 1) + deletions es < 1024" using j Cons.prems(5) dels by simp_all
        moreover have "replay (e # es) (unat j) = replay es (unat (j - 1))"
          using 2 j1 by (simp add: F insert_id_def u32_simps del: replay.simps)
        ultimately have "wp (getslice_match c dir ?gm ?gt 0 gsize off' tag (gdiff + LFS_MKTAG 0 1 0)
            (getslice_loop c dir ?gm ?gt 0 gsize k' off' ntag (gdiff + LFS_MKTAG 0 1 0))) post s'"
          using skip [of _ "j - 1"] move(1) [of 1] by blast
        then show ?thesis
          unfolding T create ids(2) using ids True ne 2 less_imp_le [OF 2] splice_values(1) [OF ty] by (simp add: i_def [symmetric])
      next
        case 3
        then show ?thesis
          unfolding T ids(2) using ids True skip [OF Cons.prems(7)] Cons.prems(5) dels
          by (simp add: i_def [symmetric] F insert_id_def u32_simps del: replay.simps)
      qed
    next
      case Delete
      have ty: "lfs_tag_type3 tag = LFS_TYPE_DELETE" using i unfolding Delete by (simp add: mktag_fields LFS_TYPE_DELETE_def)
      have F: "replay (e # es) = delete_id (unat i) (replay es)" by (rule replay_delete) (use e Delete i in auto)
      have dels: "deletions (e # es) = Suc (deletions es)" using ty e by simp
      show ?thesis
      proof (cases "i \<le> j")
        case True
        have ne: "tag \<noteq> LFS_MKTAG LFS_TYPE_CREATE j 0"
          using ty j mktag_fields(1) [of LFS_TYPE_CREATE j 0] by (auto simp: LFS_TYPE_CREATE_def LFS_TYPE_DELETE_def)
        have j1: "unat (j - - 1) = unat j + 1" using j by (simp add: unat_add_u32)
        then have "unat (j - - 1) < 1024" "unat (j - - 1) + deletions es < 1024" using Cons.prems(5) dels by simp_all
        moreover have "replay (e # es) (unat j) = replay es (unat (j - - 1))"
          using True j1 by (simp add: F delete_id_def u32_simps del: replay.simps)
        ultimately have "wp (getslice_match c dir ?gm ?gt 0 gsize off' tag (gdiff + LFS_MKTAG 0 (- 1) 0)
            (getslice_loop c dir ?gm ?gt 0 gsize k' off' ntag (gdiff + LFS_MKTAG 0 (- 1) 0))) post s'"
          using skip [of _ "j - - 1"] move(1) [of "- 1"] by blast
        then show ?thesis
          unfolding T create ids(2)
          using ids True \<open>lfs_tag_type1 tag = LFS_TYPE_SPLICE\<close> ne splice_values(2) [OF ty] by (simp add: i_def [symmetric])
      next
        case False
        then show ?thesis
          unfolding T ids(2) using skip [OF Cons.prems(7)] Cons.prems(5) dels
          by (simp add: i_def [symmetric] F delete_id_def u32_simps del: replay.simps)
      qed
    qed
  qed
  have ntag': "(lfs_frombe32 (u32_of_bytes (seg (?V ?b) (unat off') 4)) XOR tag) AND 0x7fffffff = ntag"
    by (simp add: ntag_def prev_tag_def)
  have room: "unat off' + 4 \<le> unat (cfg_block_size c)" using off' le lenV size by simp
  show ?case
    unfolding post_def [symmetric] k getslice_loop.simps if_P [OF enter] Let_def off'_def [symmetric] wp_bnd [of "read_u32 _ _ _ _"]
    by (rule wp_okp_mono [OF read_u32_ok [OF Cons.prems(1) v Cons.prems(2) room]], elim conjE)
      (simp only: outcome.case ntag', rule body)
qed


text \<open>The lookup of a tag: the log of the pair, and the pending move.\<close>

lemma lfs_dir_get_ok:
  assumes v: "valid (lfs_dev s)" "fst (md_pair dir) < cfg_block_count c"
      "cache_coherent c (contents (lfs_dev s)) (lfs_rcache s)"
    and log: "log_on (contents (lfs_dev s) (fst (md_pair dir))) (unat (md_off dir)) (md_etag dir) es" "list_all entry_ok es"
    and t: "unat t < 2048" "unat i < 1024" "unat n < 1024" "unat m < 2048"
    and mask: "m AND 0x700 = 0x700" "t AND 0x700 \<noteq> LFS_TYPE_SPLICE" "t AND 0x700 \<noteq> LFS_TYPE_CRC"
    and ids: "unat i + deletions (with_pending (lfs_gdisk s) (md_pair dir) es) < 1024"
  shows "wp (lfs_dir_get c dir (LFS_MKTAG m 0x3ff 0) (LFS_MKTAG t i n))
    (\<lambda>r s'. r = lookup_result i n (find_attr m t (replay (with_pending (lfs_gdisk s) (md_pair dir) es) (unat i))) \<and>
      read_state c (contents (lfs_dev s)) s s') s"
proof -
  let ?g = "lfs_gdisk s" and ?gm = "LFS_MKTAG m 0x3ff 0" and ?gt = "LFS_MKTAG t i n"
  define q where "q = lfs_tag_id (gs_tag ?g)"
  define moved where "moved \<longleftrightarrow> lfs_gstate_hasmovehere ?g (md_pair dir) \<and> q \<le> i"
  define j where "j = (if moved then i + 1 else i)"
  define gdiff where "gdiff = (if moved then 0 - LFS_MKTAG 0 1 0 else 0)"
  have f: "lfs_tag_id ?gm \<noteq> 0" "lfs_tag_id ?gt = i" "lfs_tag_size ?gt = n" using t by (simp_all add: mktag_fields)
  have q: "unat q < 1024" unfolding q_def by (rule unat_tag_fields)
  have del: "lfs_tag_type3 (LFS_MKTAG LFS_TYPE_DELETE q 0) = LFS_TYPE_DELETE"
    using q by (simp add: mktag_fields LFS_TYPE_DELETE_def)
  have j: "unat j = (if moved then unat i + 1 else unat i)" using t(2) by (simp add: j_def unat_add_u32)
  have ids': "unat j + deletions es < 1024"
    using ids by (auto simp: with_pending_def moved_def j q_def [symmetric] del split: if_splits)
  have re: "replay (with_pending ?g (md_pair dir) es) (unat i) = replay es (unat j)"
  proof (cases "lfs_gstate_hasmovehere ?g (md_pair dir)")
    case True
    then have "replay (with_pending ?g (md_pair dir) es) = delete_id (unat q) (replay es)"
      unfolding with_pending_def q_def [symmetric] if_P [OF True] by (intro replay_delete q) simp
    then show ?thesis using True by (simp add: delete_id_def j moved_def u32_simps)
  next
    case False
    then show ?thesis by (simp add: with_pending_def j moved_def)
  qed
  have gd: "gdiff = ?gt - LFS_MKTAG t j n"
  proof (cases moved)
    case True
    then have "unat (i - - 1) < 1024" using ids' by (simp add: j_def)
    with True t mktag_shift [of t n i "- 1"] show ?thesis
      by (simp add: gdiff_def j_def mktag_id algebra_simps)
  qed (simp add: gdiff_def j_def)
  have "wp (getslice_loop c dir ?gm ?gt 0 n (unat (md_off dir) + 1) (md_off dir) (md_etag dir) gdiff)
      (\<lambda>r s'. r = lookup_result i n (find_attr m t (replay es (unat j))) \<and> read_state c (contents (lfs_dev s)) s s') s"
    by (rule getslice_loop_ok [OF v(2) t mask v(1,3) log ids' _ gd]) simp
  then show ?thesis
    unfolding lfs_dir_get_def lfs_dir_getslice_def f(3) wp_bnd_gets Let_def re
    using f by (simp add: gdiff_def moved_def q_def del: getslice_loop.simps)
qed

end

end
