(* ===== verification/LFS_Append.thy ===== *)
theory LFS_Append
  imports LFS_Lookup LFS_Commit LFS_Reads
begin

text \<open>
  The writing side of a metadata log: committing an entry puts it in front of the entries that the log
  has.  With the lookup of \<^verbatim>\<open>LFS_Lookup\<close>, what is committed is found.
\<close>

section \<open>Logs and what follows them\<close>

lemma log_on_cong:
  "log_on blk off tag es \<Longrightarrow> take off blk' = take off blk \<Longrightarrow> off \<le> length blk' \<Longrightarrow> log_on blk' off tag es"
proof (induction es arbitrary: off tag)
  case (Cons e es)
  let ?off = "off - (4 + length (snd e))"
  have same: "seg blk' i n = seg blk i n" if "i + n \<le> off" for i n
    using that Cons.prems(2) by (metis seg_take)
  have le: "8 + length (snd e) \<le> off" using Cons.prems(1) by simp
  then have "?off + 4 \<le> off" by simp
  then have "prev_tag blk' ?off tag = prev_tag blk ?off tag" by (simp add: prev_tag_def same)
  moreover have "take ?off blk' = take ?off blk"
    using arg_cong [OF Cons.prems(2), of "take ?off"] by (simp add: min_def)
  ultimately have "log_on blk' ?off (prev_tag blk' ?off tag) es"
    using Cons.IH [of ?off "prev_tag blk ?off tag"] Cons.prems(1,3) by simp
  moreover have "seg blk' (off - length (snd e)) (length (snd e)) = snd e"
    using Cons.prems(1) same [of "off - length (snd e)" "length (snd e)"] le by simp
  ultimately show ?case using Cons.prems(1,3) by simp
qed simp

text \<open>The highest bit of a tag is not kept: an entry is the same without it.\<close>

fun strip_head :: "entry list \<Rightarrow> entry list" where
  "strip_head [] = []"
| "strip_head (e # es) = (fst e AND 0x7fffffff, snd e) # es"

lemma strip_fields:
  "lfs_tag_type3 (tag AND 0x7fffffff) = lfs_tag_type3 tag" "lfs_tag_id (tag AND 0x7fffffff) = lfs_tag_id tag"
  "lfs_tag_size (tag AND 0x7fffffff) = lfs_tag_size tag" "lfs_tag_isvalid (tag AND 0x7fffffff)"
proof -
  have m: "(0x7fffffff :: u32) = mask 31" by (simp add: mask_eq_exp_minus_1)
  show "lfs_tag_type3 (tag AND 0x7fffffff) = lfs_tag_type3 tag" unfolding lfs_tag_type3_take m
    by (rule bit_word_eqI) (auto simp: bit_simps)
  show "lfs_tag_id (tag AND 0x7fffffff) = lfs_tag_id tag" unfolding lfs_tag_id_take m
    by (rule bit_word_eqI) (auto simp: bit_simps)
  show "lfs_tag_size (tag AND 0x7fffffff) = lfs_tag_size tag" unfolding lfs_tag_size_take m
    by (rule bit_word_eqI) (auto simp: bit_simps)
  show "lfs_tag_isvalid (tag AND 0x7fffffff)" unfolding lfs_tag_isvalid_bit m by (simp add: bit_simps)
qed

lemma highest_bit: "\<not> bit (tag :: u32) 31 \<Longrightarrow> n < 32 \<Longrightarrow> bit tag n \<Longrightarrow> n < 31"
  by (cases "n = 31") auto

lemma strip_valid: "lfs_tag_isvalid tag \<Longrightarrow> tag AND 0x7fffffff = tag"
proof -
  have m: "(0x7fffffff :: u32) = mask 31" by (simp add: mask_eq_exp_minus_1)
  assume "lfs_tag_isvalid tag"
  then show ?thesis unfolding m by (intro bit_word_eqI) (auto simp: bit_simps lfs_tag_isvalid_bit intro: highest_bit)
qed

lemma replay_strip: "replay (strip_head es) = replay es"
  by (cases es) (simp_all add: entry_step_def strip_fields lfs_tag_isdelete_iff Let_def)

lemma deletions_strip: "deletions (strip_head es) = deletions es"
  by (cases es) (simp_all add: strip_fields)

lemma entry_ok_strip: "list_all entry_ok es \<Longrightarrow> list_all entry_ok (strip_head es)"
proof (cases es)
  case (Cons e es')
  assume ok: "list_all entry_ok es"
  have "lfs_tag_type1 (fst e AND 0x7fffffff) = lfs_tag_type1 (fst e)" by (simp add: type1_of_type3 strip_fields)
  moreover have "lfs_tag_isvalid (fst e)" if "lfs_tag_type1 (fst e) = LFS_TYPE_SPLICE"
    using ok that Cons by (auto simp: entry_ok_def LFS_TYPE_SPLICE_def LFS_TYPE_CRC_def)
  ultimately show ?thesis
    using ok Cons by (auto simp: entry_ok_def strip_fields strip_valid)
qed simp

lemma log_on_strip: "log_on blk off tag es \<Longrightarrow> log_on blk off (tag AND 0x7fffffff) (strip_head es)"
proof (cases es)
  case (Cons e es')
  have d: "lfs_tag_dsize (tag AND 0x7fffffff) = lfs_tag_dsize tag"
    by (rule lfs_tag_dsize_cong) (rule strip_fields)
  have "prev_tag blk i (tag AND 0x7fffffff) = prev_tag blk i tag" for i
  proof -
    have m: "(0x7fffffff :: u32) = mask 31" by (simp add: mask_eq_exp_minus_1)
    show ?thesis unfolding prev_tag_def m by (rule bit_word_eqI) (auto simp: bit_simps)
  qed
  moreover assume "log_on blk off tag es"
  ultimately show ?thesis using Cons by (simp add: d)
qed simp

text \<open>The bytes of an entry behind a log make a longer log.\<close>

lemma log_on_append:
  assumes log: "log_on blk off tag0 es" and tag: "lfs_tag_isvalid tag" "unat (lfs_tag_dsize tag) = 4 + length data"
    and off: "4 \<le> off" "off + 4 + length data \<le> length blk"
  shows "log_on (patch (patch blk off (u32_bytes (lfs_tobe32 (tag XOR tag0)))) (off + 4) data)
    (off + 4 + length data) tag ((tag, data) # strip_head es)"
proof -
  let ?w = "u32_bytes (lfs_tobe32 (tag XOR tag0))"
  let ?blk = "patch (patch blk off ?w) (off + 4) data"
  have lw: "length ?w = 4" by (simp add: u32_bytes_def)
  have len: "length ?blk = length blk" using off lw by (simp add: patch_def)
  have w: "seg ?blk off 4 = ?w" using off lw by (simp add: seg_def patch_def)
  have d: "seg ?blk (off + 4) (length data) = data" using off lw by (simp add: seg_def patch_def)
  have t: "take off ?blk = take off blk" using off by (simp add: patch_def)
  have "(tag XOR tag0) XOR tag = tag0" by (metis xor.assoc xor.commute xor_self_eq xor.right_neutral)
  then have p: "prev_tag ?blk off tag = tag0 AND 0x7fffffff" by (simp add: prev_tag_def w)
  have "log_on ?blk off (tag0 AND 0x7fffffff) (strip_head es)"
    by (rule log_on_cong [OF log_on_strip [OF log] t]) (use off len in simp)
  then show ?thesis using off len d tag(2) by (simp add: p)
qed


section \<open>Commits\<close>

text \<open>
  A commit whose block holds a log up to its offset, as it is read through the program cache; \<open>V\<close> are the
  contents of the device and \<open>er\<close> the bytes of the block that are erased.
\<close>

definition commit_log ::
  "'z lfs_geometry_scheme \<Rightarrow> (u32 \<Rightarrow> u8 list) \<Rightarrow> (nat \<Rightarrow> bool) \<Rightarrow> entry list \<Rightarrow> 'd lfs \<times> lfs_commit \<Rightarrow> bool" where
  "commit_log c V er es x \<longleftrightarrow> (let (s, cm) = x; b = cm_block cm in
     b < cfg_block_count c \<and> prog_cursor c er b (cm_off cm) (lfs_pcache s) \<and> rcache_ok c V False b (lfs_rcache s) \<and>
     4 \<le> unat (cm_off cm) \<and> unat (cm_off cm) \<le> unat (cfg_block_size c) \<and> unat (cm_end cm) \<le> unat (cfg_block_size c) \<and>
     log_on (overlay (Some (lfs_pcache s)) V b) (unat (cm_off cm)) (cm_ptag cm) es)"

text \<open>What a commit does not change, besides the caches and the block it writes.\<close>

definition commit_frame :: "'z lfs_geometry_scheme \<Rightarrow> ('d \<Rightarrow> u32 \<Rightarrow> u8 list) \<Rightarrow> 'd lfs \<times> lfs_commit \<Rightarrow> 'd lfs \<times> lfs_commit \<Rightarrow> bool" where
  "commit_frame c V x y \<longleftrightarrow> cm_block (snd y) = cm_block (snd x) \<and> cm_end (snd y) = cm_end (snd x) \<and>
     (\<forall>b. b < cfg_block_count c \<longrightarrow> b \<noteq> cm_block (snd x) \<longrightarrow> V (lfs_dev (fst y)) b = V (lfs_dev (fst x)) b) \<and>
     fst y = (fst x)\<lparr>lfs_pcache := lfs_pcache (fst y), lfs_rcache := lfs_rcache (fst y), lfs_dev := lfs_dev (fst y)\<rparr>"

lemma commit_frame_refl [simp]: "commit_frame c V x x"
  by (simp add: commit_frame_def)

lemma commit_frame_same:
  "commit_frame c V x y \<Longrightarrow> cm_block (snd y) = cm_block (snd x)"
  "commit_frame c V x y \<Longrightarrow> cm_end (snd y) = cm_end (snd x)"
  by (simp_all add: commit_frame_def)

lemma commit_frame_ptag [simp]: "commit_frame c V x (s, cm\<lparr>cm_ptag := t\<rparr>) = commit_frame c V x (s, cm)"
  by (simp add: commit_frame_def)

lemma commit_frame_trans: "commit_frame c V x y \<Longrightarrow> commit_frame c V y z \<Longrightarrow> commit_frame c V x z"
  unfolding commit_frame_def by (cases "fst x"; cases "fst y"; cases "fst z") simp

text \<open>The entries of a commit, from memory.\<close>

fun commit_entries :: "'d lfs_config \<Rightarrow> entry list \<Rightarrow> ('d, unit) commit_cmd" where
  "commit_entries c [] = ret ()"
| "commit_entries c (e # es) = bnd (lfs_dir_commitattr c (fst e) (Buf_Mem (snd e))) (\<lambda>_. commit_entries c es)"

definition entry_sized :: "entry \<Rightarrow> bool" where
  "entry_sized e \<longleftrightarrow> lfs_tag_isvalid (fst e) \<and> unat (lfs_tag_dsize (fst e)) = 4 + length (snd e)"

definition entries_size :: "entry list \<Rightarrow> nat" where
  "entries_size es = sum_list (map (\<lambda>e. 4 + length (snd e)) es)"

text \<open>The log after the entries of a commit, the first one written first.\<close>

fun grow :: "entry list \<Rightarrow> entry list \<Rightarrow> entry list" where
  "grow [] es = es"
| "grow (e # as) es = grow as (e # strip_head es)"

lemma grow_meaning:
  "replay (grow as es) = fold entry_step as (replay es)"
  "deletions (grow as es) = deletions as + deletions es"
  "list_all entry_ok as \<Longrightarrow> list_all entry_ok es \<Longrightarrow> list_all entry_ok (grow as es)"
  by (induction as arbitrary: es) (simp_all add: replay_strip deletions_strip entry_ok_strip)

context block_device begin

text \<open>Bytes at the end of a commit: they are there through the program cache.\<close>

lemma commitprog_ok:
  assumes v: "valid (lfs_dev s)" and b: "cm_block cm < cfg_block_count c"
    and cur: "prog_cursor c (erased (lfs_dev s) (cm_block cm)) (cm_block cm) (cm_off cm) (lfs_pcache s)"
    and rc: "rcache_ok c (contents (lfs_dev s)) False (cm_block cm) (lfs_rcache s)"
    and fit: "unat (cm_off cm) + length data \<le> unat (cfg_block_size c)"
  shows "wp (lfs_dir_commitprog c data) (okp (\<lambda>_ y. commit_frame c contents (s, cm) y \<and> valid (lfs_dev (fst y)) \<and>
      prog_cursor c (erased (lfs_dev (fst y)) (cm_block cm)) (cm_block cm) (cm_off (snd y)) (lfs_pcache (fst y)) \<and>
      rcache_ok c (contents (lfs_dev (fst y))) False (cm_block cm) (lfs_rcache (fst y)) \<and>
      unat (cm_off (snd y)) = unat (cm_off cm) + length data \<and> cm_ptag (snd y) = cm_ptag cm \<and>
      overlay (Some (lfs_pcache (fst y))) (contents (lfs_dev (fst y))) (cm_block cm) =
        patch (overlay (Some (lfs_pcache s)) (contents (lfs_dev s)) (cm_block cm)) (unat (cm_off cm)) data)) (s, cm)"
proof -
  have len: "length data < 4294967296" "unat (cm_off cm) + length data < 4294967296"
    using fit unat_less_u32 [of "cfg_block_size c"] by linarith+
  then have off: "unat (cm_off cm + of_nat (length data)) = unat (cm_off cm) + length data"
    by (subst unat_add_u32) (simp_all add: unat_of_nat_u32)
  show ?thesis
    unfolding lfs_dir_commitprog_def get_commit_def upd_commit_def wp_bnd_gets snd_conv
      wp_bnd [of "on_fst _"] wp_on_fst wp_on_caches wp_modify
    by (rule wp_okp_mono [OF bd_prog_ok [OF v b cur rc fit]]) (auto simp: off commit_frame_def)
qed


lemma length_overlay_cursor:
  assumes "valid d" "b < cfg_block_count c" "prog_cursor c er b off p" "unat off \<le> unat (cfg_block_size c)"
  shows "length (overlay (Some p) (contents d) b) = unat (cfg_block_size c)"
  using assms length_contents [OF assms(1,2)] block_reserved(1) [OF geometry [OF assms(1)] assms(2)]
  by (auto simp: overlay_def prog_cursor_def patch_def)

text \<open>An entry: the log grows by it.\<close>

lemma commitattr_ok:
  assumes v: "valid (lfs_dev s)" and log: "commit_log c (contents (lfs_dev s)) (erased (lfs_dev s) (cm_block cm)) es (s, cm)"
    and e: "entry_sized e" and fit: "unat (cm_off cm) + 4 + length (snd e) \<le> unat (cm_end cm)"
  shows "wp (lfs_dir_commitattr c (fst e) (Buf_Mem (snd e))) (okp (\<lambda>_ y. commit_frame c contents (s, cm) y \<and> valid (lfs_dev (fst y)) \<and>
      commit_log c (contents (lfs_dev (fst y))) (erased (lfs_dev (fst y)) (cm_block cm)) (e # strip_head es) y \<and>
      unat (cm_off (snd y)) = unat (cm_off cm) + 4 + length (snd e))) (s, cm)"
proof -
  let ?b = "cm_block cm" and ?tag = "fst e" and ?data = "snd e"
  let ?w = "u32_bytes (lfs_tobe32 (?tag XOR cm_ptag cm))"
  let ?blk = "\<lambda>y. overlay (Some (lfs_pcache (fst y))) (contents (lfs_dev (fst y))) ?b"
  note cl = log [unfolded commit_log_def Let_def prod.case]
  have b: "?b < cfg_block_count c" and cur: "prog_cursor c (erased (lfs_dev s) ?b) ?b (cm_off cm) (lfs_pcache s)"
    and rc: "rcache_ok c (contents (lfs_dev s)) False ?b (lfs_rcache s)"
    and off: "4 \<le> unat (cm_off cm)" "unat (cm_off cm) \<le> unat (cfg_block_size c)" "unat (cm_end cm) \<le> unat (cfg_block_size c)"
    and lg: "log_on (?blk (s, cm)) (unat (cm_off cm)) (cm_ptag cm) es"
    using cl by simp_all
  have tag: "?tag AND 0x7fffffff = ?tag" "\<not> bit ?tag 31" "unat (lfs_tag_dsize ?tag) = 4 + length ?data"
    using e by (simp_all add: entry_sized_def strip_valid lfs_tag_isvalid_bit)
  have lw: "length ?w = 4" by (simp add: u32_bytes_def)
  have "unat (cm_off cm + lfs_tag_dsize ?tag) = unat (cm_off cm) + 4 + length ?data"
    using fit off tag(3) wf_geometryD(9) [OF geometry [OF v]] by (subst unat_add_u32) simp_all
  then have room: "\<not> cm_end cm < cm_off cm + lfs_tag_dsize ?tag" using fit by (simp add: u32_simps)
  have size: "unat (lfs_tag_dsize ?tag - 4) = length ?data" using tag(3) by (simp add: unat_sub_u32)
  have body: "(if \<not> bit ?tag 31 then
              if lfs_tag_dsize ?tag = 4 then lfs_dir_commitprog c []
              else case Buf_Mem ?data of
                  Buf_Mem bs \<Rightarrow> bnd (mem_read bs 0 (unat (lfs_tag_dsize ?tag - 4))) (lfs_dir_commitprog c)
                | _ \<Rightarrow> stuck Out_Of_Bounds
            else X) = lfs_dir_commitprog c ?data" for X
    using tag(2,3) size by (auto simp: mem_read_def cmd_simps u32_eq)
  have data: "wp (lfs_dir_commitprog c ?data) (okp (\<lambda>_ y. commit_frame c contents (s, cm) y \<and> valid (lfs_dev (fst y)) \<and>
      commit_log c (contents (lfs_dev (fst y))) (erased (lfs_dev (fst y)) ?b) (e # strip_head es) (fst y, (snd y)\<lparr>cm_ptag := ?tag\<rparr>) \<and>
      unat (cm_off (snd y)) = unat (cm_off cm) + 4 + length ?data)) (s1, cm1)"
    if y1: "commit_frame c contents (s, cm) (s1, cm1)" "valid (lfs_dev s1)"
      "prog_cursor c (erased (lfs_dev s1) ?b) ?b (cm_off cm1) (lfs_pcache s1)"
      "rcache_ok c (contents (lfs_dev s1)) False ?b (lfs_rcache s1)"
      "unat (cm_off cm1) = unat (cm_off cm) + 4"
      "?blk (s1, cm1) = patch (?blk (s, cm)) (unat (cm_off cm)) ?w" for s1 cm1
  proof -
    have b1: "cm_block cm1 = ?b" "cm_end cm1 = cm_end cm" using y1(1) by (simp_all add: commit_frame_def)
    have lb: "length (?blk (s, cm)) = unat (cfg_block_size c)"
      using length_overlay_cursor [OF v b cur off(2)] by simp
    have post: "log_on (patch (patch (?blk (s, cm)) (unat (cm_off cm)) ?w) (unat (cm_off cm) + 4) ?data)
        (unat (cm_off cm) + 4 + length ?data) ?tag (e # strip_head es)"
      using log_on_append [OF lg _ tag(3) off(1)] fit off lb e by (simp add: entry_sized_def)
    have fit1: "unat (cm_off cm1) + length ?data \<le> unat (cfg_block_size c)" using y1(5) fit off by simp
    show ?thesis
      by (rule wp_okp_mono [OF commitprog_ok [OF y1(2) _ _ _ fit1, unfolded b1, OF b y1(3,4)]])
        (use post b off y1 fit b1 commit_frame_same [of c contents "(s1, cm1)"] in
          \<open>auto simp: commit_log_def simp del: log_on.simps intro: commit_frame_trans [OF y1(1)]\<close>)
  qed
  have fit4: "unat (cm_off cm) + length ?w \<le> unat (cfg_block_size c)" using fit off lw by simp
  show ?thesis
    unfolding lfs_dir_commitattr_def get_commit_def wp_bnd_gets snd_conv Let_def if_not_P [OF room] body tag(1)
      wp_bnd [of "lfs_dir_commitprog c _"]
    by (rule wp_okp_mono [OF commitprog_ok [OF v b cur rc fit4]])
      (auto simp: lw upd_commit_def wp_modify intro!: wp_okp_mono [OF data])
qed


lemma commit_entries_ok:
  "valid (lfs_dev s) \<Longrightarrow> commit_log c (contents (lfs_dev s)) (erased (lfs_dev s) (cm_block cm)) es (s, cm) \<Longrightarrow>
    list_all entry_sized as \<Longrightarrow> unat (cm_off cm) + entries_size as \<le> unat (cm_end cm) \<Longrightarrow>
    wp (commit_entries c as) (okp (\<lambda>_ y. commit_frame c contents (s, cm) y \<and> valid (lfs_dev (fst y)) \<and>
      commit_log c (contents (lfs_dev (fst y))) (erased (lfs_dev (fst y)) (cm_block cm)) (grow as es) y \<and>
      unat (cm_off (snd y)) = unat (cm_off cm) + entries_size as)) (s, cm)"
proof (induction as arbitrary: s cm es)
  case Nil
  then show ?case by (simp add: wp_ret entries_size_def)
next
  case (Cons e as)
  have size: "entries_size (e # as) = 4 + length (snd e) + entries_size as" by (simp add: entries_size_def)
  have rest: "wp (commit_entries c as) (okp (\<lambda>_ y. commit_frame c contents (s, cm) y \<and> valid (lfs_dev (fst y)) \<and>
      commit_log c (contents (lfs_dev (fst y))) (erased (lfs_dev (fst y)) (cm_block cm)) (grow (e # as) es) y \<and>
      unat (cm_off (snd y)) = unat (cm_off cm) + entries_size (e # as))) (s1, cm1)"
    if y: "commit_frame c contents (s, cm) (s1, cm1)" "valid (lfs_dev s1)"
      "commit_log c (contents (lfs_dev s1)) (erased (lfs_dev s1) (cm_block cm)) (e # strip_head es) (s1, cm1)"
      "unat (cm_off cm1) = unat (cm_off cm) + 4 + length (snd e)" for s1 cm1
  proof -
    have b: "cm_block cm1 = cm_block cm" "cm_end cm1 = cm_end cm" using y(1) by (simp_all add: commit_frame_def)
    show ?thesis
      by (rule wp_okp_mono [OF Cons.IH [of s1 cm1 "e # strip_head es"]])
        (use y b size Cons.prems(3,4) in \<open>auto intro: commit_frame_trans [OF y(1)]\<close>)
  qed
  show ?case
    unfolding commit_entries.simps wp_bnd [of "lfs_dir_commitattr _ _ _"]
    by (rule wp_okp_mono [OF commitattr_ok [OF Cons.prems(1,2)]])
      (use Cons.prems(3,4) size rest in \<open>auto\<close>)
qed

text \<open>A sync brings the log to the device.\<close>

lemma commit_sync_ok:
  assumes v: "valid (lfs_dev s)" and log: "commit_log c (contents (lfs_dev s)) (erased (lfs_dev s) (cm_block cm)) es (s, cm)"
  shows "wp (on_caches (lfs_bd_sync c False)) (okp (\<lambda>_ s'. valid (lfs_dev s') \<and>
      cache_coherent c (contents (lfs_dev s')) (lfs_rcache s') \<and>
      log_on (contents (lfs_dev s') (cm_block cm)) (unat (cm_off cm)) (cm_ptag cm) es \<and>
      (\<forall>b. b < cfg_block_count c \<longrightarrow> b \<noteq> cm_block cm \<longrightarrow> contents (lfs_dev s') b = contents (lfs_dev s) b) \<and>
      s' = s\<lparr>lfs_pcache := lfs_pcache s', lfs_rcache := lfs_rcache s', lfs_dev := lfs_dev s'\<rparr>)) s"
proof -
  let ?b = "cm_block cm"
  have b: "?b < cfg_block_count c" and cur: "prog_cursor c (erased (lfs_dev s) ?b) ?b (cm_off cm) (lfs_pcache s)"
    and r: "length (cache_buffer (lfs_rcache s)) = unat (cfg_cache_size c)"
    and off: "unat (cm_off cm) \<le> unat (cfg_block_size c)"
    and lg: "log_on (overlay (Some (lfs_pcache s)) (contents (lfs_dev s)) ?b) (unat (cm_off cm)) (cm_ptag cm) es"
    using log by (simp_all add: commit_log_def Let_def rcache_ok_def cache_coherent_def cache_inside_def)
  have "log_on (contents d' ?b) (unat (cm_off cm)) (cm_ptag cm) es"
    if "valid d'" "take (unat (cm_off cm)) (contents d' ?b) =
      take (unat (cm_off cm)) (overlay (Some (lfs_pcache s)) (contents (lfs_dev s)) ?b)" for d'
    by (rule log_on_cong [OF lg that(2)]) (use off length_contents [OF that(1) b] in simp)
  then show ?thesis
    unfolding wp_on_caches
    by (intro wp_okp_mono [OF bd_sync_ok [OF v b cur r off]]) auto
qed


text \<open>Writing entries, a sync, and a lookup with the end of the commit.\<close>

lemma commit_then_get:
  assumes v: "valid (lfs_dev s)" and log: "commit_log c (contents (lfs_dev s)) (erased (lfs_dev s) (cm_block cm)) es (s, cm)"
    and as: "list_all entry_sized as" "list_all entry_ok as" "list_all entry_ok es"
    and fit: "unat (cm_off cm) + entries_size as \<le> unat (cm_end cm)"
    and dir: "fst (md_pair dir) = cm_block cm" "\<not> lfs_gstate_hasmovehere (lfs_gdisk s) (md_pair dir)"
    and t: "unat t < 2048" "unat i < 1024" "unat n < 1024" "unat m < 2048"
    and mask: "m AND 0x700 = 0x700" "t AND 0x700 \<noteq> LFS_TYPE_SPLICE" "t AND 0x700 \<noteq> LFS_TYPE_CRC"
    and ids: "unat i + deletions as + deletions es < 1024"
  shows "\<exists>s1 cm1 s2 s3. commit_entries c as (s, cm) = (Ok (), (s1, cm1)) \<and>
    unat (cm_off cm1) = unat (cm_off cm) + entries_size as \<and>
    on_caches (lfs_bd_sync c False) s1 = (Ok (), s2) \<and>
    (\<forall>b. b < cfg_block_count c \<longrightarrow> b \<noteq> cm_block cm \<longrightarrow> contents (lfs_dev s2) b = contents (lfs_dev s) b) \<and>
    lfs_dir_get c (dir\<lparr>md_off := cm_off cm1, md_etag := cm_ptag cm1\<rparr>) (LFS_MKTAG m 0x3ff 0) (LFS_MKTAG t i n) s2 =
      (lookup_result i n (find_attr m t (fold entry_step as (replay es) (unat i))), s3)"
proof -
  obtain s1 cm1 where c1: "commit_entries c as (s, cm) = (Ok (), (s1, cm1))" "commit_frame c contents (s, cm) (s1, cm1)"
      "valid (lfs_dev s1)" "commit_log c (contents (lfs_dev s1)) (erased (lfs_dev s1) (cm_block cm)) (grow as es) (s1, cm1)"
      "unat (cm_off cm1) = unat (cm_off cm) + entries_size as"
    using wp_okpD [OF commit_entries_ok [OF v log as(1) fit]] by auto
  have b: "cm_block cm1 = cm_block cm" using c1(2) by (simp add: commit_frame_def)
  obtain s2 where c2: "on_caches (lfs_bd_sync c False) s1 = (Ok (), s2)" "valid (lfs_dev s2)"
      "cache_coherent c (contents (lfs_dev s2)) (lfs_rcache s2)"
      "log_on (contents (lfs_dev s2) (cm_block cm)) (unat (cm_off cm1)) (cm_ptag cm1) (grow as es)"
      "\<forall>b. b < cfg_block_count c \<longrightarrow> b \<noteq> cm_block cm \<longrightarrow> contents (lfs_dev s2) b = contents (lfs_dev s1) b"
      "s2 = s1\<lparr>lfs_pcache := lfs_pcache s2, lfs_rcache := lfs_rcache s2, lfs_dev := lfs_dev s2\<rparr>"
    using wp_okpD [OF commit_sync_ok [OF c1(3), of cm1 "grow as es"]] c1(4) b by auto
  let ?dir = "dir\<lparr>md_off := cm_off cm1, md_etag := cm_ptag cm1\<rparr>"
  have "lfs_gdisk s2 = lfs_gdisk s1"
    by (subst c2(6)) simp
  moreover have "s1 = s\<lparr>lfs_pcache := lfs_pcache s1, lfs_rcache := lfs_rcache s1, lfs_dev := lfs_dev s1\<rparr>"
    using c1(2) by (simp add: commit_frame_def)
  then have "lfs_gdisk s1 = lfs_gdisk s" by (metis lfs.select_convs(7) lfs.surjective lfs.update_convs(1,2,14))
  ultimately have pend: "with_pending (lfs_gdisk s2) (md_pair ?dir) (grow as es) = grow as es"
    using dir(2) by (simp add: with_pending_def)
  have blk: "fst (md_pair ?dir) < cfg_block_count c" using log dir(1) by (simp add: commit_log_def Let_def)
  have "wp (lfs_dir_get c ?dir (LFS_MKTAG m 0x3ff 0) (LFS_MKTAG t i n))
      (\<lambda>r s'. r = lookup_result i n (find_attr m t (replay (grow as es) (unat i))) \<and>
        read_state c (contents (lfs_dev s2)) s2 s') s2"
    using lfs_dir_get_ok [OF c2(2) blk c2(3) _ grow_meaning(3) [OF as(2,3)] t mask]
    unfolding pend by (rule _) (use c2(4) dir(1) ids in \<open>simp_all add: grow_meaning(2)\<close>)
  then obtain s3 where "lfs_dir_get c ?dir (LFS_MKTAG m 0x3ff 0) (LFS_MKTAG t i n) s2 =
      (lookup_result i n (find_attr m t (fold entry_step as (replay es) (unat i))), s3)"
    unfolding grow_meaning(1) by (auto simp: wp_def split: prod.splits)
  moreover have "\<forall>b. b < cfg_block_count c \<longrightarrow> b \<noteq> cm_block cm \<longrightarrow> contents (lfs_dev s2) b = contents (lfs_dev s) b"
    using c2(5) c1(2) by (simp add: commit_frame_def)
  ultimately show ?thesis using c1(1,5) c2(1) by blast
qed

end

end
