(* ===== verification/Spec2Isabelle.thy ===== *)
theory Spec2Isabelle
  imports LFS_Demo LFS_Calls LFS_Truncate LFS_Append
begin

text \<open>
  The program.  The repository wasabio puts the C file system littlefs (version 2.5) behind a
  WebAssembly module.  Modelled is its C code: \<^verbatim>\<open>src/src/lfs/lfs.c\<close>, \<^verbatim>\<open>lfs.h\<close>,
  \<^verbatim>\<open>lfs_util.c\<close>, \<^verbatim>\<open>lfs_util.h\<close> (the library), \<^verbatim>\<open>src/src/lfs-rambd\<close> (a block device in
  memory) and \<^verbatim>\<open>src/src/lfs-sys\<close> (the layer that the other languages call).  The build is that of
  the repository: 32-bit words, compiler builtins, \<^verbatim>\<open>LFS_THREADSAFE\<close>, assertions on, neither
  \<^verbatim>\<open>LFS_READONLY\<close> nor \<^verbatim>\<open>LFS_MIGRATE\<close>.

  How the parts interact.  A block device offers read, program, erase and sync through function
  pointers of the configuration (\<^verbatim>\<open>LFS_Types\<close>, the locale \<open>block_device\<close> with the laws that the
  library relies on; \<^verbatim>\<open>LFS_Rambd\<close> interprets it).  Two caches sit on top of it (\<^verbatim>\<open>LFS_Bd\<close>).  On
  these work metadata pairs, logs of tagged entries in two alternating blocks (\<^verbatim>\<open>LFS_Tag\<close>,
  \<^verbatim>\<open>LFS_Mdir\<close>, \<^verbatim>\<open>LFS_Traverse\<close>, \<^verbatim>\<open>LFS_Commit\<close>, \<^verbatim>\<open>LFS_Compact\<close>), file contents, backward
  skip lists of blocks (\<^verbatim>\<open>LFS_Ctz\<close>, \<^verbatim>\<open>LFS_Extend\<close>), and the block allocator, which walks over both
  to find free blocks (\<^verbatim>\<open>LFS_Alloc\<close>).  The list of all pairs, the pending move and the count of
  orphans are repaired by \<^verbatim>\<open>LFS_Fs\<close> and \<^verbatim>\<open>LFS_Consistency\<close>.  Files, directories, paths and
  mounting (\<^verbatim>\<open>LFS_File\<close>, \<^verbatim>\<open>LFS_Files\<close>, \<^verbatim>\<open>LFS_Dirs\<close>, \<^verbatim>\<open>LFS_Path\<close>, \<^verbatim>\<open>LFS_Mount\<close>) use all
  of this; \<^verbatim>\<open>LFS_Api\<close> wraps them with the locks and the assertions on open objects, and \<^verbatim>\<open>LFS_Sys\<close>
  is the caller.

  Conventions (\<^verbatim>\<open>LFS_Prelude\<close>).  A C function that works on a state is a command \<open>('s, 'a) cmd\<close>
  with outcome \<open>Ok\<close> (a value), \<open>Err\<close> (a negative code) or \<open>Fault\<close> (a failing assertion, an access
  outside a buffer, a signed overflow, a loop that uses up its fuel); the state survives an error, as
  memory does.  Commands are combined by \<open>bnd\<close>, \<open>attempt\<close>, \<open>handle\<close> and run on parts of the state
  by \<open>zoom\<close>; \<open>wp\<close> is the weakest precondition.  Out-parameters are results; where C writes them also
  on an error they are returned with the error.  Integers keep their width and wrap.

  State.  \<^verbatim>\<open>lfs_t\<close> is the record \<open>lfs\<close> of \<^verbatim>\<open>LFS_State\<close>, with the device behind it as the field
  \<open>lfs_dev\<close>.  Objects that C links into \<^verbatim>\<open>lfs->mlist\<close> live in a store \<open>lfs_objs\<close> under references, so
  that an open file, its entry in the list and a local variable that a function links into the list
  are one object (aliasing matters when a commit repairs the open objects).  A commit in progress and
  the data of callbacks are an extra component of the state.

  Theories and code: \<^verbatim>\<open>LFS_Util\<close> and \<^verbatim>\<open>LFS_Crc\<close> (\<^verbatim>\<open>lfs_util\<close>); \<^verbatim>\<open>LFS_Types\<close> (\<^verbatim>\<open>lfs.h\<close>);
  \<^verbatim>\<open>LFS_Rambd\<close> (\<^verbatim>\<open>lfs_rambd.c\<close>); \<^verbatim>\<open>LFS_Bd\<close> (\<^verbatim>\<open>lfs_cache_drop\<close> to \<^verbatim>\<open>lfs_bd_erase\<close>);
  \<^verbatim>\<open>LFS_Tag\<close>, \<^verbatim>\<open>LFS_State\<close> (pairs, tags, global state, lists); \<^verbatim>\<open>LFS_Mdir\<close> (\<^verbatim>\<open>lfs_dir_getslice\<close>
  to \<^verbatim>\<open>lfs_dir_getinfo\<close>); \<^verbatim>\<open>LFS_Path\<close> (\<^verbatim>\<open>lfs_dir_find\<close>); \<^verbatim>\<open>LFS_Traverse\<close> (\<^verbatim>\<open>lfs_dir_traverse\<close>,
  the loop with its array of frames as a machine with one step per turn); \<^verbatim>\<open>LFS_Commit\<close>,
  \<^verbatim>\<open>LFS_Compact\<close> (\<^verbatim>\<open>lfs_dir_commitprog\<close> to \<^verbatim>\<open>lfs_dir_orphaningcommit\<close>); \<^verbatim>\<open>LFS_Ctz\<close>,
  \<^verbatim>\<open>LFS_Extend\<close> (\<^verbatim>\<open>lfs_ctz_index\<close> to \<^verbatim>\<open>lfs_ctz_traverse\<close>); \<^verbatim>\<open>LFS_Alloc\<close>
  (\<^verbatim>\<open>lfs_alloc_lookahead\<close> to \<^verbatim>\<open>lfs_alloc\<close>, \<^verbatim>\<open>lfs_fs_rawtraverse\<close>, \<^verbatim>\<open>lfs_fs_rawsize\<close>);
  \<^verbatim>\<open>LFS_Fs\<close>, \<^verbatim>\<open>LFS_Consistency\<close> (\<^verbatim>\<open>lfs_fs_pred\<close> to \<^verbatim>\<open>lfs_fs_forceconsistency\<close>,
  \<^verbatim>\<open>lfs_dir_commit\<close>, \<^verbatim>\<open>lfs_dir_drop\<close>); \<^verbatim>\<open>LFS_Dirs\<close>, \<^verbatim>\<open>LFS_File\<close>, \<^verbatim>\<open>LFS_Files\<close>,
  \<^verbatim>\<open>LFS_Mount\<close> (the functions named \<^verbatim>\<open>raw\<close>); \<^verbatim>\<open>LFS_Api\<close> (the public functions);
  \<^verbatim>\<open>LFS_Sys\<close> (\<^verbatim>\<open>lfs_sys.c\<close>).

  Lemma groups.  \<^verbatim>\<open>LFS_Bd\<close>: the read cache stays coherent and reads return the contents of the
  block with the program cache laid over it; programs followed by a sync reach the device.
  \<^verbatim>\<open>LFS_Crc\<close>: the table-driven checksum is the bitwise CRC-32, its residue and burst detection.
  \<^verbatim>\<open>LFS_Ctz\<close>: the closed index formula against the layout of a skip list, search and traversal.
  \<^verbatim>\<open>LFS_Path\<close>: resolution of paths against a stack of names.  \<^verbatim>\<open>LFS_Alloc_Props\<close>: the lookahead
  buffer as a queue of blocks, kept by marks and refills; \<^verbatim>\<open>LFS_Frame\<close> relates runs from related
  states for it.  \<^verbatim>\<open>LFS_Steady\<close>, \<^verbatim>\<open>LFS_Reads\<close>, \<^verbatim>\<open>LFS_Safe\<close>: the operations that read metadata
  end without a fault on arbitrary disks and depend on their contents only (the locales
  \<open>steady_frame\<close> and \<open>readable_device\<close>, the latter interpreted on the RAM device).  \<^verbatim>\<open>LFS_Log\<close>:
  the machine of the metadata traversal and the writer of commits.  \<^verbatim>\<open>LFS_Session\<close>: which part of
  the state every operation leaves as it was, above all the list of open objects, through commits and
  their repairs; \<^verbatim>\<open>LFS_Calls\<close>: the calls as one datatype and the sequences of calls of a session, so
  that the list implements a table of handles.  \<^verbatim>\<open>LFS_Reader\<close>: the bytes of a skip list as one stream,
  and reading a file as reading from it; \<^verbatim>\<open>LFS_Inline\<close>: a file whose data is in its buffer as an array of
  bytes with a position.  \<^verbatim>\<open>LFS_Lookup\<close>: the meaning of a metadata log, an array of attribute lists built
  by playing its entries, and the backward lookup of the code against it; \<^verbatim>\<open>LFS_Append\<close>: commits as
  the appending of entries to such a log.  \<^verbatim>\<open>LFS_Truncate\<close>: a file that is cut, as the stream of
  its remaining blocks.  \<^verbatim>\<open>LFS_Examples\<close>,
  \<^verbatim>\<open>LFS_Demo\<close>: concrete disks on which the theorems of this theory are evaluated.

  Fuel.  Loops that C bounds by data get fuel that covers the bound: a read at most two turns per byte
  (every second turn moves on), a scan of a block one turn per tag, which has at least 4 bytes; the
  walk along the list of pairs half as many turns as there are blocks, where the code stops with
  \<^verbatim>\<open>LFS_ERR_CORRUPT\<close>; the allocator one round per window, each with at least one of the blocks that
  are not acknowledged.  For these the lemmas show that the fuel is never used up (the outcome is no
  \<open>Fault\<close>).  Loops that the code does not bound (hard tails in \<^verbatim>\<open>lfs_dir_find\<close>, passes of
  \<^verbatim>\<open>lfs_fs_deorphan\<close>, relocation after bad blocks) get a fuel that is enough on disks without a cycle;
  on a cycle the code does not end and the model is a \<open>Fault\<close>.

  Not modelled.  The version 1 migration, which the build leaves out; \<^verbatim>\<open>malloc\<close> and \<^verbatim>\<open>free\<close>, so no
  \<^verbatim>\<open>LFS_ERR_NOMEM\<close> and none of the functions that only free; trace output; the static buffers of the
  configuration; the functions of \<^verbatim>\<open>lfs_sys\<close> that only hand addresses to the host; the Rust and
  TypeScript layers, which are other languages.
\<close>

section \<open>The block-device layer\<close>

text \<open>C1: reading a region inside a block, with any state of the two caches that they can be in,
  returns what the block holds with the program cache laid over it; the device is not changed and
  the read cache stays coherent with it.  The loop ends: it never runs out of its fuel.\<close>

theorem bd_read_returns_contents:
  assumes "rambd_valid g d" and "b < cfg_block_count g"
    and "0 < unat sz \<Longrightarrow> 0 < unat hint" and "unat hint \<le> unat (cfg_block_size g)"
    and "\<And>p. pcache = Some p \<Longrightarrow> cache_inside (rambd_config g) p"
    and "cache_coherent (rambd_config g) (rambd_contents g d) r"
    and "unat off + unat sz \<le> unat (cfg_block_size g)"
  shows "\<exists>r'. lfs_bd_read (rambd_config g) pcache hint b off sz (r, d) =
       (Ok (seg (overlay pcache (rambd_contents g d) b) (unat off) (unat sz)), (r', d)) \<and>
     cache_coherent (rambd_config g) (rambd_contents g d) r'"
proof -
  have "wp (lfs_bd_read (rambd_config g) pcache hint b off sz)
      (okp (\<lambda>xs (r', d'). d' = d \<and> cache_coherent (rambd_config g) (rambd_contents g d) r' \<and>
        xs = seg (overlay pcache (rambd_contents g d) b) (unat off) (unat sz))) (r, d)"
    by (rule rambd.bd_read_ok) (use assms in simp_all)
  from wp_okpD [OF this] show ?thesis by auto
qed

theorem bd_read_returns_contents_witness:
  "\<exists>r'. lfs_bd_read (rambd_config demo_geometry) None 16 1 6 5 (demo_cache, demo_device) =
     (Ok [134, 135, 136, 137, 138], (r', demo_device))"
  using bd_read_returns_contents [of demo_geometry demo_device 1 5 16 None demo_cache 6]
  by (auto simp: overlay_def demo_contents seg_def take_map drop_map upt_rec)

text \<open>C2: bytes programmed at the cursor of a block and synced are on the device, every other
  block is as before, and a read that bypasses the program cache returns them.\<close>

theorem bd_prog_sync_read_back:
  assumes "rambd_valid g d" and "b < cfg_block_count g"
    and "prog_cursor (rambd_config g) (rambd_erased g d b) b off p"
    and "rcache_ok (rambd_config g) (rambd_contents g d) validate b r"
    and "unat off + length data \<le> unat (cfg_block_size g)"
    and "unat (cfg_read_size g) dvd unat (cfg_prog_size g)"
    and "0 < unat hint" and "unat hint \<le> unat (cfg_block_size g)"
  shows "\<exists>s p' r' d' r''.
     lfs_bd_prog (rambd_config g) validate b off data (p, r, d) = (Ok (), s) \<and>
     lfs_bd_sync (rambd_config g) validate s = (Ok (), (p', r', d')) \<and>
     seg (rambd_contents g d' b) (unat off) (length data) = data \<and>
     (\<forall>b'. b' < cfg_block_count g \<longrightarrow> b' \<noteq> b \<longrightarrow> rambd_contents g d' b' = rambd_contents g d b') \<and>
     lfs_bd_read (rambd_config g) None hint b off (of_nat (length data)) (r', d') =
       (Ok data, (r'', d'))"
  using rambd.bd_prog_sync_read [of g d b off p validate r data hint] assms by simp

theorem bd_prog_sync_read_back_witness:
  "\<exists>s p' r' d' r''.
     lfs_bd_prog (rambd_config demo_geometry) True 2 0 [9, 8, 7] (demo_cache, demo_cache, demo_device) =
       (Ok (), s) \<and>
     lfs_bd_sync (rambd_config demo_geometry) True s = (Ok (), (p', r', d')) \<and>
     lfs_bd_read (rambd_config demo_geometry) None 16 2 0 3 (r', d') = (Ok [9, 8, 7], (r'', d'))"
  using bd_prog_sync_read_back [of demo_geometry demo_device 2 0 demo_cache True demo_cache "[9, 8, 7]" 16]
  by (fastforce simp: LFS_BLOCK_NULL_def)

text \<open>C3: before any flush the program cache already answers for the bytes: a read through it
  returns what was programmed.\<close>

theorem bd_prog_read_through:
  assumes "rambd_valid g d" and "b < cfg_block_count g"
    and "prog_cursor (rambd_config g) (rambd_erased g d b) b off p"
    and "rcache_ok (rambd_config g) (rambd_contents g d) validate b r"
    and "unat off + length data \<le> unat (cfg_block_size g)"
    and "unat (cfg_read_size g) dvd unat (cfg_prog_size g)"
    and "0 < unat hint" and "unat hint \<le> unat (cfg_block_size g)"
  shows "\<exists>p' r' d' r''.
     lfs_bd_prog (rambd_config g) validate b off data (p, r, d) = (Ok (), (p', r', d')) \<and>
     lfs_bd_read (rambd_config g) (Some p') hint b off (of_nat (length data)) (r', d') =
       (Ok data, (r'', d'))"
  using rambd.bd_prog_read [of g d b off p validate r data hint] assms by simp

theorem bd_prog_read_through_witness:
  "\<exists>p' r' d' r''.
     lfs_bd_prog (rambd_config demo_geometry) False 2 4 [9, 8] (demo_cache, demo_cache, demo_device) =
       (Ok (), (p', r', d')) \<and>
     lfs_bd_read (rambd_config demo_geometry) (Some p') 16 2 4 2 (r', d') = (Ok [9, 8], (r'', d'))"
  using bd_prog_read_through [of demo_geometry demo_device 2 4 demo_cache False demo_cache "[9, 8]" 16]
  by (fastforce simp: LFS_BLOCK_NULL_def)

text \<open>C4: comparing a region with a buffer gives the \<open>memcmp\<close> of the bytes that the region holds
  and the buffer.\<close>

theorem bd_cmp_is_memcmp:
  assumes "rambd_valid g d" and "b < cfg_block_count g"
    and "unat sz \<le> unat hint" and "unat hint \<le> unat (cfg_block_size g)"
    and "unat off + unat sz \<le> unat (cfg_block_size g)" and "unat sz \<le> length data"
    and "cache_coherent (rambd_config g) (rambd_contents g d) r"
  shows "\<exists>r'. lfs_bd_cmp (rambd_config g) None hint b off data sz (r, d) =
     (Ok (memcmp (seg (rambd_contents g d b) (unat off) (unat sz)) (take (unat sz) data)), (r', d))"
proof -
  have "wp (lfs_bd_cmp (rambd_config g) None hint b off data sz)
      (okp (\<lambda>res (r', d'). d' = d \<and> cache_coherent (rambd_config g) (rambd_contents g d) r' \<and>
        res = memcmp (seg (overlay None (rambd_contents g d) b) (unat off) (unat sz))
                (seg data 0 (unat sz)))) (r, d)"
    by (rule rambd.bd_cmp_ok) (use assms in simp_all)
  from wp_okpD [OF this] show ?thesis by (auto simp: overlay_def seg_def)
qed

theorem bd_cmp_is_memcmp_witness:
  "\<exists>r'. lfs_bd_cmp (rambd_config demo_geometry) None 16 1 6 [134, 136] 2 (demo_cache, demo_device) =
     (Ok LFS_CMP_LT, (r', demo_device))"
  using bd_cmp_is_memcmp [of demo_geometry demo_device 1 2 16 6 "[134, 136]" demo_cache]
  by (auto simp: demo_contents seg_def take_map drop_map upt_rec)

text \<open>C5: when the device fails a read that goes through the read cache, the cache keeps a claim
  on the region: the same read, tried again, succeeds and returns the old bytes of the buffer.\<close>

theorem bd_read_stale_after_failure:
  assumes "b < cfg_block_count c" and "\<not> cfg_block_size c < off + sz" and "sz \<noteq> 0"
    and "cache_block r \<noteq> b"
    and "\<not> (hint \<le> sz \<and> off mod cfg_read_size c = 0 \<and> cfg_read_size c \<le> sz)"
    and "roff = lfs_aligndown off (cfg_read_size c)"
    and "rsize = lfs_min (lfs_min (lfs_alignup (off + hint) (cfg_read_size c)) (cfg_block_size c) - roff)
                         (cfg_cache_size c)"
    and "unat off + unat sz \<le> unat roff + unat rsize" and "unat roff + unat rsize < 4294967296"
    and "unat rsize \<le> length (cache_buffer r)"
    and "cfg_read c b roff rsize d = (Err e, d')"
  shows "\<exists>r'. lfs_bd_read c None hint b off sz (r, d) = (Err e, (r', d')) \<and>
     lfs_bd_read c None hint b off sz (r', d') =
       (Ok (seg (cache_buffer r) (unat off - unat roff) (unat sz)), (r', d'))"
  using bd_read_stale_after_error [OF assms] by blast

theorem bd_read_stale_after_failure_witness:
  "\<exists>r'. lfs_bd_read (broken_config demo_geometry) None 16 1 0 4 (demo_cache, ()) =
       (Err LFS_ERR_IO, (r', ())) \<and>
     lfs_bd_read (broken_config demo_geometry) None 16 1 0 4 (r', ()) =
       (Ok [255, 255, 255, 255], (r', ()))"
  using bd_read_stale_after_failure [of 1 "broken_config demo_geometry" 0 4 demo_cache 16 0 16 "()"
      LFS_ERR_IO "()"]
  by (simp add: broken_region demo_cache_replicate)

section \<open>The index of a file\<close>

text \<open>C6: for a block size that leaves room for the pointers, the closed formula of
  \<^const>\<open>lfs_ctz_index\<close> gives the block whose range contains the position, where the ranges are
  those of blocks that start with their skip-list pointers; the offset is that of the byte in the
  block.\<close>

theorem ctz_index_is_layout:
  assumes "ctz_fits (unat (cfg_block_size c)) (unat sz)" and "lfs_ctz_index c sz = (i, off)"
  shows "ctz_start (unat (cfg_block_size c)) (unat i) \<le> unat sz \<and>
     unat sz < ctz_start (unat (cfg_block_size c)) (unat i + 1) \<and>
     unat off = unat sz - ctz_start (unat (cfg_block_size c)) (unat i) + 4 * ctz_ptrs (unat i) \<and>
     unat off < unat (cfg_block_size c)"
  using lfs_ctz_index_ok [OF assms] by blast

theorem ctz_index_is_layout_witness:
  "ctz_start 128 1 \<le> 199 \<and> (199 :: nat) < ctz_start 128 2 \<and>
     (75 :: nat) = 199 - ctz_start 128 1 + 4 * ctz_ptrs 1"
  using ctz_index_is_layout [of demo_geometry 199 1 75, OF ctz_fits_128]
  by (simp add: ctz_start.simps del: ctz_start.simps)

text \<open>C7: searching a position of a file whose list is on the device ends at the block that holds
  it, with its offset in that block.\<close>

theorem ctz_find_finds:
  assumes "rambd_valid g d" and "\<And>p. pcache = Some p \<Longrightarrow> cache_inside (rambd_config g) p"
    and "cache_coherent (rambd_config g) (rambd_contents g d) r"
    and "ctz_list (rambd_config g) (overlay pcache (rambd_contents g d)) blk n"
    and "ctz_fits (unat (cfg_block_size g)) (unat sz - 1)"
    and "0 < unat sz" and "unat pos < unat sz"
    and "n = unat (fst (lfs_ctz_index (rambd_config g) (sz - 1)))"
  shows "\<exists>m off r'. lfs_ctz_find (rambd_config g) pcache (blk n) sz pos (r, d) =
       (Ok (blk m, off), (r', d)) \<and> m \<le> n \<and>
     ctz_start (unat (cfg_block_size g)) m \<le> unat pos \<and>
     unat pos < ctz_start (unat (cfg_block_size g)) (m + 1) \<and>
     unat off = unat pos - ctz_start (unat (cfg_block_size g)) m + 4 * ctz_ptrs m"
proof -
  have "wp (lfs_ctz_find (rambd_config g) pcache (blk n) sz pos)
      (okp (\<lambda>(b, off) (r', d'). d' = d \<and> cache_coherent (rambd_config g) (rambd_contents g d) r' \<and>
         (\<exists>m \<le> n. b = blk m \<and> ctz_start (unat (cfg_block_size (rambd_config g))) m \<le> unat pos \<and>
            unat pos < ctz_start (unat (cfg_block_size (rambd_config g))) (m + 1) \<and>
            unat off = unat pos - ctz_start (unat (cfg_block_size (rambd_config g))) m + 4 * ctz_ptrs m \<and>
            unat off < unat (cfg_block_size (rambd_config g))))) (r, d)"
    by (rule rambd.ctz_find_ok [where lst = n]) (use assms in simp_all)
  from wp_okpD [OF this] show ?thesis by (fastforce simp del: ctz_start.simps)
qed

theorem ctz_find_finds_witness:
  "\<exists>m off r'. lfs_ctz_find (rambd_config demo_geometry) None 2 200 150 (demo_cache, demo_list_device) =
       (Ok (demo_blocks m, off), (r', demo_list_device)) \<and> m \<le> 1 \<and> ctz_start 128 m \<le> 150 \<and>
     150 < ctz_start 128 (m + 1) \<and> unat off = 150 - ctz_start 128 m + 4 * ctz_ptrs m"
  using ctz_find_finds [of demo_geometry demo_list_device None demo_cache demo_blocks 1 200 150]
  by (simp add: overlay_None ctz_fits_128 del: ctz_start.simps)

text \<open>C8: a traversal of a list on the device calls its callback on every block of the list, each
  once, from the last to the first, for every callback that leaves the read cache and the device
  alone; only the read cache changes besides.\<close>

theorem ctz_traverse_visits_all:
  assumes "rambd_valid g (lfs_dev (fst y))"
    and "\<And>p. pcache = Some p \<Longrightarrow> cache_inside (rambd_config g) p" and "visits cb h"
    and "ctz_list (rambd_config g) (overlay pcache (rambd_contents g (lfs_dev (fst y)))) blk n"
    and "cache_coherent (rambd_config g) (rambd_contents g (lfs_dev (fst y))) (lfs_rcache (fst y))"
    and "0 < unat sz" and "n = unat (fst (lfs_ctz_index (rambd_config g) (sz - 1)))"
  shows "\<exists>r. lfs_ctz_traverse (rambd_config g) pcache (blk n) sz cb y =
     (Ok (), put_rcache r (fold h (map blk (rev [0..<Suc n])) y))"
proof -
  have "wp (lfs_ctz_traverse (rambd_config g) pcache (blk n) sz cb)
      (okp (\<lambda>_ y'. \<exists>r. cache_coherent (rambd_config g) (rambd_contents g (lfs_dev (fst y))) r \<and>
         y' = put_rcache r (fold h (ctz_blocks blk n) y))) y"
    by (rule rambd.ctz_traverse_ok [where lst = n]) (use assms in simp_all)
  from wp_okpD [OF this] show ?thesis unfolding ctz_blocks_def by auto
qed

theorem ctz_traverse_visits_all_witness:
  "\<exists>s. lfs_ctz_traverse (rambd_config demo_geometry) None 2 200 (collect_cb :: u32 \<Rightarrow> _)
     (demo_lfs demo_list_device, []) = (Ok (), (s, [2, 1]))"
  using ctz_traverse_visits_all [of demo_geometry "(demo_lfs demo_list_device, [])" None collect_cb
      collect demo_blocks 1 200]
  by (auto simp: put_rcache_def collect_def upt_rec)

text \<open>C9: with a block size of 104 bytes, which the assertions of \<^verbatim>\<open>lfs_init\<close> accept, the formula
  is wrong for a position of a file of 805 MB: it gives the block before the right one, and an
  offset that is outside the block.\<close>

theorem ctz_index_wrong_at_104:
  assumes "cfg_block_size c = 104"
  shows "4 * lfs_npw2 (0xffffffff div (cfg_block_size c - 2 * 4)) \<le> cfg_block_size c \<and>
     lfs_ctz_index c 805306368 = (8388606, 104) \<and>
     ctz_start (unat (cfg_block_size c)) 8388607 \<le> 805306368"
proof -
  have ptrs: "4 * ctz_ptrs i \<le> 104" if "i < 8388607" for i
  proof (cases "i = 0")
    case False
    then have "ctz_ptrs i \<le> bitlen i" by (simp add: ctz_ptrs_le)
    moreover have "bitlen i \<le> 23" using that by (intro bitlen_less) simp
    ultimately show ?thesis by linarith
  qed (simp add: ctz_ptrs_def)
  have start: "ctz_start 104 8388607 = 805306368"
    using ctz_start_eq [of 8388607 104] ptrs by (simp add: pc_even pc_odd)
  have "lfs_npw2 44739242 = 26" by (simp add: u32_eq unat_lfs_npw2 bitlen_pos)
  moreover have "lfs_popc 8388607 = 23" "lfs_popc 8388606 = 22"
    by (simp_all add: u32_eq unat_lfs_popc pc_even pc_odd)
  ultimately show ?thesis
    using assms start by (simp add: lfs_ctz_index_def Let_def del: ctz_start.simps)
qed

theorem ctz_index_wrong_at_104_witness:
  "lfs_ctz_index (demo_geometry\<lparr>cfg_block_size := 104\<rparr>) 805306368 = (8388606, 104)"
  using ctz_index_wrong_at_104 [of "demo_geometry\<lparr>cfg_block_size := 104\<rparr>"] by simp

section \<open>Paths\<close>

text \<open>C10: without \<open>.\<close> components, the names that the resolution of a path looks up are those that
  remain when every name that is followed by its \<open>..\<close> is removed with it, and a \<open>..\<close> above the
  root is dropped: the result of pushing the names on a stack.\<close>

theorem path_lookups_is_stack:
  assumes "[dot] \<notin> set (components p)"
  shows "path_lookups p = rev (fold path_step (components p) [])"
  using assms by (rule path_lookups_spec)

theorem path_lookups_is_stack_witness:
  "path_lookups [0x61, 0x2f, 0x62, 0x2f, 0x2e, 0x2e, 0x2f, 0x63] = [[0x61], [0x63]]"
  using path_lookups_is_stack [of "[0x61, 0x2f, 0x62, 0x2f, 0x2e, 0x2e, 0x2f, 0x63]"]
  by (simp add: path_eval path_step_def)


section \<open>Checksum, byte order, bit tricks\<close>

text \<open>C12: the table-driven checksum is the bitwise CRC-32 with the reflected polynomial
  \<^verbatim>\<open>0xedb88320\<close>.\<close>

theorem crc_is_reference: "lfs_crc c bs = crc_reference c bs"
  by (rule lfs_crc_reference)

text \<open>C13: the checksum of a commit detects every error burst of up to four bytes, wherever it is
  in the data.\<close>

theorem crc_detects_bursts:
  assumes "length bs = length bs'" and "length bs \<le> 4" and "bs \<noteq> bs'"
  shows "lfs_crc c (xs @ bs @ ys) \<noteq> lfs_crc c (xs @ bs' @ ys)"
  using assms by (rule lfs_crc_burst)

theorem crc_detects_bursts_witness:
  "lfs_crc 0xffffffff [1, 2, 3, 4] \<noteq> lfs_crc 0xffffffff [1, 9, 8, 4]"
  using crc_detects_bursts [where bs = "[2, 3]" and bs' = "[9, 8]" and c = "0xffffffff" and xs = "[1]"
      and ys = "[4]"] by (simp del: lfs_crc.simps)

text \<open>C14: appending the checksum to the data in little-endian order brings the checksum to zero,
  whatever the data.\<close>

theorem crc_residue: "lfs_crc c (bs @ u32_bytes (lfs_tole32 (lfs_crc c bs))) = 0"
  by (simp add: lfs_crc_append lfs_tole32_def lfs_fromle32_def lfs_crc_own)

text \<open>C15: the portable versions of the bit functions agree with those on the compiler builtins,
  for every argument but the one where they are documented not to (\<open>lfs_ctz 0\<close>), and
  \<open>lfs_npw2 1\<close>.\<close>

theorem bit_functions_agree:
  assumes "a \<noteq> 0" and "a \<noteq> 1"
  shows "lfs_npw2_portable a = lfs_npw2 a \<and> lfs_ctz_portable a = lfs_ctz a \<and>
     unat (lfs_npw2 a) = bitlen (unat a - 1)"
  using assms lfs_npw2_portable_eq [of a] lfs_ctz_portable_eq [of a] unat_lfs_npw2 [of a]
  by (simp add: unat_sub_u32 unat_gt_0 Suc_leI)

theorem bit_functions_agree_witness:
  "lfs_npw2_portable 40 = lfs_npw2 40 \<and> lfs_ctz_portable 40 = lfs_ctz 40"
  using bit_functions_agree [of 40] by simp

section \<open>Tags and global state\<close>

text \<open>C16: a tag is made of its three fields and gives them back, and a valid tag is determined
  by them; its size on disk is between 4 and 1026 bytes.\<close>

theorem tag_fields:
  assumes "unat t < 2048" and "unat i < 1024" and "unat n < 1024"
  shows "lfs_tag_type3 (LFS_MKTAG t i n) = t \<and> lfs_tag_id (LFS_MKTAG t i n) = i \<and>
     lfs_tag_size (LFS_MKTAG t i n) = n \<and> lfs_tag_isvalid (LFS_MKTAG t i n) \<and>
     (lfs_tag_isdelete (LFS_MKTAG t i n) = (n = 0x3ff)) \<and>
     4 \<le> unat (lfs_tag_dsize (LFS_MKTAG t i n)) \<and> unat (lfs_tag_dsize (LFS_MKTAG t i n)) \<le> 1026"
  using mktag_fields [OF assms] lfs_tag_dsize_bounds by (simp add: lfs_tag_isdelete_iff)

theorem tag_fields_witness:
  "lfs_tag_type3 (LFS_MKTAG 0x401 5 8) = 0x401 \<and> lfs_tag_id (LFS_MKTAG 0x401 5 8) = 5"
  using tag_fields [where t = "0x401" and i = "5" and n = "8"] by simp


section \<open>The RAM device\<close>

text \<open>C18: a created device reads as its erase value everywhere, or zero when there is none.\<close>

theorem rambd_create_reads_erased:
  assumes "wf_geometry g" and "- 1 \<le> rbcfg_erase_value bdcfg" and "rbcfg_erase_value bdcfg < 256"
    and "rbcfg_buffer bdcfg = None"
    and "fresh (unat (cfg_block_size g) * unat (cfg_block_count g)) = Some buf"
    and "length buf = unat (cfg_block_size g) * unat (cfg_block_count g)"
  shows "\<exists>d. lfs_rambd_createcfg g bdcfg fresh = Ok d \<and> rambd_valid g d \<and>
     (\<forall>b. b < cfg_block_count g \<longrightarrow> rambd_contents g d b = replicate (unat (cfg_block_size g))
        (if rbcfg_erase_value bdcfg = - 1 then 0 else word_of_int (rbcfg_erase_value bdcfg)))"
  using assms by (rule rambd_createcfg_ok)

theorem rambd_create_reads_erased_witness:
  "\<exists>d. lfs_rambd_createcfg demo_geometry \<lparr>rbcfg_erase_value = 255, rbcfg_buffer = None\<rparr>
       (\<lambda>n. Some (replicate n 3)) = Ok d \<and> rambd_valid demo_geometry d \<and>
     rambd_contents demo_geometry d 1 = replicate 128 255"
  using rambd_create_reads_erased [of demo_geometry "\<lparr>rbcfg_erase_value = 255, rbcfg_buffer = None\<rparr>"
      "\<lambda>n. Some (replicate n 3)" "replicate 512 3"] by auto
section \<open>The block allocator\<close>

text \<open>C19: on a disk whose traversal reports the blocks \<open>used\<close>, the allocator behaves as a queue: the
  free blocks of its lookahead window followed by the unused blocks of the rest of the ring of all
  blocks that are not acknowledged yet.  An allocation takes the head, and fails only when the queue
  is empty; it leaves the disk as it is.\<close>

theorem alloc_is_queue:
  assumes "wf_lookahead (rambd_config g)" and "lookahead_ok (rambd_config g) (lfs_free s)"
    and "on_disk (rambd_config g) (rambd_contents g) (rambd_usable g) s"
    and "lfs_fs_rawtraverse (rambd_config g) collect_cb True (s, []) = (Ok (), (s1, used))"
    and "\<forall>b \<in> set used. b < cfg_block_count g"
  shows "\<exists>s'. same_disk (rambd_config g) (rambd_contents g) (rambd_usable g) s s' \<and>
     lookahead_ok (rambd_config g) (lfs_free s') \<and>
     (case alloc_candidates (rambd_config g) used (lfs_free s) of
        [] \<Rightarrow> lfs_alloc (rambd_config g) s = (Err LFS_ERR_NOSPC, s')
      | b # rest \<Rightarrow> lfs_alloc (rambd_config g) s = (Ok b, s') \<and>
          alloc_candidates (rambd_config g) used (lfs_free s') = rest)"
  using rambd_read.alloc_queue [OF assms(1,3,2,4)] assms(5) by simp

theorem alloc_is_queue_witness:
  "\<exists>s'. lfs_alloc demo_config demo_disk = (Ok 2, s') \<and> alloc_candidates demo_config [0, 1] (lfs_free s') = [3]"
proof -
  have wf: "wf_lookahead demo_config" by (simp add: wf_lookahead_def)
  have ok: "lookahead_ok demo_config (lfs_free demo_disk)"
    by (simp add: lookahead_ok_def window_fits_def)
  have queue: "alloc_candidates demo_config [0, 1] (lfs_free demo_disk) = [2, 3]"
    by code_simp
  obtain s1 where "lfs_fs_rawtraverse demo_config collect_cb True (demo_disk, []) = (Ok (), (s1, [0, 1]))"
    using demo_traverse by blast
  from alloc_is_queue [OF wf ok demo_on_disk this, unfolded queue] show ?thesis by auto
qed

text \<open>C20: whatever the state of the disk, and also when the traversal fails, an allocation keeps the
  invariant of the lookahead buffer: its bits cover the window, the position is inside it, the blocks
  left in the window are not acknowledged yet; and a block that it returns exists.\<close>

theorem alloc_keeps_invariant:
  assumes "wf_lookahead c" and "lookahead_ok c (lfs_free s)" and "lfs_alloc c s = (r, s')"
  shows "lookahead_ok c (lfs_free s') \<and> (\<forall>b. r = Ok b \<longrightarrow> b < cfg_block_count c)"
proof -
  have "alloc_loop c (unat (free_ack (lfs_free s)) + 2) s = (r, s')"
    using assms(3) by (simp add: lfs_alloc_def bnd_def gets_def del: alloc_loop.simps)
  then show ?thesis
    using alloc_loop_keeps [OF assms(1,2), of "unat (free_ack (lfs_free s)) + 2"] by (simp add: wp_def)
qed

theorem alloc_keeps_invariant_witness:
  "lookahead_ok demo_config (lfs_free (snd (lfs_alloc demo_config (demo_lfs demo_device))))"
proof -
  have "lookahead_ok demo_config (lfs_free (demo_lfs demo_device))"
    by (simp add: demo_lfs_def lookahead_ok_def window_fits_def)
  then show ?thesis
    using alloc_keeps_invariant [of demo_config "demo_lfs demo_device"] by (simp add: wf_lookahead_def prod_eq_iff)
qed

section \<open>Reading arbitrary disks\<close>

text \<open>C21: mounting a RAM disk with any contents ends, with a result or an error code but never with a
  fault (a failing assertion, an access outside a buffer, a loop that does not end), and changes
  nothing on the disk.\<close>

theorem mount_any_disk:
  assumes "rambd_valid g (lfs_dev s)" and "8 \<le> unat (cfg_block_size g)" and "init_asserts g"
  shows "\<exists>r s'. lfs_rawmount (rambd_config g) s = (r, s') \<and> (\<forall>x. r \<noteq> Fault x) \<and>
     (\<forall>b < cfg_block_count g. rambd_contents g (lfs_dev s') b = rambd_contents g (lfs_dev s) b)"
  using rambd_read.rawmount_safe [of g s] assms by (auto simp: rambd_usable_def init_asserts_def)

theorem mount_any_disk_witness:
  "\<exists>r s'. lfs_rawmount demo_config (demo_lfs demo_device) = (r, s') \<and> (\<forall>x. r \<noteq> Fault x)"
proof -
  have "init_asserts demo_geometry" by code_simp
  then show ?thesis using mount_any_disk [of demo_geometry "demo_lfs demo_device"] by auto
qed

text \<open>C22: counting the blocks in use ends without a fault on every RAM disk, leaves the disk alone,
  and its outcome depends only on the contents of the disk and the open files, not on what the read
  cache, the lookahead buffer or the random seed hold.\<close>

theorem fs_size_of_contents:
  assumes "same_disk (rambd_config g) (rambd_contents g) (rambd_usable g) s t"
  shows "\<exists>r s' t'. lfs_fs_rawsize (rambd_config g) s = (r, s') \<and> lfs_fs_rawsize (rambd_config g) t = (r, t') \<and>
     (\<forall>x. r \<noteq> Fault x) \<and> same_disk (rambd_config g) (rambd_contents g) (rambd_usable g) s s'"
  by (rule steadyE [OF rambd_read.steady_rawsize assms]) auto

theorem fs_size_of_contents_witness:
  "\<exists>r s'. lfs_fs_rawsize demo_config demo_disk = (r, s') \<and> (\<forall>x. r \<noteq> Fault x)"
  using fs_size_of_contents [OF same_disk_refl [OF demo_on_disk]] by auto

text \<open>C23: fetching a pair and searching the parent of a pair end without a fault on every RAM disk,
  also when the list of pairs is a cycle, and their outcome depends only on the contents of the disk;
  the end of the log they return lies inside a block.\<close>

theorem fetch_and_parent_of_contents:
  assumes "same_disk (rambd_config g) (rambd_contents g) (rambd_usable g) s t"
  shows "(\<exists>r s' t'. lfs_dir_fetch (rambd_config g) mdir_zero pair s = (r, s') \<and>
       lfs_dir_fetch (rambd_config g) mdir_zero pair t = (r, t') \<and> (\<forall>x. r \<noteq> Fault x) \<and>
       (\<forall>dir e. r = Ok (dir, e) \<longrightarrow> md_off dir \<le> cfg_block_size g)) \<and>
     (\<exists>r s' t'. lfs_fs_parent (rambd_config g) pair mdir_zero s = (r, s') \<and>
       lfs_fs_parent (rambd_config g) pair mdir_zero t = (r, t') \<and> (\<forall>x. r \<noteq> Fault x))"
proof (rule conjI)
  show "\<exists>r s' t'. lfs_dir_fetch (rambd_config g) mdir_zero pair s = (r, s') \<and>
      lfs_dir_fetch (rambd_config g) mdir_zero pair t = (r, t') \<and> (\<forall>x. r \<noteq> Fault x) \<and>
      (\<forall>dir e. r = Ok (dir, e) \<longrightarrow> md_off dir \<le> cfg_block_size g)"
    by (rule steadyE [OF rambd_read.steady_fetch [OF log_inside_zero(2), where pair = pair] assms])
      (auto simp: log_inside_def u32_simps)
  show "\<exists>r s' t'. lfs_fs_parent (rambd_config g) pair mdir_zero s = (r, s') \<and>
      lfs_fs_parent (rambd_config g) pair mdir_zero t = (r, t') \<and> (\<forall>x. r \<noteq> Fault x)"
    by (rule steadyE [OF rambd_read.steady_fs_parent [OF log_inside_zero(2), where pair = pair] assms]) auto
qed

theorem fetch_and_parent_of_contents_witness:
  "\<exists>r s'. lfs_fs_parent demo_config (2, 3) mdir_zero demo_disk = (r, s') \<and> (\<forall>x. r \<noteq> Fault x)"
  using fetch_and_parent_of_contents [OF same_disk_refl [OF demo_on_disk]] by auto

section \<open>Writing logs\<close>

text \<open>C24: the array of frames of \<^verbatim>\<open>lfs_dir_traverse\<close> is large enough.  From a call with a callback of
  its own the loop never holds more than \<open>LFS_DIR_TRAVERSE_DEPTH - 1\<close> frames, and there is a free one at both
  places where a frame is pushed: in front of the filter, and when a move enters another directory.\<close>

theorem traverse_array_suffices:
  assumes "trav_reach c cb t ts" and "\<not> tv_filter t"
  shows "case ts of
      Trav_Loop u stack \<Rightarrow> length stack \<le> LFS_DIR_TRAVERSE_DEPTH - 1 \<and>
        (lfs_tag_id (tv_tmask u) \<noteq> 0 \<longrightarrow> length stack < LFS_DIR_TRAVERSE_DEPTH - 1)
    | Trav_Popped u stack \<Rightarrow> length stack \<le> LFS_DIR_TRAVERSE_DEPTH - 1 \<and>
        (\<not> tv_filter u \<and> tv_buffer u = Buf_Mdir dir \<longrightarrow> length stack < LFS_DIR_TRAVERSE_DEPTH - 1)
    | Trav_Done res \<Rightarrow> True"
proof (cases ts)
  case (Trav_Loop u stack)
  then have "trav_shape False u stack" using trav_reach_ok [OF assms] by simp
  then show ?thesis
    by (rule trav_shape_cases) (auto simp: Trav_Loop LFS_DIR_TRAVERSE_DEPTH_def lfs_tag_id_def)
next
  case (Trav_Popped u stack)
  then have "trav_shape True u stack" using trav_reach_ok [OF assms] by simp
  then show ?thesis
    by (rule trav_shape_cases) (auto simp: Trav_Popped LFS_DIR_TRAVERSE_DEPTH_def from_log_def)
qed simp

theorem traverse_array_suffices_witness:
  "\<exists>u f. trav_reach demo_config lfs_dir_commit_size demo_frame (Trav_Loop u [f]) \<and> length [f] \<le> LFS_DIR_TRAVERSE_DEPTH - 1"
proof -
  let ?u = "demo_frame\<lparr>tv_attrs := [], tv_tag := LFS_MKTAG 0x201 1 0\<rparr>"
  let ?g = "?u\<lparr>tv_tmask := 0, tv_ttag := 0, tv_begin := 0, tv_end := 0, tv_diff := 0, tv_filter := True\<rparr>"
  have step: "trav_step demo_config lfs_dir_commit_size (Trav_Loop demo_frame []) (demo_disk, 0)
      = (Ok (Trav_Loop ?g [?u]), (demo_disk, 0))"
    by (simp add: trav_step_def trav_loop_def trav_fetch_def demo_frame_def trav_push_def on_fst_def zoom_def
        bnd_def ret_def Let_def LFS_DIR_TRAVERSE_DEPTH_def mdir_zero_def) code_simp
  have reach: "trav_reach demo_config lfs_dir_commit_size demo_frame (Trav_Loop ?g [?u])"
    by (rule reach_next [OF reach_start trav_stepI [OF step]])
  have "\<not> tv_filter demo_frame" by (simp add: demo_frame_def)
  from traverse_array_suffices [OF reach this] reach show ?thesis by auto
qed

text \<open>C25: a traversal that writes its tags to a commit never writes past the end of the commit, whatever
  the tags, the attributes and the contents of the disk are, and also when it ends with an error: what does
  not fit is refused.\<close>

theorem commit_stays_inside:
  assumes "cm_off cm \<le> cm_end cm" and "unat (cm_end cm) + 1026 < 2 ^ 32"
    and "lfs_dir_traverse (rambd_config g) dir off ptag attrs tmask ttag i j d
           (lfs_dir_commit_commit (rambd_config g)) (s, cm) = (r, (s', cm'))"
  shows "cm_off cm' \<le> cm_end cm' \<and> cm_end cm' = cm_end cm"
proof -
  have "commit_inside (cm_end cm) (snd (s, cm))" using assms(1,2) by (simp add: commit_inside_def)
  from keeps_dataD [OF rambd_commit.keeps_traverse assms(3) this] show ?thesis
    by (simp add: commit_inside_def)
qed

theorem commit_stays_inside_witness:
  "cm_off (snd (snd (lfs_dir_traverse demo_config mdir_zero 0 0xffffffff
     [\<lparr>mattr_tag = LFS_MKTAG 0x201 0 3, mattr_buffer = Buf_Mem [1, 2, 3]\<rparr>] 0 0 0 0 0
     (lfs_dir_commit_commit demo_config)
     (demo_disk, \<lparr>cm_block = 1, cm_off = 60, cm_ptag = 0, cm_crc = 0, cm_begin = 0, cm_end = 64\<rparr>)))) \<le> 64"
proof -
  let ?cm = "\<lparr>cm_block = 1, cm_off = 60, cm_ptag = 0, cm_crc = 0, cm_begin = 0, cm_end = 64\<rparr> :: lfs_commit"
  have fit: "cm_off ?cm \<le> cm_end ?cm" "unat (cm_end ?cm) + 1026 < 2 ^ 32" by simp_all
  obtain r s' cm' where run: "lfs_dir_traverse demo_config mdir_zero 0 0xffffffff
      [\<lparr>mattr_tag = LFS_MKTAG 0x201 0 3, mattr_buffer = Buf_Mem [1, 2, 3]\<rparr>] 0 0 0 0 0
      (lfs_dir_commit_commit demo_config) (demo_disk, ?cm) = (r, (s', cm'))"
    by (metis surj_pair)
  show ?thesis
    using commit_stays_inside [OF fit run] unfolding run by (auto simp: prod_eq_iff)
qed



section \<open>Calls and open objects\<close>

text \<open>C27: the list of open objects implements a table of handles.  Under a lock that is granted, a call
  that opens adds its handle when it succeeds, and the handle was not in the table; a call that closes
  takes it out also when it returns an error; every other call, whether it returns a result or an error,
  leaves the table as it was, and no call changes the limits of the mounted file system.\<close>

theorem calls_refine_table:
  assumes "grants k" and "lfs_run c k call s = (r, s')" and "\<forall>x. r \<noteq> Fault x"
  shows "lfs_mlist s' = table_step call (r = Ok ()) (lfs_mlist s) \<and>
    (\<forall>h. opens call = Some h \<longrightarrow> r = Ok () \<longrightarrow> Handle h \<notin> set (lfs_mlist s)) \<and>
    lfs_name_max s' = lfs_name_max s \<and> lfs_file_max s' = lfs_file_max s \<and> lfs_attr_max s' = lfs_attr_max s"
  using lfs_run_table [OF assms(1,2)] assms(3)
  by (auto simp: stepped_def open_part_def split: outcome.splits)

theorem calls_refine_table_witness:
  "lfs_mlist (snd (lfs_run demo_config (sys_locks id id) (Call_Dir_Close 3) (demo_disk\<lparr>lfs_mlist := [Handle 5, Handle 3]\<rparr>)))
   = [Handle 5]"
proof -
  obtain s' where run: "lfs_run demo_config (sys_locks id id) (Call_Dir_Close 3)
      (demo_disk\<lparr>lfs_mlist := [Handle 5, Handle 3]\<rparr>) = (Ok (), s')"
    by (simp add: lfs_dir_close_def lfs_dir_rawclose_def locked_def with_lock_def on_dev_def sys_locks_def
        lfs_lock_def lfs_unlock_def cmd_simps)
  show ?thesis using calls_refine_table [OF grants_sys_locks run] unfolding run by simp
qed

text \<open>C28: no dangling objects.  Mounting leaves the list of open objects empty; from there on, after any
  sequence of calls, with results and errors in any order, the list holds handles of the caller only, each
  once: none of the local variables that the functions link into it during a commit is ever left behind.\<close>

theorem no_dangling_objects:
  assumes "grants k" and "session c k s0 s" and "lfs_mlist s0 = []"
  shows "(\<forall>t t'. lfs_mount c k t = (Ok (), t') \<longrightarrow> lfs_mlist t' = []) \<and>
    distinct (lfs_mlist s) \<and> set (lfs_mlist s) \<subseteq> range Handle"
  using session_handles [OF assms(1) _ assms(2)] assms(3)
  by (auto simp: handles_def lfs_mount_def dest: mount_clears)

theorem no_dangling_objects_witness:
  "distinct (lfs_mlist (snd (lfs_run demo_config (sys_locks id id) (Call_Dir_Close 3) demo_disk)))"
proof -
  obtain s' where run: "lfs_run demo_config (sys_locks id id) (Call_Dir_Close 3) demo_disk = (Ok (), s')"
    by (simp add: lfs_dir_close_def lfs_dir_rawclose_def locked_def with_lock_def on_dev_def sys_locks_def
        lfs_lock_def lfs_unlock_def cmd_simps)
  have "lfs_mlist demo_disk = []" by (simp add: demo_lfs_def)
  from no_dangling_objects [OF grants_sys_locks session_ok [OF session_start run] this]
  show ?thesis unfolding run by simp
qed

section \<open>Reading files\<close>

text \<open>C29: reading from an open file that has a list of blocks on the device, and no unwritten data, returns
  the bytes of the file from its position on, as many as are asked for or as there are up to the end of the
  file, across the borders of blocks.  The position moves behind them, and nothing of the state but the file
  changes.\<close>

theorem file_read_returns_contents:
  fixes s :: "lfs_rambd lfs" and sz :: u32
  assumes "rambd_valid g (lfs_dev s)"
    and "readable_file (rambd_config g) (rambd_contents g (lfs_dev s)) blk lst (lfs_objs s x)"
    and "file_flags (lfs_objs s x) AND LFS_O_RDONLY = LFS_O_RDONLY" and "\<not> has_flag (lfs_objs s x) LFS_F_WRITING"
  defines "data \<equiv> ctz_data (rambd_contents g (lfs_dev s)) blk lst (unat (ctz_size (file_ctz (lfs_objs s x))))"
  defines "bs \<equiv> take (unat sz) (drop (unat (file_pos (lfs_objs s x))) data)"
  shows "\<exists>f. lfs_file_rawread (rambd_config g) x sz s = (Ok bs, s\<lparr>lfs_objs := (lfs_objs s)(x := f)\<rparr>) \<and>
    length data = unat (ctz_size (file_ctz (lfs_objs s x))) \<and> file_ctz f = file_ctz (lfs_objs s x) \<and>
    unat (file_pos f) = unat (file_pos (lfs_objs s x)) + length bs \<and>
    readable_file (rambd_config g) (rambd_contents g (lfs_dev s)) blk lst f"
  using wp_okpD [OF rambd.rawread_ok [OF assms(1-4), of sz]] rambd.length_ctz_data [OF assms(1,2)]
  by (auto simp: data_def bs_def on_obj_def with_obj_def)

text \<open>The file of two blocks of the examples, read across the border.\<close>

theorem file_read_returns_contents_witness:
  "\<exists>s'. lfs_file_rawread demo_config demo_reader 10 demo_reader_lfs = (Ok (replicate 10 7), s')"
proof -
  have data: "take 10 (drop 120 (ctz_data (rambd_contents demo_geometry demo_list_device) demo_blocks 1 200)) = replicate 10 7"
    by (simp add: ctz_data_def ctz_stream_def demo_list_blocks ctz_ptrs_def replicate_add [symmetric])
  have "readable_file demo_config (rambd_contents demo_geometry demo_list_device) demo_blocks 1 (lfs_objs demo_reader_lfs demo_reader)"
    by (simp add: readable_file_def has_flag_def LFS_F_INLINE_def LFS_F_READING_def ctz_fits_128)
  then show ?thesis
    using file_read_returns_contents [of demo_geometry demo_reader_lfs demo_blocks 1 demo_reader 10] data
    by (auto simp: has_flag_def LFS_O_RDONLY_def LFS_F_WRITING_def)
qed

section \<open>Files that are kept in their metadata\<close>

text \<open>C30: an open file whose data is still in its buffer implements an array of bytes with a position.  Any
  sequence of reads, writes, seeks and size queries that stays inside the limit of such files returns what
  the array returns, with the gaps behind the end filled with zeros and appending files written at their
  end; the file then holds the array that the sequence leaves.  The device, the caches, the list of open
  objects and all other objects stay as they were.\<close>

theorem inline_file_is_array:
  fixes s :: "'d lfs"
  assumes "inline_geometry c" and "inline_file c (lfs_objs s x)" and "append_ok (lfs_objs s x)"
    and "readable_writable (lfs_objs s x)" and "inline_max c \<le> lfs_file_max s"
    and "array_fits_all c (lfs_file_max s) (has_flag (lfs_objs s x) LFS_O_APPEND) ops (file_array (lfs_objs s x))"
  shows "\<exists>rs s'. file_ops c x ops s = (Ok rs, s') \<and> only_file x s s' \<and> inline_file c (lfs_objs s' x) \<and>
    array_steps (has_flag (lfs_objs s x) LFS_O_APPEND) ops (file_array (lfs_objs s x)) = (rs, file_array (lfs_objs s' x))"
  using wp_okpD [OF file_ops_array [OF assms]] by auto

theorem inline_file_is_array_witness:
  "\<exists>s'. file_ops demo_config demo_reader
      [Array_Write [1, 2, 3], Array_Seek 5, Array_Write [9], Array_Seek 1, Array_Read 10, Array_Size] demo_inline_lfs =
    (Ok [Inr 3, Inr 5, Inr 1, Inr 1, Inl [2, 3, 0, 0, 9], Inr 6], s')"
proof -
  let ?ops = "[Array_Write [1, 2, 3], Array_Seek 5, Array_Write [9], Array_Seek 1, Array_Read 10, Array_Size]"
  let ?f = "lfs_objs demo_inline_lfs demo_reader"
  have g: "inline_geometry demo_config"
    by (simp add: inline_geometry_def)
  have max: "inline_max demo_config = 16"
    by (simp add: inline_max_def lfs_min_def)
  have f: "file_flags ?f = 1048579" "file_pos ?f = 0" "ctz_size (file_ctz ?f) = 0"
      "cache_block (file_cache ?f) = LFS_BLOCK_INLINE" "cache_off (file_cache ?f) = 0"
      "cache_size (file_cache ?f) = 16" "length (cache_buffer (file_cache ?f)) = 16"
      "lfs_file_max demo_inline_lfs = 0x7fffffff"
    by (simp_all add: demo_inline_lfs_def demo_lfs_def Let_def demo_cache_def flag_values)
  have flags: "has_flag ?f LFS_F_INLINE" "\<not> has_flag ?f LFS_F_READING" "\<not> has_flag ?f LFS_F_WRITING" "\<not> has_flag ?f LFS_O_APPEND"
    by (simp_all add: has_flag_def f flag_values)
  have array: "file_array ?f = ([], 0)"
    by (simp add: file_array_def inline_bytes_def file_rawsize_def f flags)
  have inline: "inline_file demo_config ?f"
    using flags f by (simp add: inline_file_def max file_rawsize_def)
  have rw: "append_ok ?f" "readable_writable ?f"
    by (simp_all add: append_ok_def readable_writable_def flags f LFS_O_RDONLY_def LFS_O_WRONLY_def)
  have le: "inline_max demo_config \<le> lfs_file_max demo_inline_lfs" by (simp add: max f)
  have fits: "array_fits_all demo_config (lfs_file_max demo_inline_lfs) (has_flag ?f LFS_O_APPEND) ?ops (file_array ?f)"
    by (simp add: array flags f max array_write_def patch_def)
  have "fst (array_steps False ?ops ([], 0)) = [Inr 3, Inr 5, Inr 1, Inr 1, Inl [2, 3, 0, 0, 9], Inr 6]"
    by code_simp
  then show ?thesis
    using inline_file_is_array [OF g inline rw le fits] flags(4) unfolding array by (metis fst_conv)
qed

section \<open>Metadata logs\<close>

text \<open>C31: the log of a metadata pair implements an array of attribute lists.  The array is what playing the
  entries from the oldest to the newest gives: creating an id inserts an empty list and moves the later ones
  up, deleting one takes it out and moves them down, every other entry comes in front of the list of its id,
  and an unfinished move hides its entry as a deletion does.  The lookup of the code, which walks the log
  backwards and moves the id it looks for around the splices, returns the newest attribute of that list whose
  type agrees in the bits of the mask, its data cut to the room and padded with zeros, and the tag with the
  id that was asked for; it returns \<^verbatim>\<open>LFS_ERR_NOENT\<close> when there is none or the newest one is a deletion.\<close>

theorem log_lookup_is_replay:
  fixes s :: "lfs_rambd lfs"
  assumes "rambd_valid g (lfs_dev s)" and "fst (md_pair dir) < cfg_block_count g"
    and "cache_coherent (rambd_config g) (rambd_contents g (lfs_dev s)) (lfs_rcache s)"
    and "log_on (rambd_contents g (lfs_dev s) (fst (md_pair dir))) (unat (md_off dir)) (md_etag dir) es"
    and "list_all entry_ok es"
    and "unat t < 2048" "unat i < 1024" "unat n < 1024" "unat m < 2048"
    and "m AND 0x700 = 0x700" "t AND 0x700 \<noteq> LFS_TYPE_SPLICE" "t AND 0x700 \<noteq> LFS_TYPE_CRC"
    and "unat i + deletions (with_pending (lfs_gdisk s) (md_pair dir) es) < 1024"
  shows "\<exists>s'. lfs_dir_get (rambd_config g) dir (LFS_MKTAG m 0x3ff 0) (LFS_MKTAG t i n) s =
      (case find_attr m t (replay (with_pending (lfs_gdisk s) (md_pair dir) es) (unat i)) of
         None \<Rightarrow> Err LFS_ERR_NOENT
       | Some (ty, d) \<Rightarrow> Ok (LFS_MKTAG ty i (of_nat (length d)), take (unat n) d @ replicate (unat n - length d) 0),
       s') \<and> s' = s\<lparr>lfs_rcache := lfs_rcache s'\<rparr> \<and>
      cache_coherent (rambd_config g) (rambd_contents g (lfs_dev s)) (lfs_rcache s')"
  using rambd.lfs_dir_get_ok [of g s dir es t i n m] assms
  by (auto simp: wp_def lookup_result_def read_state_def split: prod.splits)

text \<open>The data of the entry that was created as id 0 is found at id 1, since another one came before it.\<close>

theorem log_lookup_is_replay_witness:
  "fst (lfs_dir_get demo_config demo_log_dir (LFS_MKTAG 0x700 0x3ff 0) (LFS_MKTAG LFS_TYPE_STRUCT 1 4) (demo_lfs demo_log_device)) =
     Ok (LFS_MKTAG LFS_TYPE_INLINESTRUCT 1 2, [104, 105, 0, 0])"
proof -
  let ?s = "demo_lfs demo_log_device"
  have log: "log_on (demo_log_bytes @ replicate 105 0) 23 0x40100000 demo_log" "list_all entry_ok demo_log"
    by code_simp+
  have pend: "with_pending (lfs_gdisk ?s) (md_pair demo_log_dir) demo_log = demo_log"
    by (simp add: with_pending_def demo_lfs_def gstate_zero_def lfs_gstate_hasmovehere_def lfs_tag_type1_def)
  have found: "find_attr 0x700 LFS_TYPE_STRUCT (replay demo_log 1) = Some (LFS_TYPE_INLINESTRUCT, [104, 105])"
      "deletions demo_log = 0"
    by code_simp+
  have coh: "cache_coherent demo_config (rambd_contents demo_geometry demo_log_device) (lfs_rcache ?s)"
    by (simp add: demo_lfs_def)
  have two: "replicate 2 (0 :: u8) = [0, 0]" by (simp add: numeral_2_eq_2)
  have dev: "lfs_dev ?s = demo_log_device" by (simp add: demo_lfs_def)
  show ?thesis
    using log_lookup_is_replay [where g = demo_geometry and s = ?s and dir = demo_log_dir and es = demo_log and
        t = LFS_TYPE_STRUCT and i = 1 and n = 4 and m = "0x700"] log pend found coh
    by (auto simp: dev demo_log_dir_def demo_log_block LFS_TYPE_STRUCT_def LFS_TYPE_SPLICE_def LFS_TYPE_CRC_def two)
qed

text \<open>C32: what a commit writes is found.  Entries that are committed one after the other into a block, with
  room for them, are at the end of its log, also when they go through the program cache in pieces; after a
  sync the lookup with the end and the last tag of the commit finds the attribute that playing the new
  entries onto the old array gives, and no other block of the device has changed.\<close>

theorem commit_then_lookup:
  fixes s :: "lfs_rambd lfs"
  assumes "rambd_valid g (lfs_dev s)"
    and "commit_log (rambd_config g) (rambd_contents g (lfs_dev s)) (rambd_erased g (lfs_dev s) (cm_block cm)) es (s, cm)"
    and "list_all entry_sized as" "list_all entry_ok as" "list_all entry_ok es"
    and "unat (cm_off cm) + entries_size as \<le> unat (cm_end cm)"
    and "fst (md_pair dir) = cm_block cm" and "\<not> lfs_gstate_hasmovehere (lfs_gdisk s) (md_pair dir)"
    and "unat t < 2048" "unat i < 1024" "unat n < 1024" "unat m < 2048"
    and "m AND 0x700 = 0x700" "t AND 0x700 \<noteq> LFS_TYPE_SPLICE" "t AND 0x700 \<noteq> LFS_TYPE_CRC"
    and "unat i + deletions as + deletions es < 1024"
  shows "\<exists>s1 cm1 s2 s3. commit_entries (rambd_config g) as (s, cm) = (Ok (), (s1, cm1)) \<and>
    unat (cm_off cm1) = unat (cm_off cm) + entries_size as \<and>
    on_caches (lfs_bd_sync (rambd_config g) False) s1 = (Ok (), s2) \<and>
    (\<forall>b. b < cfg_block_count g \<longrightarrow> b \<noteq> cm_block cm \<longrightarrow>
      rambd_contents g (lfs_dev s2) b = rambd_contents g (lfs_dev s) b) \<and>
    lfs_dir_get (rambd_config g) (dir\<lparr>md_off := cm_off cm1, md_etag := cm_ptag cm1\<rparr>)
        (LFS_MKTAG m 0x3ff 0) (LFS_MKTAG t i n) s2 =
      (lookup_result i n (find_attr m t (fold entry_step as (replay es) (unat i))), s3)"
  using rambd.commit_then_get [OF assms] by simp

theorem commit_then_lookup_witness:
  "\<exists>s1 cm1 s2 s3. commit_entries demo_config (rev demo_log) (demo_lfs demo_device,
      \<lparr>cm_block = 2, cm_off = 4, cm_ptag = 0xffffffff, cm_crc = 0, cm_begin = 4, cm_end = 128\<rparr>) = (Ok (), (s1, cm1)) \<and>
    on_caches (lfs_bd_sync demo_config False) s1 = (Ok (), s2) \<and>
    lfs_dir_get demo_config (mdir_zero\<lparr>md_pair := (2, 3), md_off := cm_off cm1, md_etag := cm_ptag cm1\<rparr>)
        (LFS_MKTAG 0x700 0x3ff 0) (LFS_MKTAG LFS_TYPE_STRUCT 1 4) s2 =
      (Ok (LFS_MKTAG LFS_TYPE_INLINESTRUCT 1 2, [104, 105, 0, 0]), s3)"
proof -
  let ?cm = "\<lparr>cm_block = 2, cm_off = 4, cm_ptag = 0xffffffff, cm_crc = 0, cm_begin = 4, cm_end = 128\<rparr>"
  let ?s = "demo_lfs demo_device"
  have log: "commit_log demo_config (rambd_contents demo_geometry demo_device) (rambd_erased demo_geometry demo_device 2) [] (?s, ?cm)"
    by (simp add: commit_log_def demo_lfs_def prog_cursor_def rcache_ok_def demo_cache_def LFS_BLOCK_NULL_def
        demo_cache_coherent [unfolded demo_cache_def LFS_BLOCK_NULL_def])
  have as: "list_all entry_sized (rev demo_log)" "list_all entry_ok (rev demo_log)" "entries_size (rev demo_log) = 19"
      "deletions (rev demo_log) = 0"
    by code_simp+
  have found: "find_attr 0x700 LFS_TYPE_STRUCT (fold entry_step (rev demo_log) (replay []) 1) =
      Some (LFS_TYPE_INLINESTRUCT, [104, 105])"
    by code_simp
  have two: "replicate 2 (0 :: u8) = [0, 0]" by (simp add: numeral_2_eq_2)
  have "lookup_result 1 4 (Some (LFS_TYPE_INLINESTRUCT, [104, 105])) = Ok (LFS_MKTAG LFS_TYPE_INLINESTRUCT 1 2, [104, 105, 0, 0])"
    by (simp add: lookup_result_def two)
  moreover have "\<not> lfs_gstate_hasmovehere (lfs_gdisk ?s) (2, 3)"
    by (simp add: demo_lfs_def gstate_zero_def lfs_gstate_hasmovehere_def lfs_tag_type1_def)
  ultimately show ?thesis
    using commit_then_lookup [where g = demo_geometry and s = ?s and cm = ?cm and es = "[]" and as = "rev demo_log" and
        dir = "mdir_zero\<lparr>md_pair := (2, 3)\<rparr>" and t = LFS_TYPE_STRUCT and i = 1 and n = 4 and m = "0x700"] log as found
    by (auto simp: demo_lfs_def LFS_TYPE_STRUCT_def LFS_TYPE_SPLICE_def LFS_TYPE_CRC_def)
qed

section \<open>Truncating files\<close>

text \<open>C33: truncating an open file with a list of blocks and no unwritten data to a size inside it gives it the
  new size, keeps its position, marks it dirty and makes the block of the byte at the new size its head.
  Unless a block begins there, the file is then readable and its contents are the first bytes of the old
  contents.  Where a block begins, the head is not the last block of the file but the one behind it, and the
  list is not one of the file with the new size any more (\<^verbatim>\<open>lfs_file_rawtruncate\<close> asks \<^verbatim>\<open>lfs_ctz_find\<close> for
  the position \<^verbatim>\<open>size\<close> and not for \<^verbatim>\<open>size - 1\<close>).\<close>

theorem truncate_shortens:
  fixes s :: "lfs_rambd lfs" and x :: obj_ref
  defines "f \<equiv> lfs_objs s x"
  assumes "rambd_valid g (lfs_dev s)"
    and "readable_file (rambd_config g) (rambd_contents g (lfs_dev s)) blk lst (lfs_objs s x)"
    and "\<not> has_flag (lfs_objs s x) LFS_F_WRITING"
    and "file_flags (lfs_objs s x) AND LFS_O_WRONLY = LFS_O_WRONLY"
    and "sz < ctz_size (file_ctz (lfs_objs s x))" and "sz \<le> LFS_FILE_MAX" and "0 < unat sz"
    and "file_pos (lfs_objs s x) < ctz_size (file_ctz (lfs_objs s x))"
    and "file_pos (lfs_objs s x) \<le> lfs_file_max s"
  shows "\<exists>f' n. lfs_file_rawtruncate (rambd_config g) x sz s = (Ok (), s\<lparr>lfs_objs := (lfs_objs s)(x := f')\<rparr>) \<and> n \<le> lst \<and>
    ctz_start (unat (cfg_block_size g)) n \<le> unat sz \<and> unat sz < ctz_start (unat (cfg_block_size g)) (n + 1) \<and>
    file_ctz f' = \<lparr>ctz_head = blk n, ctz_size = sz\<rparr> \<and> file_pos f' = file_pos f \<and> has_flag f' LFS_F_DIRTY \<and>
    (ctz_start (unat (cfg_block_size g)) n < unat sz \<longrightarrow>
       readable_file (rambd_config g) (rambd_contents g (lfs_dev s)) blk n f' \<and>
       ctz_data (rambd_contents g (lfs_dev s)) blk n (unat sz) =
         take (unat sz) (ctz_data (rambd_contents g (lfs_dev s)) blk lst (unat (ctz_size (file_ctz f))))) \<and>
    (ctz_start (unat (cfg_block_size g)) n = unat sz \<and> inj_on blk {..lst} \<longrightarrow>
       (\<forall>m. \<not> readable_file (rambd_config g) (rambd_contents g (lfs_dev s)) blk m f'))"
proof -
  obtain s' where run: "lfs_file_rawtruncate (rambd_config g) x sz s = (Ok (), s')"
      "on_obj x s (\<lambda>f'. \<exists>n off p. n \<le> lst \<and>
        ctz_start (unat (cfg_block_size g)) n \<le> unat sz \<and> unat sz < ctz_start (unat (cfg_block_size g)) (n + 1) \<and>
        unat off = unat sz - ctz_start (unat (cfg_block_size g)) n + 4 * ctz_ptrs n \<and> unat off < unat (cfg_block_size g) \<and>
        cache_coherent (rambd_config g) (rambd_contents g (lfs_dev s)) p \<and>
        seek_result (rambd_config g) (file_pos f) (cut_file (blk n) off sz p (unread f)) f') s'"
    using wp_okpD [OF rambd.rawtruncate_cut [OF assms(2-7,10)]] unfolding f_def by auto
  then obtain f' n off p where f': "s' = with_obj x f' s" "n \<le> lst"
      "ctz_start (unat (cfg_block_size g)) n \<le> unat sz" "unat sz < ctz_start (unat (cfg_block_size g)) (n + 1)"
      "unat off = unat sz - ctz_start (unat (cfg_block_size g)) n + 4 * ctz_ptrs n" "unat off < unat (cfg_block_size g)"
      "cache_coherent (rambd_config g) (rambd_contents g (lfs_dev s)) p"
      "seek_result (rambd_config g) (file_pos f) (cut_file (blk n) off sz p (unread f)) f'"
    by (auto simp: on_obj_def)
  have B: "cfg_block_size (rambd_config g) = cfg_block_size g" by simp
  note cut = rambd.cut_file_readable [OF assms(2,3,8,6,9), unfolded B, folded f_def, OF f'(2-8)]
  have fields: "file_pos f' = file_pos f" "file_ctz f' = \<lparr>ctz_head = blk n, ctz_size = sz\<rparr>" "has_flag f' LFS_F_DIRTY"
    using seek_result_fields(1-3) [OF f'(8)] by simp_all
  have run': "lfs_file_rawtruncate (rambd_config g) x sz s = (Ok (), s\<lparr>lfs_objs := (lfs_objs s)(x := f')\<rparr>)"
    using run(1) f'(1) by (simp add: with_obj_def)
  show ?thesis
    by (rule exI [of _ f'], rule exI [of _ n], intro conjI impI allI run' f'(2-4) fields)
      (use cut in \<open>blast+\<close>)
qed

text \<open>The file of two blocks of the examples, cut where its second block begins: the second block stays the head.\<close>

theorem truncate_shortens_witness:
  "\<exists>f'. lfs_file_rawtruncate demo_config demo_reader 128 (demo_reader_lfs\<lparr>lfs_objs := demo_writer\<rparr>) =
      (Ok (), demo_reader_lfs\<lparr>lfs_objs := demo_writer(demo_reader := f')\<rparr>) \<and>
    file_ctz f' = \<lparr>ctz_head = 2, ctz_size = 128\<rparr> \<and>
    \<not> readable_file demo_config (rambd_contents demo_geometry demo_list_device) demo_blocks 0 f'"
proof -
  let ?s = "demo_reader_lfs\<lparr>lfs_objs := demo_writer\<rparr>"
  have r: "readable_file demo_config (rambd_contents demo_geometry demo_list_device) demo_blocks 1 (demo_writer demo_reader)"
    by (simp add: readable_file_def has_flag_def LFS_F_INLINE_def LFS_F_READING_def ctz_fits_128)
  have inj: "inj_on demo_blocks {..1}" by (simp add: atMost_Suc inj_on_def demo_blocks_def)
  have "lfs_file_max demo_reader_lfs = 0x7fffffff" by (simp add: demo_reader_lfs_def demo_lfs_def Let_def)
  then obtain f' n where f': "lfs_file_rawtruncate demo_config demo_reader 128 ?s =
        (Ok (), ?s\<lparr>lfs_objs := demo_writer(demo_reader := f')\<rparr>)" "n \<le> 1" "ctz_start 128 n \<le> 128" "128 < ctz_start 128 (n + 1)"
      "file_ctz f' = \<lparr>ctz_head = demo_blocks n, ctz_size = 128\<rparr>"
      "ctz_start 128 n = 128 \<Longrightarrow> \<not> readable_file demo_config (rambd_contents demo_geometry demo_list_device) demo_blocks 0 f'"
    using truncate_shortens [of demo_geometry ?s demo_blocks 1 demo_reader 128] r inj
    by (auto simp: has_flag_def LFS_O_WRONLY_def LFS_F_WRITING_def LFS_FILE_MAX_def simp del: ctz_start.simps)
  have "n \<noteq> 0"
  proof
    assume "n = 0"
    then show False using f'(4) by (simp add: ctz_ptrs_def)
  qed
  then have n: "n = 1" using f'(2) by simp
  have "ctz_start 128 n = 128" unfolding n by (simp add: ctz_ptrs_def)
  then have cut: "\<not> readable_file demo_config (rambd_contents demo_geometry demo_list_device) demo_blocks 0 f'" by (rule f'(6))
  have head: "file_ctz f' = \<lparr>ctz_head = 2, ctz_size = 128\<rparr>" using f'(5) unfolding n by simp
  show ?thesis
    by (rule exI [of _ f'], intro conjI head cut) (use f'(1) in simp)
qed

end
